(* ===== verification/Prelude.thy ===== *)
theory Prelude
  imports Complex_Main "HOL-Library.Multiset" "HOL-Library.Word"
begin

text \<open>
  What the components share: the types that stand for Python's values (strings, UUIDs,
  timestamps, JSON), the built-in operations the code uses on them (\<open>or\<close> with a default,
  dictionary assignment, slices, stable sorting, number formatting), a combinator for
  operations that pass a state and may raise, and the list facts the component proofs
  rest on.

  A Python \<open>str\<close> is a \<open>string\<close> here, one \<open>char\<close> per code point, which covers code
  points below 256. Python's \<open>int\<close> is \<open>int\<close>. A timestamp counts microseconds.
\<close>

section \<open>Values\<close>

type_synonym uuid = "128 word"
type_synonym timestamp = int

datatype json =
    JNull
  | JBool bool
  | JInt int
  | JFloat rat
  | JStr string
  | JArr "json list"
  | JObj "(string \<times> json) list"

type_synonym json_dict = "(string \<times> json) list"

named_theorems py_simps \<open>equations of the Python built-ins the code uses\<close>

section \<open>Python built-ins\<close>

text \<open>\<open>x or d\<close>, where \<open>x\<close> is an optional value and \<open>falsy\<close> says which values count as false.\<close>

definition py_or :: "('a \<Rightarrow> bool) \<Rightarrow> 'a option \<Rightarrow> 'a \<Rightarrow> 'a" where
  "py_or falsy x d = (case x of None \<Rightarrow> d | Some v \<Rightarrow> if falsy v then d else v)"

lemma py_or_simps [simp, py_simps]:
  "py_or f None d = d"
  "f v \<Longrightarrow> py_or f (Some v) d = d"
  "\<not> f v \<Longrightarrow> py_or f (Some v) d = v"
  by (simp_all add: py_or_def)

text \<open>A dictionary keeps insertion order; assigning an existing key keeps its position.\<close>

fun dict_set :: "'k \<Rightarrow> 'v \<Rightarrow> ('k \<times> 'v) list \<Rightarrow> ('k \<times> 'v) list" where
  "dict_set k v [] = [(k, v)]"
| "dict_set k v ((k', v') # d) = (if k = k' then (k, v) # d else (k', v') # dict_set k v d)"

fun dict_update :: "('k \<times> 'v) list \<Rightarrow> ('k \<times> 'v) list \<Rightarrow> ('k \<times> 'v) list" where
  "dict_update d [] = d"
| "dict_update d ((k, v) # e) = dict_update (dict_set k v d) e"

lemma map_of_dict_set [simp]: "map_of (dict_set k v d) = (map_of d)(k \<mapsto> v)"
  by (induction d) (auto simp: fun_eq_iff)

lemma map_fst_dict_set:
  "map fst (dict_set k v d) = (if k \<in> fst ` set d then map fst d else map fst d @ [k])"
  by (induction d) (auto split: if_splits)

lemma distinct_dict_set [intro]:
  "distinct (map fst d) \<Longrightarrow> distinct (map fst (dict_set k v d))"
  by (simp add: map_fst_dict_set)

lemma map_of_dict_update:
  "distinct (map fst e) \<Longrightarrow> map_of (dict_update d e) = map_of d ++ map_of e"
proof (induction e arbitrary: d)
  case Nil
  then show ?case by simp
next
  case (Cons kv e)
  obtain k v where [simp]: "kv = (k, v)" by (cases kv)
  from Cons.prems have "k \<notin> dom (map_of e)" by (auto simp: dom_map_of_conv_image_fst)
  with Cons show ?case by (auto simp: fun_eq_iff map_add_def split: option.splits)
qed

text \<open>\<open>xs[:k]\<close> for any integer \<open>k\<close>: a negative bound counts from the end.\<close>

definition py_take :: "int \<Rightarrow> 'a list \<Rightarrow> 'a list" where
  "py_take k xs = (if 0 \<le> k then take (nat k) xs else take (length xs - nat (- k)) xs)"

lemma py_take_nonneg [simp]: "0 \<le> k \<Longrightarrow> py_take k xs = take (nat k) xs"
  by (simp add: py_take_def)

lemma set_py_take: "set (py_take k xs) \<subseteq> set xs"
  by (auto simp: py_take_def dest: in_set_takeD)

lemma length_py_take: "length (py_take k xs) \<le> length xs"
  by (simp add: py_take_def)

text \<open>\<open>s.startswith(p)\<close> and \<open>s.removeprefix(p)\<close>.\<close>

fun startswith :: "string \<Rightarrow> string \<Rightarrow> bool" where
  "startswith s [] = True"
| "startswith [] (c # p) = False"
| "startswith (a # s) (c # p) = (a = c \<and> startswith s p)"

definition removeprefix :: "string \<Rightarrow> string \<Rightarrow> string" where
  "removeprefix s p = (if startswith s p then drop (length p) s else s)"

lemma startswith_append [simp]: "startswith (p @ s) p"
  by (induction p) auto

lemma startswith_iff: "startswith s p \<longleftrightarrow> (\<exists>r. s = p @ r)"
  by (induction s p rule: startswith.induct) auto

lemma removeprefix_append [simp]: "removeprefix (p @ s) p = s"
  by (simp add: removeprefix_def)

text \<open>\<open>s.replace(old, new)\<close> for a non-empty \<open>old\<close>: left to right, without overlap.\<close>

function py_replace :: "string \<Rightarrow> string \<Rightarrow> string \<Rightarrow> string" where
  "py_replace old new s =
     (if old \<noteq> [] \<and> s \<noteq> [] \<and> startswith s old then new @ py_replace old new (drop (length old) s)
      else case s of [] \<Rightarrow> [] | c # cs \<Rightarrow> c # py_replace old new cs)"
  by pat_completeness auto
termination
  by (relation "measure (\<lambda>(old, new, s). length s)") auto

declare py_replace.simps [simp del]

section \<open>Numbers in text\<close>

text \<open>The digits of \<open>n\<close> in base \<open>b\<close>, padded or cut to width \<open>w\<close>, most significant first.\<close>

fun digits :: "nat \<Rightarrow> nat \<Rightarrow> nat \<Rightarrow> nat list" where
  "digits b 0 n = []"
| "digits b (Suc w) n = digits b w (n div b) @ [n mod b]"

definition undigits :: "nat \<Rightarrow> nat list \<Rightarrow> nat" where
  "undigits b ds = foldl (\<lambda>a d. a * b + d) 0 ds"

lemma undigits_snoc [simp]: "undigits b (ds @ [d]) = undigits b ds * b + d"
  by (simp add: undigits_def)

lemma undigits_Nil [simp]: "undigits b [] = 0"
  by (simp add: undigits_def)

lemma undigits_digits: "0 < b \<Longrightarrow> n < b ^ w \<Longrightarrow> undigits b (digits b w n) = n"
proof (induction w arbitrary: n)
  case 0
  then show ?case by simp
next
  case (Suc w)
  then have "n div b < b ^ w" by (simp add: less_mult_imp_div_less mult.commute)
  with Suc show ?case by simp
qed

lemma length_digits [simp]: "length (digits b w n) = w"
  by (induction w arbitrary: n) auto

lemma digits_less: "0 < b \<Longrightarrow> d \<in> set (digits b w n) \<Longrightarrow> d < b"
  by (induction w arbitrary: n) auto

text \<open>The decimal digits of a number, with no leading zero (but one digit for 0).\<close>

fun dec_digits :: "nat \<Rightarrow> nat list" where
  "dec_digits n = (if n < 10 then [n] else dec_digits (n div 10) @ [n mod 10])"

declare dec_digits.simps [simp del]

lemma undigits_dec_digits [simp]: "undigits 10 (dec_digits n) = n"
proof (induction n rule: dec_digits.induct)
  case (1 n)
  show ?case
  proof (cases "n < 10")
    case True
    then show ?thesis
      by (simp add: dec_digits.simps [of n] undigits_def)
  next
    case False
    with "1.IH" show ?thesis by (simp add: dec_digits.simps [of n])
  qed
qed

lemma dec_digits_less: "d \<in> set (dec_digits n) \<Longrightarrow> d < 10"
proof (induction n rule: dec_digits.induct)
  case (1 n)
  then show ?case by (subst (asm) dec_digits.simps) (auto split: if_splits)
qed

lemma undigits_zeros [simp]: "undigits b (replicate k 0 @ ds) = undigits b ds"
  by (induction k) (simp_all add: undigits_def)

text \<open>Characters of digits, in base 10 and 16.\<close>

definition digit_char :: "nat \<Rightarrow> char" where
  "digit_char d = (if d < 10 then char_of (48 + d) else char_of (87 + d))"

definition char_digit :: "char \<Rightarrow> nat" where
  "char_digit c = (if of_char c < (58::nat) then of_char c - 48 else of_char c - 87)"

lemma char_digit_char: "d < 16 \<Longrightarrow> char_digit (digit_char d) = d"
  by (auto simp: char_digit_def digit_char_def of_char_of)

lemma map_char_digit: "\<forall>d \<in> set ds. d < 16 \<Longrightarrow> map char_digit (map digit_char ds) = ds"
  by (induction ds) (auto simp: char_digit_char)

lemma digit_char_inj: "a < 16 \<Longrightarrow> b < 16 \<Longrightarrow> digit_char a = digit_char b \<Longrightarrow> a = b"
  by (metis char_digit_char)

text \<open>\<open>str(n)\<close> for an int, and the format \<open>{n:05d}\<close>: the sign first, then zeros to width 5.\<close>

definition str_nat :: "nat \<Rightarrow> string" where
  "str_nat n = map digit_char (dec_digits n)"

definition str_int :: "int \<Rightarrow> string" where
  "str_int n = (if n < 0 then CHR ''-'' # str_nat (nat (- n)) else str_nat (nat n))"

definition fmt_05d :: "int \<Rightarrow> string" where
  "fmt_05d n =
     (let sign = (if n < 0 then ''-'' else ''''); body = str_nat (nat \<bar>n\<bar>)
      in sign @ replicate (5 - length sign - length body) (CHR ''0'') @ body)"

lemma undigits_str_nat: "undigits 10 (map char_digit (str_nat n)) = n"
proof -
  have "map char_digit (str_nat n) = dec_digits n"
    unfolding str_nat_def by (rule map_char_digit) (auto dest: dec_digits_less)
  then show ?thesis by simp
qed

lemma str_nat_inj [simp]: "str_nat m = str_nat n \<longleftrightarrow> m = n"
  by (metis undigits_str_nat)

lemma fmt_05d_nonneg:
  "0 \<le> n \<Longrightarrow> fmt_05d n = replicate (5 - length (str_nat (nat n))) (CHR ''0'') @ str_nat (nat n)"
  by (simp add: fmt_05d_def Let_def)

lemma char_digit_zero [simp]: "char_digit (CHR ''0'') = 0"
  by (simp add: char_digit_def of_char_def)

lemma undigits_fmt_05d: "0 \<le> n \<Longrightarrow> undigits 10 (map char_digit (fmt_05d n)) = nat n"
  by (simp add: fmt_05d_nonneg undigits_str_nat del: str_nat_inj)

lemma fmt_05d_inj: "0 \<le> m \<Longrightarrow> 0 \<le> n \<Longrightarrow> fmt_05d m = fmt_05d n \<longleftrightarrow> m = n"
  by (metis eq_nat_nat_iff undigits_fmt_05d)

section \<open>Text to numbers, whitespace, splitting\<close>

text \<open>The code points below 256 that \<open>str.isspace\<close> accepts.\<close>

definition py_isspace :: "char \<Rightarrow> bool" where
  "py_isspace c =
     (let n = (of_char c :: nat)
      in (9 \<le> n \<and> n \<le> 13) \<or> (28 \<le> n \<and> n \<le> 32) \<or> n = 133 \<or> n = 160)"

definition lstrip :: "string \<Rightarrow> string" where
  "lstrip s = dropWhile py_isspace s"

definition strip :: "string \<Rightarrow> string" where
  "strip s = rev (lstrip (rev (lstrip s)))"

text \<open>\<open>s.split(c)\<close> for a one-character separator.\<close>

fun split_on :: "char \<Rightarrow> string \<Rightarrow> string list" where
  "split_on c [] = [[]]"
| "split_on c (x # xs) =
     (if x = c then [] # split_on c xs
      else (case split_on c xs of [] \<Rightarrow> [[x]] | w # ws \<Rightarrow> (x # w) # ws))"

lemma split_on_not_Nil [simp]: "split_on c s \<noteq> []"
  by (cases s) (auto split: list.splits)

lemma split_on_no_sep: "w \<in> set (split_on c s) \<Longrightarrow> c \<notin> set w"
  by (induction s arbitrary: w) (fastforce split: if_splits list.splits)+

text \<open>\<open>sep.join(words)\<close>.\<close>

fun join :: "string \<Rightarrow> string list \<Rightarrow> string" where
  "join sep [] = []"
| "join sep [w] = w"
| "join sep (w # ws) = w @ sep @ join sep ws"

lemma join_Cons: "ws \<noteq> [] \<Longrightarrow> join sep (w # ws) = w @ sep @ join sep ws"
  by (cases ws) auto

lemma join_split_on: "join [c] (split_on c s) = s"
proof (induction s)
  case Nil
  then show ?case by simp
next
  case (Cons x xs)
  obtain w ws where sp: "split_on c xs = w # ws"
    by (meson neq_Nil_conv split_on_not_Nil)
  with Cons show ?case by (cases ws) (auto simp: join_Cons)
qed

text \<open>
  \<open>int(s)\<close> on a string: surrounding whitespace, one sign, digits with single underscores
  between them; \<open>None\<close> stands for the ValueError. Python refuses more than 4300 digits.
\<close>

definition is_digit :: "char \<Rightarrow> bool" where
  "is_digit c = (let n = (of_char c :: nat) in 48 \<le> n \<and> n \<le> 57)"

fun int_digits :: "nat \<Rightarrow> bool \<Rightarrow> string \<Rightarrow> nat option" where
  "int_digits acc after [] = (if after then Some acc else None)"
| "int_digits acc after (c # cs) =
     (if is_digit c then int_digits (acc * 10 + char_digit c) True cs
      else if c = CHR ''_'' \<and> after then int_digits acc False cs
      else None)"

definition int_of_str :: "string \<Rightarrow> int option" where
  "int_of_str s =
     (let t = strip s
      in if 4300 < length (filter is_digit t) then None
         else case t of
           [] \<Rightarrow> None
         | c # cs \<Rightarrow>
             if c = CHR ''-'' then map_option (\<lambda>n. - int n) (int_digits 0 False cs)
             else if c = CHR ''+'' then map_option int (int_digits 0 False cs)
             else map_option int (int_digits 0 False t))"

text \<open>\<open>int(x)\<close> of a decoded JSON value; \<open>None\<close> stands for the TypeError or ValueError.\<close>

definition trunc_rat :: "rat \<Rightarrow> int" where
  "trunc_rat r = (if r < 0 then - \<lfloor>- r\<rfloor> else \<lfloor>r\<rfloor>)"

fun int_of_json :: "json \<Rightarrow> int option" where
  "int_of_json (JInt n) = Some n"
| "int_of_json (JBool b) = Some (if b then 1 else 0)"
| "int_of_json (JFloat r) = Some (trunc_rat r)"
| "int_of_json (JStr s) = int_of_str s"
| "int_of_json _ = None"

section \<open>Stable sorting\<close>

text \<open>
  \<open>sorted(xs, key=f)\<close> is the library's stable \<open>sort_key\<close>; with \<open>reverse=True\<close> Python keeps
  the original order of elements with equal keys, by reversing before and after.
\<close>

definition sort_key_desc :: "('a \<Rightarrow> 'k::linorder) \<Rightarrow> 'a list \<Rightarrow> 'a list" where
  "sort_key_desc f xs = rev (sort_key f (rev xs))"

lemma mset_sort_key_desc [simp]: "mset (sort_key_desc f xs) = mset xs"
  by (simp add: sort_key_desc_def)

lemma set_sort_key_desc [simp]: "set (sort_key_desc f xs) = set xs"
  by (simp add: sort_key_desc_def)

lemma length_sort_key_desc [simp]: "length (sort_key_desc f xs) = length xs"
  by (simp add: sort_key_desc_def)

lemma sorted_sort_key_desc: "sorted_wrt (\<lambda>a b. f b \<le> f a) (sort_key_desc f xs)"
proof -
  have "sorted (map f (sort_key f (rev xs)))" by simp
  then show ?thesis
    unfolding sort_key_desc_def by (simp add: sorted_wrt_rev sorted_map)
qed

lemma sort_key_desc_stable:
  "filter (\<lambda>x. f x = k) (sort_key_desc f xs) = filter (\<lambda>x. f x = k) xs"
proof -
  have "filter (\<lambda>x. f x = k) (sort_key f (rev xs)) = filter (\<lambda>x. f x = k) (rev xs)"
    by (rule sort_key_stable)
  then show ?thesis
    by (simp add: sort_key_desc_def rev_filter [symmetric])
qed

lemma sort_key_desc_sorted_id:
  assumes "sorted_wrt (\<lambda>a b. f b \<le> f a) xs"
  shows "sort_key_desc f xs = xs"
proof -
  have "sorted (map f (rev xs))"
    using assms by (simp add: sorted_map sorted_wrt_rev)
  then show ?thesis by (simp add: sort_key_desc_def sorted_sort_id sort_key_id_if_sorted)
qed

text \<open>\<open>xs.index(x)\<close>; \<open>None\<close> stands for the ValueError.\<close>

fun py_index :: "'a \<Rightarrow> 'a list \<Rightarrow> nat option" where
  "py_index x [] = None"
| "py_index x (y # ys) = (if x = y then Some 0 else map_option Suc (py_index x ys))"

lemma py_index_Some: "py_index x xs = Some i \<Longrightarrow> i < length xs \<and> xs ! i = x"
  by (induction xs arbitrary: i) (auto split: if_splits)

section \<open>Operations that pass a state and may raise\<close>

text \<open>
  An operation of type \<open>'s \<Rightarrow> ('e + 'a) \<times> 's\<close> takes the state and returns either the
  exception (\<open>Inl\<close>) or its value (\<open>Inr\<close>), with the state it left. \<open>seqE\<close> is sequencing:
  an exception skips what follows. \<open>catchE\<close> is \<open>try/except\<close>.
\<close>

definition retE :: "'a \<Rightarrow> 's \<Rightarrow> ('e + 'a) \<times> 's" where
  "retE a s = (Inr a, s)"

definition raiseE :: "'e \<Rightarrow> 's \<Rightarrow> ('e + 'a) \<times> 's" where
  "raiseE e s = (Inl e, s)"

definition seqE ::
  "('s \<Rightarrow> ('e + 'a) \<times> 's) \<Rightarrow> ('a \<Rightarrow> 's \<Rightarrow> ('e + 'b) \<times> 's) \<Rightarrow> 's \<Rightarrow> ('e + 'b) \<times> 's" where
  "seqE m k s = (case m s of (Inl e, s') \<Rightarrow> (Inl e, s') | (Inr a, s') \<Rightarrow> k a s')"

definition catchE ::
  "('s \<Rightarrow> ('e + 'a) \<times> 's) \<Rightarrow> ('e \<Rightarrow> 's \<Rightarrow> ('f + 'a) \<times> 's) \<Rightarrow> 's \<Rightarrow> ('f + 'a) \<times> 's" where
  "catchE m h s = (case m s of (Inl e, s') \<Rightarrow> h e s' | (Inr a, s') \<Rightarrow> (Inr a, s'))"

text \<open>\<open>try/finally\<close>: what the second operation raises replaces the outcome of the first.\<close>

definition finallyE ::
  "('s \<Rightarrow> ('e + 'a) \<times> 's) \<Rightarrow> ('s \<Rightarrow> ('e + unit) \<times> 's) \<Rightarrow> 's \<Rightarrow> ('e + 'a) \<times> 's" where
  "finallyE m c s =
     (case m s of (r, s') \<Rightarrow> (case c s' of (Inl e, s'') \<Rightarrow> (Inl e, s'') | (Inr _, s'') \<Rightarrow> (r, s'')))"

lemma retE_simp [simp]: "retE a s = (Inr a, s)"
  by (simp add: retE_def)

lemma raiseE_simp [simp]: "raiseE e s = (Inl e, s)"
  by (simp add: raiseE_def)

lemma seqE_Inr: "m s = (Inr a, s') \<Longrightarrow> seqE m k s = k a s'"
  by (simp add: seqE_def)

lemma seqE_Inl: "m s = (Inl e, s') \<Longrightarrow> seqE m k s = (Inl e, s')"
  by (simp add: seqE_def)

lemma catchE_Inr: "m s = (Inr a, s') \<Longrightarrow> catchE m h s = (Inr a, s')"
  by (simp add: catchE_def)

lemma catchE_Inl: "m s = (Inl e, s') \<Longrightarrow> catchE m h s = h e s'"
  by (simp add: catchE_def)

lemma seqE_retE [simp]: "seqE (retE a) k s = k a s"
  by (simp add: seqE_def)

lemmas exec_simps = seqE_Inr seqE_Inl catchE_Inr catchE_Inl

lemma seqE_InrE:
  assumes "seqE m k s = (Inr b, s'')"
  obtains a s' where "m s = (Inr a, s')" "k a s' = (Inr b, s'')"
  using assms by (auto simp: seqE_def split: prod.splits sum.splits)

text \<open>A descending order by a key that does not repeat is strict.\<close>

lemma sorted_desc_distinct:
  fixes f :: "'a \<Rightarrow> 'k::linorder"
  shows "sorted_wrt (\<lambda>a b. f b \<le> f a) xs \<Longrightarrow> distinct (map f xs) \<Longrightarrow> sorted_wrt (\<lambda>a b. f b < f a) xs"
proof (induction xs)
  case Nil
  then show ?case by simp
next
  case (Cons a xs)
  then have "f x < f a" if "x \<in> set xs" for x
    using that by (metis distinct.simps(2) image_eqI list.simps(9) order_less_le set_map
        sorted_wrt.simps(2))
  with Cons show ?case by simp
qed

section \<open>Lists with distinct keys\<close>

text \<open>
  A table is a list of rows with distinct keys, in no particular order; what a key selects
  does not depend on the order.
\<close>

lemma filter_key_unique:
  assumes "distinct (map f xs)" and "x \<in> set xs"
  shows "filter (\<lambda>y. f y = f x) xs = [x]"
  using assms
proof (induction xs)
  case Nil
  then show ?case by simp
next
  case (Cons a xs)
  show ?case
  proof (cases "a = x")
    case True
    with Cons.prems have "f x \<notin> f ` set xs" by simp
    then have "\<forall>y \<in> set xs. f y \<noteq> f x" by (metis imageI)
    with True show ?thesis by (simp add: filter_empty_conv)
  next
    case False
    with Cons.prems have "x \<in> set xs" "f a \<notin> f ` set xs" by auto
    then have "f a \<noteq> f x" by (metis imageI)
    with False Cons show ?thesis by auto
  qed
qed

lemma filter_key_cases:
  assumes "distinct (map f xs)"
  obtains "filter (\<lambda>y. f y = k) xs = []" "\<forall>y \<in> set xs. f y \<noteq> k"
  | x where "x \<in> set xs" "f x = k" "filter (\<lambda>y. f y = k) xs = [x]"
proof (cases "\<exists>x \<in> set xs. f x = k")
  case True
  then obtain x where "x \<in> set xs" "f x = k" by blast
  with assms have "filter (\<lambda>y. f y = k) xs = [x]"
    using filter_key_unique [of f xs x] by simp
  with that(2) \<open>x \<in> set xs\<close> \<open>f x = k\<close> show ?thesis by blast
next
  case False
  with that(1) show ?thesis by (auto simp: filter_empty_conv)
qed

lemma distinct_key_inj: "distinct (map f xs) \<Longrightarrow> x \<in> set xs \<Longrightarrow> y \<in> set xs \<Longrightarrow> f x = f y \<Longrightarrow> x = y"
  by (auto simp: distinct_map dest: inj_onD)

lemma distinct_map_mset: "mset xs = mset ys \<Longrightarrow> distinct (map f xs) = distinct (map f ys)"
  by (metis mset_eq_imp_distinct_iff mset_map)

lemma sorted_wrt_sort_key: "sorted_wrt (\<lambda>a b. f a \<le> f b) (sort_key f xs)"
  using sorted_sort_key [of f xs] by (simp only: sorted_map)

text \<open>A sorted arrangement by a key that does not repeat is determined.\<close>

lemma sort_key_unique:
  fixes f :: "'a \<Rightarrow> 'k::linorder"
  assumes "mset ys = mset xs" and "distinct (map f xs)" and "sorted_wrt (\<lambda>a b. f a \<le> f b) ys"
  shows "ys = sort_key f xs"
proof (rule map_sorted_distinct_set_unique [of f])
  have sets: "set ys = set xs" using assms(1) by (metis set_mset_mset)
  then show "set ys = set (sort_key f xs)" by simp
  show "inj_on f (set ys \<union> set (sort_key f xs))"
    using assms(2) sets by (simp add: distinct_map)
  show "sorted (map f ys)" using assms(3) by (simp add: sorted_map)
  show "sorted (map f (sort_key f xs))" by simp
  show "distinct (map f ys)" using assms(1,2) distinct_map_mset by blast
  show "distinct (map f (sort_key f xs))" using assms(2) distinct_map_mset mset_sort by metis
qed

end
