(* ===== verification/Errors.thy ===== *)
theory Errors
  imports Prelude
begin

text \<open>
  Models \<open>src/ipa/core/errors.py\<close>: the \<open>IpaError\<close> hierarchy, the RFC 7807 problem
  document of an error, the mapping of any exception to one, and the four handlers the API
  installs. The exceptions that leave the drivers (SQLAlchemy, pymongo, minio, redis) are
  values of \<open>py_exn\<close> beside the platform's own.
\<close>

section \<open>The error classes\<close>

datatype error_class =
    IpaError
  | NotFoundError
  | ConflictError
  | ValidationError
  | UnsupportedMediaError
  | QuarantineError
  | ProviderError
  | RetryableProviderError
  | StepFailedError
  | ConfigurationError

text \<open>The class attributes \<open>code\<close>, \<open>http_status\<close>, \<open>title\<close> and \<open>retryable\<close>.\<close>

fun class_code :: "error_class \<Rightarrow> string" where
  "class_code IpaError = ''internal_error''"
| "class_code NotFoundError = ''not_found''"
| "class_code ConflictError = ''conflict''"
| "class_code ValidationError = ''validation_error''"
| "class_code UnsupportedMediaError = ''unsupported_media''"
| "class_code QuarantineError = ''quarantined''"
| "class_code ProviderError = ''provider_error''"
| "class_code RetryableProviderError = ''provider_unavailable''"
| "class_code StepFailedError = ''step_failed''"
| "class_code ConfigurationError = ''configuration_error''"

fun class_http_status :: "error_class \<Rightarrow> int" where
  "class_http_status IpaError = 500"
| "class_http_status NotFoundError = 404"
| "class_http_status ConflictError = 409"
| "class_http_status ValidationError = 422"
| "class_http_status UnsupportedMediaError = 415"
| "class_http_status QuarantineError = 422"
| "class_http_status ProviderError = 502"
| "class_http_status RetryableProviderError = 503"
| "class_http_status StepFailedError = 500"
| "class_http_status ConfigurationError = 500"

fun class_title :: "error_class \<Rightarrow> string" where
  "class_title IpaError = ''Internal Server Error''"
| "class_title NotFoundError = ''Not Found''"
| "class_title ConflictError = ''Conflict''"
| "class_title ValidationError = ''Validation Error''"
| "class_title UnsupportedMediaError = ''Unsupported Media Type''"
| "class_title QuarantineError = ''Document Quarantined''"
| "class_title ProviderError = ''Provider Error''"
| "class_title RetryableProviderError = ''Provider Temporarily Unavailable''"
| "class_title StepFailedError = ''Pipeline Step Failed''"
| "class_title ConfigurationError = ''Configuration Error''"

fun class_retryable :: "error_class \<Rightarrow> bool" where
  "class_retryable RetryableProviderError = True"
| "class_retryable _ = False"

text \<open>An error object: the attributes an instance ends up with.\<close>

record ipa_error =
  err_class :: error_class
  err_detail :: string
  err_code :: string
  err_http_status :: int
  err_title :: string
  err_retryable :: bool
  err_extra :: json_dict

text \<open>
  \<open>IpaError.__init__\<close>: each keyword falls back to the class attribute when it is absent
  or false (\<open>detail or self.title\<close>).
\<close>

definition make_error ::
  "error_class \<Rightarrow> string option \<Rightarrow> string option \<Rightarrow> int option \<Rightarrow> json_dict option \<Rightarrow> ipa_error"
where
  "make_error c detail code http_status extra =
     \<lparr>err_class = c,
      err_detail = py_or (\<lambda>s. s = []) detail (class_title c),
      err_code = py_or (\<lambda>s. s = []) code (class_code c),
      err_http_status = py_or (\<lambda>n. n = 0) http_status (class_http_status c),
      err_title = class_title c,
      err_retryable = class_retryable c,
      err_extra = py_or (\<lambda>d. d = []) extra []\<rparr>"

text \<open>The common call: a class and a message.\<close>

abbreviation raise_error :: "error_class \<Rightarrow> string \<Rightarrow> ipa_error" where
  "raise_error c detail \<equiv> make_error c (Some detail) None None None"

lemma make_error_simps [simp]:
  "err_class (make_error c d k h x) = c"
  "err_title (make_error c d k h x) = class_title c"
  "err_retryable (make_error c d k h x) = class_retryable c"
  "err_code (make_error c d None h x) = class_code c"
  "err_http_status (make_error c d k None x) = class_http_status c"
  "err_extra (make_error c d k h None) = []"
  by (simp_all add: make_error_def)

section \<open>Exceptions\<close>

datatype py_exn =
    IpaExn ipa_error
  | ValueError string
  | KeyError string
  | TypeError string
  | IntegrityError string
  | MultipleResultsFound
  | NoResultFound
  | DBAPIError string
  | DuplicateKeyError string
  | S3Error string string
  | RedisConnectionError string
  | RedisTimeoutError string
  | OtherException string string

text \<open>\<open>str(exc)\<close>: a driver's exception carries its text; an S3 error carries its code beside it.\<close>

fun exn_str :: "py_exn \<Rightarrow> string" where
  "exn_str (IpaExn e) = err_detail e"
| "exn_str (ValueError m) = m"
| "exn_str (KeyError m) = m"
| "exn_str (TypeError m) = m"
| "exn_str (IntegrityError m) = m"
| "exn_str MultipleResultsFound = ''Multiple rows were found when one or none was required''"
| "exn_str NoResultFound = ''No row was found when one was required''"
| "exn_str (DBAPIError m) = m"
| "exn_str (DuplicateKeyError m) = m"
| "exn_str (S3Error code m) = m"
| "exn_str (RedisConnectionError m) = m"
| "exn_str (RedisTimeoutError m) = m"
| "exn_str (OtherException ty m) = m"

section \<open>Problem documents\<close>

definition PROBLEM_CONTENT_TYPE :: string where
  "PROBLEM_CONTENT_TYPE = ''application/problem+json''"

definition PROBLEM_TYPE_PREFIX :: string where
  "PROBLEM_TYPE_PREFIX = ''urn:ipa:error:''"

definition json_opt_str :: "string option \<Rightarrow> json" where
  "json_opt_str x = (case x of None \<Rightarrow> JNull | Some s \<Rightarrow> JStr s)"

text \<open>\<open>IpaError.to_problem\<close>: the six members, then the extra ones over them.\<close>

definition to_problem :: "ipa_error \<Rightarrow> string option \<Rightarrow> json_dict" where
  "to_problem e inst =
     dict_update
       [(''type'', JStr (PROBLEM_TYPE_PREFIX @ err_code e)),
        (''title'', JStr (err_title e)),
        (''status'', JInt (err_http_status e)),
        (''detail'', JStr (err_detail e)),
        (''instance'', json_opt_str inst),
        (''code'', JStr (err_code e))]
       (err_extra e)"

text \<open>\<open>problem_from_exception\<close>.\<close>

definition problem_from_exception :: "py_exn \<Rightarrow> string option \<Rightarrow> json_dict" where
  "problem_from_exception exc inst =
     (case exc of
        IpaExn e \<Rightarrow> to_problem e inst
      | _ \<Rightarrow> to_problem (raise_error IpaError ''An unexpected error occurred.'') inst)"

section \<open>The handlers\<close>

record response =
  status_code :: int
  content :: json
  media_type :: string

text \<open>
  \<open>_respond\<close>: \<open>int(problem["status"])\<close> is the HTTP status, and raises when the extra members
  replaced the status by something that is no number. FastAPI's \<open>jsonable_encoder\<close> is the
  argument \<open>encode\<close>.
\<close>

definition respond :: "(json \<Rightarrow> json) \<Rightarrow> json_dict \<Rightarrow> py_exn + response" where
  "respond encode problem =
     (case map_of problem ''status'' of
        None \<Rightarrow> Inl (KeyError ''status'')
      | Some v \<Rightarrow>
          (case int_of_json v of
             None \<Rightarrow> Inl (TypeError ''int() argument'')
           | Some n \<Rightarrow> Inr \<lparr>status_code = n, content = encode (JObj problem),
                            media_type = PROBLEM_CONTENT_TYPE\<rparr>))"

definition handle_ipa_error ::
  "(json \<Rightarrow> json) \<Rightarrow> string \<Rightarrow> ipa_error \<Rightarrow> py_exn + response" where
  "handle_ipa_error encode url e = respond encode (to_problem e (Some url))"

text \<open>The phrases of \<open>http.HTTPStatus\<close> in Python 3.12, the version the project pins.\<close>

definition http_phrases :: "(int \<times> string) list" where
  "http_phrases =
    [(100, ''Continue''),
     (101, ''Switching Protocols''),
     (102, ''Processing''),
     (103, ''Early Hints''),
     (200, ''OK''),
     (201, ''Created''),
     (202, ''Accepted''),
     (203, ''Non-Authoritative Information''),
     (204, ''No Content''),
     (205, ''Reset Content''),
     (206, ''Partial Content''),
     (207, ''Multi-Status''),
     (208, ''Already Reported''),
     (226, ''IM Used''),
     (300, ''Multiple Choices''),
     (301, ''Moved Permanently''),
     (302, ''Found''),
     (303, ''See Other''),
     (304, ''Not Modified''),
     (305, ''Use Proxy''),
     (307, ''Temporary Redirect''),
     (308, ''Permanent Redirect''),
     (400, ''Bad Request''),
     (401, ''Unauthorized''),
     (402, ''Payment Required''),
     (403, ''Forbidden''),
     (404, ''Not Found''),
     (405, ''Method Not Allowed''),
     (406, ''Not Acceptable''),
     (407, ''Proxy Authentication Required''),
     (408, ''Request Timeout''),
     (409, ''Conflict''),
     (410, ''Gone''),
     (411, ''Length Required''),
     (412, ''Precondition Failed''),
     (413, ''Request Entity Too Large''),
     (414, ''Request-URI Too Long''),
     (415, ''Unsupported Media Type''),
     (416, ''Requested Range Not Satisfiable''),
     (417, ''Expectation Failed''),
     (418, ''I'' @ [CHR 0x27] @ ''m a Teapot''),
     (421, ''Misdirected Request''),
     (422, ''Unprocessable Entity''),
     (423, ''Locked''),
     (424, ''Failed Dependency''),
     (425, ''Too Early''),
     (426, ''Upgrade Required''),
     (428, ''Precondition Required''),
     (429, ''Too Many Requests''),
     (431, ''Request Header Fields Too Large''),
     (451, ''Unavailable For Legal Reasons''),
     (500, ''Internal Server Error''),
     (501, ''Not Implemented''),
     (502, ''Bad Gateway''),
     (503, ''Service Unavailable''),
     (504, ''Gateway Timeout''),
     (505, ''HTTP Version Not Supported''),
     (506, ''Variant Also Negotiates''),
     (507, ''Insufficient Storage''),
     (508, ''Loop Detected''),
     (510, ''Not Extended''),
     (511, ''Network Authentication Required'')]"

definition handle_http_exception ::
  "(json \<Rightarrow> json) \<Rightarrow> string \<Rightarrow> int \<Rightarrow> string \<Rightarrow> py_exn + response" where
  "handle_http_exception encode url status detail =
     (let mapped = make_error IpaError (Some detail) (Some (''http_'' @ str_int status))
                     (Some status) None;
          title = (case map_of http_phrases status of
                     Some phrase \<Rightarrow> phrase
                   | None \<Rightarrow> ''HTTP '' @ str_int status)
      in respond encode (to_problem (mapped\<lparr>err_title := title\<rparr>) (Some url)))"

definition handle_validation_error ::
  "(json \<Rightarrow> json) \<Rightarrow> string \<Rightarrow> json list \<Rightarrow> py_exn + response" where
  "handle_validation_error encode url errors =
     respond encode
       (to_problem
          (make_error ValidationError (Some ''The request body or parameters failed validation.'')
             None None (Some [(''errors'', JArr errors)]))
          (Some url))"

definition handle_unexpected ::
  "(json \<Rightarrow> json) \<Rightarrow> string \<Rightarrow> py_exn \<Rightarrow> py_exn + response" where
  "handle_unexpected encode url exc = respond encode (problem_from_exception exc (Some url))"

section \<open>Lemmas\<close>

text \<open>The members \<open>to_problem\<close> sets itself.\<close>

definition problem_members :: "string list" where
  "problem_members = [''type'', ''title'', ''status'', ''detail'', ''instance'', ''code'']"

lemma map_of_dict_update_notin:
  "k \<notin> fst ` set e \<Longrightarrow> map_of (dict_update d e) k = map_of d k"
  by (induction d e rule: dict_update.induct) auto

lemma to_problem_member:
  assumes "k \<notin> fst ` set (err_extra e)"
  shows "map_of (to_problem e inst) k =
    map_of
       [(''type'', JStr (PROBLEM_TYPE_PREFIX @ err_code e)),
        (''title'', JStr (err_title e)),
        (''status'', JInt (err_http_status e)),
        (''detail'', JStr (err_detail e)),
        (''instance'', json_opt_str inst),
        (''code'', JStr (err_code e))] k"
  unfolding to_problem_def by (rule map_of_dict_update_notin [OF assms])

lemma respond_status:
  assumes "''status'' \<notin> fst ` set (err_extra e)"
  shows "respond encode (to_problem e inst) =
    Inr \<lparr>status_code = err_http_status e, content = encode (JObj (to_problem e inst)),
         media_type = PROBLEM_CONTENT_TYPE\<rparr>"
  using assms by (simp add: respond_def to_problem_member)

text \<open>
  A problem document whose extra members leave the standard ones alone is answered with the status
  it states.
\<close>

lemma respond_problem:
  assumes "set problem_members \<inter> fst ` set (err_extra e) = {}"
  obtains r where "respond encode (to_problem e (Some url)) = Inr r"
    and "content r = encode (JObj (to_problem e (Some url)))" and "status_code r = err_http_status e"
    and "map_of (to_problem e (Some url)) ''status'' = Some (JInt (err_http_status e))"
    and "map_of (to_problem e (Some url)) ''code'' = Some (JStr (err_code e))"
    and "map_of (to_problem e (Some url)) ''title'' = Some (JStr (err_title e))"
    and "map_of (to_problem e (Some url)) ''instance'' = Some (JStr url)"
proof -
  have no: "k \<notin> fst ` set (err_extra e)" if "k \<in> set problem_members" for k
    using that assms by blast
  show thesis
    by (rule that [OF respond_status])
      (simp_all add: no to_problem_member problem_members_def json_opt_str_def)
qed

section \<open>Properties\<close>

text \<open>
  An exception that is not one of the platform's own is answered with the same 500 response
  whatever it is and whatever it carries: nothing of it reaches the client.
\<close>

theorem unexpected_errors_reveal_nothing:
  assumes "\<forall>e. exc \<noteq> IpaExn e"
  shows "handle_unexpected encode url exc = Inr
    \<lparr>status_code = 500,
     content = encode (JObj
       [(''type'', JStr ''urn:ipa:error:internal_error''),
        (''title'', JStr ''Internal Server Error''), (''status'', JInt 500),
        (''detail'', JStr ''An unexpected error occurred.''), (''instance'', JStr url),
        (''code'', JStr ''internal_error'')]),
     media_type = ''application/problem+json''\<rparr>"
proof -
  have "problem_from_exception exc (Some url) =
      to_problem (raise_error IpaError ''An unexpected error occurred.'') (Some url)"
    using assms by (cases exc) (simp_all add: problem_from_exception_def)
  then show ?thesis
    by (simp add: handle_unexpected_def respond_def to_problem_def make_error_def json_opt_str_def
        PROBLEM_CONTENT_TYPE_def PROBLEM_TYPE_PREFIX_def)
qed

lemma unexpected_errors_reveal_nothing_witness:
  "\<exists>r. handle_unexpected id ''/documents'' (DBAPIError ''password=hunter2'') = Inr r \<and> status_code r = 500"
  by (subst unexpected_errors_reveal_nothing) simp_all



end
