(* ===== verification/Ids.thy ===== *)
theory Ids
  imports Errors
begin

text \<open>
  Models \<open>src/ipa/core/ids.py\<close>, \<open>src/ipa/storage/keys.py\<close> and \<open>src/ipa/storage/cache_keys.py\<close>:
  the blob key scheme and the namespaced cache keys. SHA-256 and UUID generation are not
  modelled: a digest and an identifier are arguments wherever they are used.
\<close>

section \<open>UUIDs in text\<close>

text \<open>
  \<open>str(u)\<close> of a UUID: its 128 bits as 32 lowercase hexadecimal digits, in groups of 8, 4, 4,
  4 and 12 with hyphens between them.
\<close>

definition uuid_hex :: "uuid \<Rightarrow> string" where
  "uuid_hex u = map digit_char (digits 16 32 (unat u))"

definition str_uuid :: "uuid \<Rightarrow> string" where
  "str_uuid u =
     (let h = uuid_hex u
      in take 8 h @ ''-'' @ take 4 (drop 8 h) @ ''-'' @ take 4 (drop 12 h) @ ''-''
         @ take 4 (drop 16 h) @ ''-'' @ drop 20 h)"

lemma length_uuid_hex [simp]: "length (uuid_hex u) = 32"
  by (simp add: uuid_hex_def)

lemma map_char_uuid_hex: "map char_digit (uuid_hex u) = digits 16 32 (unat u)"
  unfolding uuid_hex_def by (rule map_char_digit) (auto dest: digits_less [rotated])

lemma uuid_hex_inj: "uuid_hex u = uuid_hex v \<longleftrightarrow> u = v"
proof
  assume "uuid_hex u = uuid_hex v"
  then have "digits 16 32 (unat u) = digits 16 32 (unat v)"
    by (metis map_char_uuid_hex)
  then have "undigits 16 (digits 16 32 (unat u)) = undigits 16 (digits 16 32 (unat v))" by simp
  moreover have "unat w < 16 ^ 32" for w :: uuid
    using unsigned_less [of w, where ?'a = nat] by simp
  ultimately show "u = v"
    by (simp add: undigits_digits word_unat_eq_iff)
qed simp

lemma length_str_uuid [simp]: "length (str_uuid u) = 36"
  by (simp add: str_uuid_def Let_def)

text \<open>Dropping the hyphens gives the digits back.\<close>

definition unhyphen :: "string \<Rightarrow> string" where
  "unhyphen s =
     take 8 s @ take 4 (drop 9 s) @ take 4 (drop 14 s) @ take 4 (drop 19 s) @ drop 24 s"

lemma unhyphen_str_uuid: "unhyphen (str_uuid u) = uuid_hex u"
proof -
  define h where "h = uuid_hex u"
  have len: "length h = 32" by (simp add: h_def)
  define a where "a = take 8 h"
  define b where "b = take 4 (drop 8 h)"
  define c where "c = take 4 (drop 12 h)"
  define d where "d = take 4 (drop 16 h)"
  define e where "e = drop 20 h"
  have lens: "length a = 8" "length b = 4" "length c = 4" "length d = 4"
    by (simp_all add: a_def b_def c_def d_def len)
  have "drop 8 h = b @ drop 12 h"
    using append_take_drop_id [of 4 "drop 8 h"] by (simp add: b_def)
  moreover have "drop 12 h = c @ drop 16 h"
    using append_take_drop_id [of 4 "drop 12 h"] by (simp add: c_def)
  moreover have "drop 16 h = d @ e"
    using append_take_drop_id [of 4 "drop 16 h"] by (simp add: d_def e_def)
  moreover have "h = a @ drop 8 h"
    by (simp add: a_def)
  ultimately have split: "h = a @ b @ c @ d @ e" by simp
  have "str_uuid u = a @ ''-'' @ b @ ''-'' @ c @ ''-'' @ d @ ''-'' @ e"
    by (simp add: str_uuid_def Let_def a_def b_def c_def d_def e_def h_def)
  then have "unhyphen (str_uuid u) = a @ b @ c @ d @ e"
    by (simp add: unhyphen_def lens)
  with split show ?thesis by (simp add: h_def)
qed

lemma str_uuid_inj [simp]: "str_uuid u = str_uuid v \<longleftrightarrow> u = v"
  by (metis unhyphen_str_uuid uuid_hex_inj)

section \<open>Blob keys\<close>

definition original_key :: "string \<Rightarrow> string" where
  "original_key sha256 = ''originals/'' @ take 2 sha256 @ ''/'' @ sha256"

definition page_image_key :: "uuid \<Rightarrow> int \<Rightarrow> string" where
  "page_image_key document_id page =
     ''pages/'' @ str_uuid document_id @ ''/'' @ fmt_05d page @ ''.png''"

definition thumbnail_key :: "uuid \<Rightarrow> int \<Rightarrow> string" where
  "thumbnail_key document_id page =
     ''thumbs/'' @ str_uuid document_id @ ''/'' @ fmt_05d page @ ''.jpg''"

text \<open>The aliases of \<open>ipa.storage.keys\<close>.\<close>

definition page_key :: "uuid \<Rightarrow> int \<Rightarrow> string" where
  "page_key = page_image_key"

definition thumb_key :: "uuid \<Rightarrow> int \<Rightarrow> string" where
  "thumb_key = thumbnail_key"

section \<open>Cache keys\<close>

definition PREFIX :: string where
  "PREFIX = ''ipa''"

definition build_key :: "string \<Rightarrow> string \<Rightarrow> string \<Rightarrow> string" where
  "build_key env kind identifier = PREFIX @ '':'' @ env @ '':'' @ kind @ '':'' @ identifier"

text \<open>The environment of the settings is the argument \<open>env\<close> of the helpers below.\<close>

definition cache_key :: "string \<Rightarrow> string \<Rightarrow> string \<Rightarrow> string" where
  "cache_key env kind identifier = build_key env kind identifier"

definition extraction_cache_key :: "string \<Rightarrow> uuid \<Rightarrow> int \<Rightarrow> string" where
  "extraction_cache_key env document_id version =
     cache_key env ''extraction'' (str_uuid document_id @ '':v'' @ str_int version)"

definition tag_schema_cache_key :: "string \<Rightarrow> uuid \<Rightarrow> int \<Rightarrow> string" where
  "tag_schema_cache_key env tag_id version =
     cache_key env ''tag_schema'' (str_uuid tag_id @ '':v'' @ str_int version)"

definition search_cache_key :: "string \<Rightarrow> string \<Rightarrow> string" where
  "search_cache_key env query_hash = cache_key env ''search'' query_hash"

definition document_status_cache_key :: "string \<Rightarrow> uuid \<Rightarrow> string" where
  "document_status_cache_key env document_id =
     cache_key env ''document_status'' (str_uuid document_id)"

section \<open>Lemmas\<close>

lemma append_eq_length:
  "length a = length c \<Longrightarrow> a @ b = c @ d \<longleftrightarrow> a = c \<and> b = d"
  by simp

lemma uuid_append_inj [simp]: "str_uuid u @ r = str_uuid v @ r' \<longleftrightarrow> u = v \<and> r = r'"
  using append_eq_length [of "str_uuid u" "str_uuid v"] by simp

text \<open>A separator that does not occur before it splits a text in one way only.\<close>

lemma append_sep_inj:
  "c \<notin> set a \<Longrightarrow> c \<notin> set b \<Longrightarrow> a @ c # r = b @ c # r' \<longleftrightarrow> a = b \<and> r = r'"
proof (induction a arbitrary: b)
  case Nil
  then show ?case by (cases b) auto
next
  case (Cons x a)
  then show ?case by (cases b) auto
qed

lemma build_key_inj:
  assumes "CHR '':'' \<notin> set env" "CHR '':'' \<notin> set env'"
    and "CHR '':'' \<notin> set kind" "CHR '':'' \<notin> set kind'"
  shows "build_key env kind i = build_key env' kind' i' \<longleftrightarrow> env = env' \<and> kind = kind' \<and> i = i'"
  using assms by (auto simp: build_key_def append_sep_inj)

lemma digit_char_neq_minus: "d < 10 \<Longrightarrow> digit_char d \<noteq> CHR ''-''"
  by (auto simp: digit_char_def dest: arg_cong [where f = "of_char :: char \<Rightarrow> nat"])

lemma str_nat_no_minus: "CHR ''-'' # s \<noteq> str_nat n"
proof
  assume "CHR ''-'' # s = str_nat n"
  then have "CHR ''-'' \<in> set (str_nat n)" by (metis list.set_intros(1))
  then obtain d where "d \<in> set (dec_digits n)" "digit_char d = CHR ''-''"
    by (auto simp: str_nat_def)
  with digit_char_neq_minus [of d] dec_digits_less [of d n] show False by simp
qed

lemmas str_nat_no_minus' [simp] = str_nat_no_minus str_nat_no_minus [symmetric]

lemma str_int_inj [simp]: "str_int m = str_int n \<longleftrightarrow> m = n"
  by (auto simp: str_int_def split: if_splits)

lemma page_image_key_inj:
  "0 \<le> p \<Longrightarrow> 0 \<le> q \<Longrightarrow> page_image_key d p = page_image_key e q \<longleftrightarrow> d = e \<and> p = q"
  by (auto simp: page_image_key_def fmt_05d_inj)

lemma thumbnail_key_inj:
  "0 \<le> p \<Longrightarrow> 0 \<le> q \<Longrightarrow> thumbnail_key d p = thumbnail_key e q \<longleftrightarrow> d = e \<and> p = q"
  by (auto simp: thumbnail_key_def fmt_05d_inj)

lemma original_key_inj: "original_key s = original_key t \<longleftrightarrow> s = t"
proof
  assume eq: "original_key s = original_key t"
  then have "length (original_key s) = length (original_key t)" by simp
  then have len: "length s = length t"
    by (auto simp: original_key_def min_def split: if_splits)
  with eq show "s = t" by (simp add: original_key_def)
qed simp

section \<open>Properties\<close>

text \<open>
  Blob keys never collide: with the 1-based page numbers the code uses, two page images
  (or two thumbnails) share a key only when they are the same page of the same document, two
  originals only when their digests agree, and an original, a page image and a thumbnail never
  share one.
\<close>

theorem blob_keys_identify:
  assumes "1 \<le> p" and "1 \<le> q"
  shows "(page_key d p = page_key e q \<longleftrightarrow> d = e \<and> p = q)
       \<and> (thumb_key d p = thumb_key e q \<longleftrightarrow> d = e \<and> p = q)
       \<and> (original_key s = original_key t \<longleftrightarrow> s = t)
       \<and> page_key d p \<noteq> thumb_key e q
       \<and> page_key d p \<noteq> original_key s
       \<and> thumb_key d p \<noteq> original_key s"
  using assms
  by (simp add: page_key_def thumb_key_def page_image_key_inj thumbnail_key_inj original_key_inj)
     (simp add: page_image_key_def thumbnail_key_def original_key_def)

theorem blob_keys_identify_witness:
  "page_key 7 7 \<noteq> page_key 7 12 \<and> thumb_key 7 7 \<noteq> original_key ''ab''"
  using blob_keys_identify [of 7 12 7 7 "''ab''"] by simp

text \<open>
  Cache keys of environments without a colon never collide: two extraction keys agree only
  for the same environment, document and version, two tag schema keys only for the same
  environment, tag and version, two status keys only for the same environment and document,
  and keys of different kinds always differ, even when a search hash is arbitrary text.
\<close>

theorem cache_keys_identify:
  assumes "CHR '':'' \<notin> set env" and "CHR '':'' \<notin> set env'"
  shows "(extraction_cache_key env d v = extraction_cache_key env' d' v'
            \<longleftrightarrow> env = env' \<and> d = d' \<and> v = v')
       \<and> (tag_schema_cache_key env d v = tag_schema_cache_key env' d' v'
            \<longleftrightarrow> env = env' \<and> d = d' \<and> v = v')
       \<and> (document_status_cache_key env d = document_status_cache_key env' d'
            \<longleftrightarrow> env = env' \<and> d = d')
       \<and> (search_cache_key env h = search_cache_key env' h' \<longleftrightarrow> env = env' \<and> h = h')
       \<and> extraction_cache_key env d v \<noteq> search_cache_key env' h
       \<and> tag_schema_cache_key env d v \<noteq> search_cache_key env' h
       \<and> extraction_cache_key env d v \<noteq> tag_schema_cache_key env' d' v'
       \<and> document_status_cache_key env d \<noteq> search_cache_key env' h"
  using assms
  by (simp add: extraction_cache_key_def tag_schema_cache_key_def document_status_cache_key_def
      search_cache_key_def cache_key_def build_key_inj)

theorem cache_keys_identify_witness:
  "extraction_cache_key ''local'' 1 3 \<noteq> extraction_cache_key ''test'' 1 3"
  using cache_keys_identify [of "''local''" "''test''" 1 3 1 3 "[]" "[]"] by simp

end
