(* ===== verification/Enums.thy ===== *)
theory Enums
  imports Errors
begin

text \<open>
  Models \<open>src/ipa/core/enums.py\<close> and \<open>src/ipa/db/enums.py\<close>: the shared enumerations with
  their wire values, the order of the pipeline steps, and the two functions that walk it.
  Where two enumerations have a member of the same name, the later one carries its
  enumeration's prefix.
\<close>

section \<open>Members\<close>

datatype pipeline_step = STORE | DECOMPOSE | OCR | EXTRACT | EMBED | REVIEW

datatype step_status = PENDING | RUNNING | SUCCEEDED | FAILED | SKIPPED

datatype document_status =
    RECEIVED | PROCESSING | PENDING_REVIEW | VALIDATED | COMPLETED | DOC_FAILED | QUARANTINED

datatype field_type =
    STRING | NUMBER | INTEGER | BOOLEAN | DATE | DATETIME | ENUM | ARRAY | OBJECT

datatype extraction_source = MODEL | HUMAN

datatype user_role = ADMIN | REVIEWER | VIEWER

datatype document_source = UI | API

datatype validation_decision = APPROVED | REJECTED | CORRECTED

datatype webhook_delivery_status = DELIVERY_PENDING | DELIVERED | DELIVERY_FAILED

section \<open>Wire values\<close>

text \<open>The \<open>value\<close> of a member, which is what PostgreSQL and the API hold.\<close>

fun step_value :: "pipeline_step \<Rightarrow> string" where
  "step_value STORE = ''store''"
| "step_value DECOMPOSE = ''decompose''"
| "step_value OCR = ''ocr''"
| "step_value EXTRACT = ''extract''"
| "step_value EMBED = ''embed''"
| "step_value REVIEW = ''review''"

fun step_status_value :: "step_status \<Rightarrow> string" where
  "step_status_value PENDING = ''pending''"
| "step_status_value RUNNING = ''running''"
| "step_status_value SUCCEEDED = ''succeeded''"
| "step_status_value FAILED = ''failed''"
| "step_status_value SKIPPED = ''skipped''"

fun document_status_value :: "document_status \<Rightarrow> string" where
  "document_status_value RECEIVED = ''received''"
| "document_status_value PROCESSING = ''processing''"
| "document_status_value PENDING_REVIEW = ''pending_review''"
| "document_status_value VALIDATED = ''validated''"
| "document_status_value COMPLETED = ''completed''"
| "document_status_value DOC_FAILED = ''failed''"
| "document_status_value QUARANTINED = ''quarantined''"

fun field_type_value :: "field_type \<Rightarrow> string" where
  "field_type_value STRING = ''string''"
| "field_type_value NUMBER = ''number''"
| "field_type_value INTEGER = ''integer''"
| "field_type_value BOOLEAN = ''boolean''"
| "field_type_value DATE = ''date''"
| "field_type_value DATETIME = ''datetime''"
| "field_type_value ENUM = ''enum''"
| "field_type_value ARRAY = ''array''"
| "field_type_value OBJECT = ''object''"

fun extraction_source_value :: "extraction_source \<Rightarrow> string" where
  "extraction_source_value MODEL = ''model''"
| "extraction_source_value HUMAN = ''human''"

fun user_role_value :: "user_role \<Rightarrow> string" where
  "user_role_value ADMIN = ''admin''"
| "user_role_value REVIEWER = ''reviewer''"
| "user_role_value VIEWER = ''viewer''"

fun document_source_value :: "document_source \<Rightarrow> string" where
  "document_source_value UI = ''ui''"
| "document_source_value API = ''api''"

fun validation_decision_value :: "validation_decision \<Rightarrow> string" where
  "validation_decision_value APPROVED = ''approved''"
| "validation_decision_value REJECTED = ''rejected''"
| "validation_decision_value CORRECTED = ''corrected''"

fun webhook_delivery_status_value :: "webhook_delivery_status \<Rightarrow> string" where
  "webhook_delivery_status_value DELIVERY_PENDING = ''pending''"
| "webhook_delivery_status_value DELIVERED = ''delivered''"
| "webhook_delivery_status_value DELIVERY_FAILED = ''failed''"

lemma step_value_inj: "step_value a = step_value b \<longleftrightarrow> a = b"
  by (cases a; cases b) simp_all

lemma document_status_value_inj: "document_status_value a = document_status_value b \<longleftrightarrow> a = b"
  by (cases a; cases b) simp_all

section \<open>The pipeline order\<close>

definition STEP_ORDER :: "pipeline_step list" where
  "STEP_ORDER = [STORE, DECOMPOSE, OCR, EXTRACT, EMBED, REVIEW]"

definition steps_from :: "pipeline_step \<Rightarrow> py_exn + pipeline_step list" where
  "steps_from step =
     (case py_index step STEP_ORDER of
        None \<Rightarrow> Inl (ValueError (''unknown pipeline step: '' @ step_value step))
      | Some index \<Rightarrow> Inr (drop index STEP_ORDER))"

definition next_step :: "pipeline_step \<Rightarrow> py_exn + pipeline_step option" where
  "next_step step =
     (case steps_from step of
        Inl e \<Rightarrow> Inl e
      | Inr steps \<Rightarrow>
          (let remaining = drop 1 steps
           in Inr (case remaining of [] \<Rightarrow> None | s # _ \<Rightarrow> Some s)))"

text \<open>The position of a step, by which the steps are ordered.\<close>

definition step_index :: "pipeline_step \<Rightarrow> nat" where
  "step_index s = (case py_index s STEP_ORDER of None \<Rightarrow> 0 | Some i \<Rightarrow> i)"

lemma step_index_simps [simp]:
  "step_index STORE = 0" "step_index DECOMPOSE = 1" "step_index OCR = 2"
  "step_index EXTRACT = 3" "step_index EMBED = 4" "step_index REVIEW = 5"
  by (simp_all add: step_index_def STEP_ORDER_def)

lemma step_index_inj [simp]: "step_index a = step_index b \<longleftrightarrow> a = b"
  by (cases a; cases b) simp_all

instantiation pipeline_step :: linorder
begin

definition less_eq_pipeline_step :: "pipeline_step \<Rightarrow> pipeline_step \<Rightarrow> bool" where
  "less_eq_pipeline_step a b \<longleftrightarrow> step_index a \<le> step_index b"

definition less_pipeline_step :: "pipeline_step \<Rightarrow> pipeline_step \<Rightarrow> bool" where
  "less_pipeline_step a b \<longleftrightarrow> step_index a < step_index b"

instance
  by standard (auto simp: less_eq_pipeline_step_def less_pipeline_step_def)

end

lemma set_STEP_ORDER [simp]: "set STEP_ORDER = UNIV"
  by (auto simp: STEP_ORDER_def intro: pipeline_step.exhaust)

lemma distinct_STEP_ORDER [simp]: "distinct STEP_ORDER"
  by (simp add: STEP_ORDER_def)

lemma sorted_STEP_ORDER [simp]: "sorted STEP_ORDER"
  by (simp add: STEP_ORDER_def less_eq_pipeline_step_def)

lemma py_index_STEP_ORDER [simp]: "py_index s STEP_ORDER = Some (step_index s)"
  by (cases s) (simp_all add: STEP_ORDER_def)

lemma steps_from_Inr: "steps_from s = Inr (drop (step_index s) STEP_ORDER)"
  by (simp add: steps_from_def)

text \<open>The steps \<open>steps_from\<close> returns, for use in a where-clause.\<close>

definition steps_from_list :: "pipeline_step \<Rightarrow> pipeline_step list" where
  "steps_from_list s = (case steps_from s of Inl _ \<Rightarrow> [] | Inr xs \<Rightarrow> xs)"

lemma in_steps_from_list [simp]: "x \<in> set (steps_from_list s) \<longleftrightarrow> s \<le> x"
  by (cases s; cases x) (simp_all add: steps_from_list_def steps_from_Inr STEP_ORDER_def
      less_eq_pipeline_step_def)

section \<open>Properties\<close>

text \<open>
  For every step, \<open>steps_from\<close> returns without a ValueError the steps at or after it,
  each once and in pipeline order: the set that a reprocess resets.
\<close>

theorem steps_from_downstream:
  "\<exists>xs. steps_from s = Inr xs \<and> sorted xs \<and> distinct xs \<and> set xs = {x. s \<le> x}"
proof (intro exI conjI)
  show "steps_from s = Inr (drop (step_index s) STEP_ORDER)" by (rule steps_from_Inr)
  show "sorted (drop (step_index s) STEP_ORDER)" by (simp add: sorted_wrt_drop)
  show "distinct (drop (step_index s) STEP_ORDER)" by simp
  show "set (drop (step_index s) STEP_ORDER) = {x. s \<le> x}"
    using in_steps_from_list [of _ s] by (auto simp: steps_from_list_def steps_from_Inr)
qed

text \<open>Following \<open>next_step\<close> at most \<open>fuel\<close> times.\<close>

fun walk :: "nat \<Rightarrow> pipeline_step \<Rightarrow> pipeline_step list" where
  "walk 0 s = [s]"
| "walk (Suc fuel) s =
     s # (case next_step s of Inr (Some s') \<Rightarrow> walk fuel s' | _ \<Rightarrow> [])"

lemma next_step_simps [simp]:
  "next_step STORE = Inr (Some DECOMPOSE)" "next_step DECOMPOSE = Inr (Some OCR)"
  "next_step OCR = Inr (Some EXTRACT)" "next_step EXTRACT = Inr (Some EMBED)"
  "next_step EMBED = Inr (Some REVIEW)" "next_step REVIEW = Inr None"
  by (simp_all add: next_step_def steps_from_Inr STEP_ORDER_def)

lemma walk_last [simp]: "walk n REVIEW = [REVIEW]"
  by (cases n) simp_all

text \<open>
  Walking the pipeline with \<open>next_step\<close> from any step visits exactly the steps
  \<open>steps_from\<close> lists, in that order, and stops after the last one: five steps of fuel are
  enough, whatever more is given.
\<close>

theorem next_step_walks_pipeline: "steps_from s = Inr (walk (5 + extra) s)"
  by (cases s) (simp_all add: steps_from_Inr STEP_ORDER_def numeral_eq_Suc)

end
