(* ===== verification/Sql.thy ===== *)
theory Sql
  imports Errors
begin

text \<open>
  The interface to PostgreSQL. The repositories build SQL statements and pass them to a session;
  the statements are the values of \<open>stmt\<close> (where-clauses, assignments and orderings are
  functions on rows), and the server that executes them on a table is an argument \<open>ex\<close> of every
  repository operation, of type \<open>engine\<close>. A table is the list of its rows, in no particular order.

  The locale \<open>sql_engine\<close> states what PostgreSQL documents for these statements: which rows each
  selects or changes, that row order is unspecified but for ORDER BY, that a violated constraint
  raises IntegrityError and a value outside its column's range another database error, and that a
  statement that raises changes nothing. The lemmas of the repositories are proved from it alone.
  \<open>pg_execute\<close> is one engine that satisfies it, used to instantiate the interface.
\<close>

section \<open>Statements\<close>

text \<open>
  \<^item> \<open>Select p le lmt off\<close>: the rows that satisfy \<open>p\<close>, ordered by \<open>le\<close>, LIMIT and OFFSET;
  \<^item> \<open>Update p f\<close>: UPDATE .. WHERE p, RETURNING the new rows;
  \<^item> \<open>Insert new\<close>: INSERT;
  \<^item> \<open>InsertIgnore new conf\<close>: INSERT .. ON CONFLICT DO NOTHING, where \<open>conf\<close> says which rows
    agree on the index columns;
  \<^item> \<open>Upsert new conf f\<close>: INSERT .. ON CONFLICT DO UPDATE, where \<open>f old excluded\<close> is the
    updated row;
  \<^item> \<open>Delete p\<close>: DELETE .. WHERE p.
\<close>

datatype (dead 'r) stmt =
    Select "'r \<Rightarrow> bool" "'r \<Rightarrow> 'r \<Rightarrow> bool" "int option" int
  | Update "'r \<Rightarrow> bool" "'r \<Rightarrow> 'r"
  | Insert "'r list"
  | InsertIgnore "'r list" "'r \<Rightarrow> 'r \<Rightarrow> bool"
  | Upsert "'r list" "'r \<Rightarrow> 'r \<Rightarrow> bool" "'r \<Rightarrow> 'r \<Rightarrow> 'r"
  | Delete "'r \<Rightarrow> bool"

type_synonym 'r engine = "'r stmt \<Rightarrow> 'r list \<Rightarrow> (py_exn + 'r list) \<times> 'r list"

text \<open>The ranges of \<open>integer\<close> and \<open>bigint\<close>.\<close>

definition int4 :: "int \<Rightarrow> bool" where
  "int4 n \<longleftrightarrow> - (2 ^ 31) \<le> n \<and> n < 2 ^ 31"

definition int8 :: "int \<Rightarrow> bool" where
  "int8 n \<longleftrightarrow> - (2 ^ 63) \<le> n \<and> n < 2 ^ 63"

text \<open>What the statements mean on the rows of a table.\<close>

definition no_order :: "'r \<Rightarrow> 'r \<Rightarrow> bool" where
  "no_order a b = True"

definition window :: "int option \<Rightarrow> int \<Rightarrow> 'r list \<Rightarrow> 'r list" where
  "window lmt off rs =
     (case lmt of None \<Rightarrow> drop (nat off) rs | Some l \<Rightarrow> take (nat l) (drop (nat off) rs))"

definition window_ok :: "int option \<Rightarrow> int \<Rightarrow> bool" where
  "window_ok lmt off \<longleftrightarrow>
     (case lmt of None \<Rightarrow> True | Some l \<Rightarrow> 0 \<le> l \<and> int8 l) \<and> 0 \<le> off \<and> int8 off"

lemma window_page:
  obtains before after where "s = before @ window (Some l) off s @ after"
    "length (window (Some l) off s) = min (nat l) (length s - nat off)"
proof
  show "s = take (nat off) s @ window (Some l) off s @ drop (nat l) (drop (nat off) s)"
    unfolding window_def option.case by (simp only: append_take_drop_id)
  show "length (window (Some l) off s) = min (nat l) (length s - nat off)"
    by (simp add: window_def min.commute)
qed

definition apply_update :: "('r \<Rightarrow> bool) \<Rightarrow> ('r \<Rightarrow> 'r) \<Rightarrow> 'r list \<Rightarrow> 'r list" where
  "apply_update p f t = map (\<lambda>r. if p r then f r else r) t"

fun insert_ignore :: "('r \<Rightarrow> 'r \<Rightarrow> bool) \<Rightarrow> 'r list \<Rightarrow> 'r list \<Rightarrow> 'r list" where
  "insert_ignore conf [] t = t"
| "insert_ignore conf (n # new) t =
     (if list_ex (\<lambda>r. conf r n) t then insert_ignore conf new t
      else insert_ignore conf new (t @ [n]))"

definition upsert_rows ::
  "('r \<Rightarrow> 'r \<Rightarrow> bool) \<Rightarrow> ('r \<Rightarrow> 'r \<Rightarrow> 'r) \<Rightarrow> 'r list \<Rightarrow> 'r list \<Rightarrow> 'r list" where
  "upsert_rows conf f new t =
     map (\<lambda>r. case find (conf r) new of None \<Rightarrow> r | Some n \<Rightarrow> f r n) t
     @ filter (\<lambda>n. \<not> list_ex (\<lambda>r. conf r n) t) new"

text \<open>Two rows of one INSERT that agree on the index columns.\<close>

definition batch_conflict :: "('r \<Rightarrow> 'r \<Rightarrow> bool) \<Rightarrow> 'r list \<Rightarrow> bool" where
  "batch_conflict conf new \<longleftrightarrow> \<not> sorted_wrt (\<lambda>a b. \<not> conf a b) new"

section \<open>Reading results\<close>

text \<open>\<open>scalars().one_or_none()\<close>.\<close>

definition one_or_none :: "'r list \<Rightarrow> 's \<Rightarrow> (py_exn + 'r option) \<times> 's" where
  "one_or_none rs =
     (case rs of
        [] \<Rightarrow> retE None
      | [r] \<Rightarrow> retE (Some r)
      | _ \<Rightarrow> raiseE MultipleResultsFound)"

lemma one_or_none_simps [simp]:
  "one_or_none [] s = (Inr None, s)"
  "one_or_none [r] s = (Inr (Some r), s)"
  by (simp_all add: one_or_none_def)

text \<open>A query for at most one row, and an update that returns at most one.\<close>

definition fetch_one :: "'r engine \<Rightarrow> ('r \<Rightarrow> bool) \<Rightarrow> 'r list \<Rightarrow> (py_exn + 'r option) \<times> 'r list" where
  "fetch_one ex p = seqE (ex (Select p no_order None 0)) one_or_none"

definition update_one ::
  "'r engine \<Rightarrow> ('r \<Rightarrow> bool) \<Rightarrow> ('r \<Rightarrow> 'r) \<Rightarrow> 'r list \<Rightarrow> (py_exn + 'r option) \<times> 'r list" where
  "update_one ex p f = seqE (ex (Update p f)) one_or_none"

text \<open>
  \<open>session.refresh(entity)\<close>: reload the row of an entity by its primary key; it raises when the
  row is gone.
\<close>

definition refresh :: "'r engine \<Rightarrow> ('r \<Rightarrow> bool) \<Rightarrow> 'r list \<Rightarrow> (py_exn + 'r) \<times> 'r list" where
  "refresh ex p =
     seqE (fetch_one ex p) (\<lambda>r. case r of None \<Rightarrow> raiseE NoResultFound | Some x \<Rightarrow> retE x)"

text \<open>
  \<open>session.add(entity)\<close>, \<open>flush()\<close> and \<open>refresh(entity)\<close>: insert the row of a new entity and read
  it back by its primary key.
\<close>

definition insert_row :: "'r engine \<Rightarrow> ('r \<Rightarrow> bool) \<Rightarrow> 'r \<Rightarrow> 'r list \<Rightarrow> (py_exn + 'r) \<times> 'r list" where
  "insert_row ex p n = seqE (ex (Insert [n])) (\<lambda>_. refresh ex p)"

text \<open>An IntegrityError of a flush turned into a ConflictError.\<close>

definition as_conflict :: "ipa_error \<Rightarrow> ('s \<Rightarrow> (py_exn + 'a) \<times> 's) \<Rightarrow> 's \<Rightarrow> (py_exn + 'a) \<times> 's" where
  "as_conflict c m =
     catchE m (\<lambda>e. case e of IntegrityError _ \<Rightarrow> raiseE (IpaExn c) | _ \<Rightarrow> raiseE e)"

text \<open>A new entity whose unique columns may be taken: \<open>flush()\<close> under that handler, then \<open>refresh\<close>.\<close>

definition insert_unique ::
  "'r engine \<Rightarrow> ipa_error \<Rightarrow> ('r \<Rightarrow> bool) \<Rightarrow> 'r \<Rightarrow> 'r list \<Rightarrow> (py_exn + 'r) \<times> 'r list" where
  "insert_unique ex c p n = seqE (as_conflict c (ex (Insert [n]))) (\<lambda>_. refresh ex p)"

lemma as_conflict_Inr: "m s = (Inr x, s') \<Longrightarrow> as_conflict c m s = (Inr x, s')"
  by (simp add: as_conflict_def catchE_def)

lemma as_conflict_Inl:
  "m s = (Inl (IntegrityError msg), s') \<Longrightarrow> as_conflict c m s = (Inl (IpaExn c), s')"
  by (simp add: as_conflict_def catchE_def)

section \<open>Column types\<close>

text \<open>\<open>text\<close> and \<open>jsonb\<close> hold no NUL character.\<close>

definition text_ok :: "string \<Rightarrow> bool" where
  "text_ok s \<longleftrightarrow> list_all (\<lambda>c. c \<noteq> CHR 0x00) s"

fun json_ok :: "json \<Rightarrow> bool" where
  "json_ok (JStr s) \<longleftrightarrow> text_ok s"
| "json_ok (JArr xs) \<longleftrightarrow> list_all json_ok xs"
| "json_ok (JObj kvs) \<longleftrightarrow> list_all (\<lambda>kv. text_ok (fst kv) \<and> json_ok (snd kv)) kvs"
| "json_ok _ \<longleftrightarrow> True"

definition json_dict_ok :: "json_dict \<Rightarrow> bool" where
  "json_dict_ok d \<longleftrightarrow> json_ok (JObj d)"

text \<open>
  \<open>numeric(4,3)\<close>: rounded to three decimals, halves away from zero, with one digit before the
  point.
\<close>

definition numeric_4_3 :: "rat \<Rightarrow> rat" where
  "numeric_4_3 x =
     (if x < 0 then - (of_int \<lfloor>- x * 1000 + 1 / 2\<rfloor> / 1000) else of_int \<lfloor>x * 1000 + 1 / 2\<rfloor> / 1000)"

definition numeric_4_3_ok :: "rat \<Rightarrow> bool" where
  "numeric_4_3_ok x \<longleftrightarrow> \<bar>x\<bar> < 10"

text \<open>A nullable column.\<close>

definition nullable :: "('a \<Rightarrow> bool) \<Rightarrow> 'a option \<Rightarrow> bool" where
  "nullable p x \<longleftrightarrow> (case x of None \<Rightarrow> True | Some v \<Rightarrow> p v)"

lemma nullable_simps [simp]: "nullable p None" "nullable p (Some v) \<longleftrightarrow> p v"
  by (simp_all add: nullable_def)

lemma json_dict_ok_Nil [simp]: "json_dict_ok []"
  by (simp add: json_dict_ok_def)

lemma int4_small [simp]: "0 \<le> n \<Longrightarrow> n \<le> 1000 \<Longrightarrow> int4 n"
  by (simp add: int4_def)

section \<open>A table as a map from its key\<close>

definition table_map :: "('r \<Rightarrow> 'k) \<Rightarrow> 'r list \<Rightarrow> 'k \<Rightarrow> 'r option" where
  "table_map key t = map_of (map (\<lambda>r. (key r, r)) t)"

lemma table_map_Some:
  "distinct (map key t) \<Longrightarrow> table_map key t k = Some r \<longleftrightarrow> r \<in> set t \<and> key r = k"
  unfolding table_map_def
  by (subst map_of_eq_Some_iff) (auto simp: comp_def)

lemma table_map_None: "table_map key t k = None \<longleftrightarrow> k \<notin> key ` set t"
  by (auto simp: table_map_def map_of_eq_None_iff image_image)

lemma table_map_mem: "table_map key t k = Some r \<Longrightarrow> r \<in> set t \<and> key r = k"
  by (auto simp: table_map_def dest!: map_of_SomeD)

lemma table_map_NoneI: "k \<notin> key ` set t \<Longrightarrow> table_map key t k = None"
  by (simp add: table_map_None)

lemma table_map_SomeI:
  "distinct (map key t) \<Longrightarrow> r \<in> set t \<Longrightarrow> key r = k \<Longrightarrow> table_map key t k = Some r"
  by (simp add: table_map_Some)

lemma table_map_perm:
  assumes "distinct (map key t)" and "mset t' = mset t"
  shows "table_map key t' = table_map key t"
proof
  fix k
  have d: "distinct (map key t')" using assms distinct_map_mset by metis
  have s: "set t' = set t" using assms(2) by (metis set_mset_mset)
  show "table_map key t' k = table_map key t k"
  proof (cases "table_map key t k")
    case None
    then have "k \<notin> key ` set t'" using s by (simp add: table_map_None)
    with None show ?thesis by (simp add: table_map_NoneI)
  next
    case (Some r)
    then have "r \<in> set t'" "key r = k" using assms(1) s by (simp_all add: table_map_Some)
    with Some d show ?thesis by (simp add: table_map_SomeI)
  qed
qed

lemma table_map_append: "table_map key (t @ u) = table_map key u ++ table_map key t"
  by (simp add: table_map_def)

lemma table_map_snoc:
  assumes "key n \<notin> key ` set t"
  shows "table_map key (t @ [n]) = (table_map key t)(key n \<mapsto> n)"
proof -
  have "table_map key t (key n) = None" using assms by (rule table_map_NoneI)
  then show ?thesis
    by (auto simp: table_map_append table_map_def map_add_def fun_eq_iff split: option.splits)
qed

lemma table_map_update:
  assumes "\<And>r. p r \<Longrightarrow> key (f r) = key r"
  shows "table_map key (apply_update p f t) k =
    map_option (\<lambda>r. if p r then f r else r) (table_map key t k)"
  using assms by (induction t) (auto simp: table_map_def apply_update_def)

lemma map_key_update:
  assumes "\<And>r. p r \<Longrightarrow> key (f r) = key r"
  shows "map key (apply_update p f t) = map key t"
  using assms by (simp add: apply_update_def)

lemma table_map_filter:
  assumes "distinct (map key t)"
  shows "table_map key (filter p t) k =
    (case table_map key t k of None \<Rightarrow> None | Some r \<Rightarrow> if p r then Some r else None)"
  using assms
  by (induction t) (auto simp: table_map_def map_of_eq_None_iff image_image split: option.splits)

lemma find_key:
  assumes "distinct (map key t)" and "\<And>r. p r \<Longrightarrow> key r = k"
  shows "filter p t = (case table_map key t k of None \<Rightarrow> [] | Some r \<Rightarrow> if p r then [r] else [])"
proof -
  have eq: "filter p t = filter p (filter (\<lambda>r. key r = k) t)"
    using assms(2) by (auto intro: filter_cong)
  show ?thesis
  proof (rule filter_key_cases [OF assms(1), of k])
    assume "filter (\<lambda>r. key r = k) t = []" "\<forall>y \<in> set t. key y \<noteq> k"
    moreover from this(2) have "table_map key t k = None" by (auto intro: table_map_NoneI)
    ultimately show ?thesis using eq by simp
  next
    fix x assume x: "x \<in> set t" "key x = k" "filter (\<lambda>r. key r = k) t = [x]"
    then have "table_map key t k = Some x" using assms(1) by (simp add: table_map_SomeI)
    with eq x show ?thesis by auto
  qed
qed

lemma find_key_eq:
  assumes "distinct (map key t)"
  shows "filter (\<lambda>r. key r = k) t = (case table_map key t k of None \<Rightarrow> [] | Some r \<Rightarrow> [r])"
proof (cases "table_map key t k")
  case None
  then show ?thesis using find_key [OF assms, of "\<lambda>r. key r = k" k] by simp
next
  case (Some r)
  then have "key r = k" by (simp add: table_map_Some [OF assms])
  with Some show ?thesis using find_key [OF assms, of "\<lambda>r. key r = k" k] by simp
qed

text \<open>
  What an UPDATE guarded by \<open>q\<close> on the row of one key does to the map: the row is replaced and
  returned when it is there and satisfies the guard, and nothing happens otherwise.
\<close>

definition cas ::
  "('r \<Rightarrow> bool) \<Rightarrow> ('r \<Rightarrow> 'r) \<Rightarrow> 'k \<Rightarrow> ('k \<Rightarrow> 'r option) \<Rightarrow> 'r option \<times> ('k \<Rightarrow> 'r option)" where
  "cas q f k m =
     (case m k of
        None \<Rightarrow> (None, m)
      | Some r \<Rightarrow> if q r then (Some (f r), m(k \<mapsto> f r)) else (None, m))"

lemma insert_ignore_key:
  assumes "distinct (map key new)"
  shows "insert_ignore (\<lambda>a b. key a = key b) new t = t @ filter (\<lambda>n. key n \<notin> key ` set t) new"
  using assms
proof (induction new arbitrary: t)
  case Nil
  then show ?case by simp
next
  case (Cons n new)
  then have n: "key n \<notin> key ` set new" by simp
  show ?case
  proof (cases "key n \<in> key ` set t")
    case True
    then have "list_ex (\<lambda>r. key r = key n) t" by (auto simp: list_ex_iff)
    with Cons True show ?thesis by simp
  next
    case False
    then have "\<not> list_ex (\<lambda>r. key r = key n) t" unfolding list_ex_iff by (metis imageI)
    moreover have "\<forall>x \<in> set new. key x \<noteq> key n" using n by (metis imageI)
    then have "filter (\<lambda>x. key x \<notin> insert (key n) (key ` set t)) new
        = filter (\<lambda>x. key x \<notin> key ` set t) new"
      by (intro filter_cong) auto
    ultimately show ?thesis using Cons False by simp
  qed
qed

text \<open>
  An upsert keyed on \<open>key\<close>: the keys of the new rows are distinct, each new row replaces the row
  with its key (through \<open>f\<close>) or is added, and the other rows stay.
\<close>

lemma find_same_key:
  assumes "distinct (map key new)"
  shows "find (\<lambda>n. key r = key n) new = table_map key new (key r)"
proof (cases "table_map key new (key r)")
  case None
  then have "key r \<notin> key ` set new" by (simp add: table_map_None)
  then show ?thesis using None by (auto simp: find_None_iff)
next
  case (Some n)
  then have n: "n \<in> set new" "key n = key r" using assms by (simp_all add: table_map_Some)
  then obtain m where m: "find (\<lambda>n. key r = key n) new = Some m"
    by (cases "find (\<lambda>n. key r = key n) new") (force simp: find_None_iff)+
  then have "m \<in> set new" "key m = key r" by (auto simp: find_Some_iff)
  then have "m = n" using n assms by (metis distinct_key_inj)
  with m Some show ?thesis by simp
qed

lemma upsert_rows_key:
  fixes key :: "'r \<Rightarrow> 'k"
  assumes n: "distinct (map key new)" and t: "distinct (map key t)"
    and f: "\<And>r n. key (f r n) = key r"
  defines "u \<equiv> upsert_rows (\<lambda>a b. key a = key b) f new t"
  shows "distinct (map key u)"
    and "table_map key u k = (case table_map key new k of
           None \<Rightarrow> table_map key t k
         | Some n \<Rightarrow> Some (case table_map key t k of None \<Rightarrow> n | Some r \<Rightarrow> f r n))"
proof -
  let ?g = "\<lambda>r. case table_map key new (key r) of None \<Rightarrow> r | Some n \<Rightarrow> f r n"
  let ?new = "filter (\<lambda>n. key n \<notin> key ` set t) new"
  have g: "key (?g r) = key r" for r by (simp add: f split: option.splits)
  have "filter (\<lambda>n. \<not> list_ex (\<lambda>r. key r = key n) t) new = ?new"
    by (intro filter_cong) (auto simp: list_ex_iff image_iff)
  then have u: "u = map ?g t @ ?new"
    unfolding u_def upsert_rows_def by (simp add: find_same_key [OF n])
  have keys: "map key u = map key t @ map key ?new"
    by (simp add: u g comp_def)
  have "set (map key t) \<inter> set (map key ?new) = {}" by (auto 0 3 intro: rev_image_eqI)
  moreover have "distinct (map key ?new)" using n by (simp add: distinct_map_filter)
  ultimately show "distinct (map key u)" using t by (simp only: keys distinct_append simp_thms)
  have apply_g: "table_map key (map ?g t) k = map_option ?g (table_map key t k)"
    using table_map_update [of "\<lambda>_. True" key ?g t k] g by (simp add: apply_update_def)
  have part: "table_map key ?new k =
      (case table_map key new k of None \<Rightarrow> None | Some n \<Rightarrow> if key n \<notin> key ` set t then Some n else None)"
    by (rule table_map_filter [OF n])
  have at: "key r = k" if "table_map key new k = Some r" for r
    using that n by (simp add: table_map_Some)
  show "table_map key u k = (case table_map key new k of
           None \<Rightarrow> table_map key t k
         | Some n \<Rightarrow> Some (case table_map key t k of None \<Rightarrow> n | Some r \<Rightarrow> f r n))"
  proof (cases "table_map key t k")
    case None
    then have "k \<notin> key ` set t" by (simp add: table_map_None)
    with None show ?thesis
      by (auto simp: u table_map_append map_add_def apply_g part dest: at split: option.splits)
  next
    case (Some r)
    then have r: "r \<in> set t" "key r = k" using t by (simp_all add: table_map_Some)
    then have "k \<in> key ` set t" by auto
    then have "table_map key ?new k = None"
      using at by (cases "table_map key new k") (simp_all add: part)
    with Some r show ?thesis
      by (auto simp: u table_map_append map_add_def apply_g split: option.splits)
  qed
qed

section \<open>What the engine promises\<close>

text \<open>
  \<open>fits r\<close> says that the values of the row lie in the ranges of their columns, \<open>ok t\<close> that the
  rows satisfy the table's constraints (keys, references, checks).
\<close>

locale sql_engine =
  fixes execute :: "'r engine"
    and fits :: "'r \<Rightarrow> bool"
    and ok :: "'r list \<Rightarrow> bool"
  assumes ok_perm: "mset t' = mset t \<Longrightarrow> ok t \<Longrightarrow> ok t'"
    and select: "transp le \<Longrightarrow> (\<And>a b. le a b \<or> le b a) \<Longrightarrow> window_ok lmt off \<Longrightarrow>
      \<exists>s. execute (Select p le lmt off) t = (Inr (window lmt off s), t)
          \<and> mset s = mset (filter p t) \<and> sorted_wrt le s"
    and select_window: "\<not> window_ok lmt off \<Longrightarrow>
      \<exists>m. execute (Select p le lmt off) t = (Inl (DBAPIError m), t)"
    and update: "ok t \<Longrightarrow> list_all fits (map f (filter p t)) \<Longrightarrow> ok (apply_update p f t) \<Longrightarrow>
      \<exists>rs t'. execute (Update p f) t = (Inr rs, t')
          \<and> mset rs = mset (map f (filter p t)) \<and> mset t' = mset (apply_update p f t)"
    and update_range: "ok t \<Longrightarrow> \<not> list_all fits (map f (filter p t)) \<Longrightarrow>
      \<exists>m. execute (Update p f) t = (Inl (DBAPIError m), t)"
    and update_violation: "ok t \<Longrightarrow> list_all fits (map f (filter p t)) \<Longrightarrow>
      \<not> ok (apply_update p f t) \<Longrightarrow> \<exists>m. execute (Update p f) t = (Inl (IntegrityError m), t)"
    and insert: "ok t \<Longrightarrow> list_all fits new \<Longrightarrow> ok (t @ new) \<Longrightarrow>
      \<exists>t'. execute (Insert new) t = (Inr [], t') \<and> mset t' = mset (t @ new)"
    and insert_range: "ok t \<Longrightarrow> \<not> list_all fits new \<Longrightarrow>
      \<exists>m. execute (Insert new) t = (Inl (DBAPIError m), t)"
    and insert_violation: "ok t \<Longrightarrow> list_all fits new \<Longrightarrow> \<not> ok (t @ new) \<Longrightarrow>
      \<exists>m. execute (Insert new) t = (Inl (IntegrityError m), t)"
    and insert_ignore: "ok t \<Longrightarrow> list_all fits new \<Longrightarrow> ok (insert_ignore conf new t) \<Longrightarrow>
      \<exists>t'. execute (InsertIgnore new conf) t = (Inr [], t')
          \<and> mset t' = mset (insert_ignore conf new t)"
    and insert_ignore_fails: "ok t \<Longrightarrow> \<not> (list_all fits new \<and> ok (insert_ignore conf new t)) \<Longrightarrow>
      \<exists>e. execute (InsertIgnore new conf) t = (Inl e, t)"
    and upsert: "ok t \<Longrightarrow> list_all fits (upsert_rows conf g new t) \<Longrightarrow> \<not> batch_conflict conf new \<Longrightarrow>
      ok (upsert_rows conf g new t) \<Longrightarrow>
      \<exists>t'. execute (Upsert new conf g) t = (Inr [], t') \<and> mset t' = mset (upsert_rows conf g new t)"
    and upsert_batch: "ok t \<Longrightarrow> batch_conflict conf new \<Longrightarrow>
      \<exists>m. execute (Upsert new conf g) t = (Inl (DBAPIError m), t)"
    and upsert_fails: "ok t \<Longrightarrow> \<not> batch_conflict conf new \<Longrightarrow>
      \<not> (list_all fits (upsert_rows conf g new t) \<and> ok (upsert_rows conf g new t)) \<Longrightarrow>
      \<exists>e. execute (Upsert new conf g) t = (Inl e, t)"
    and delete: "ok t \<Longrightarrow> ok (filter (\<lambda>r. \<not> p r) t) \<Longrightarrow>
      \<exists>t'. execute (Delete p) t = (Inr [], t') \<and> mset t' = mset (filter (\<lambda>r. \<not> p r) t)"
begin

lemma select_all: "\<exists>rs. execute (Select p no_order None 0) t = (Inr rs, t) \<and> mset rs = mset (filter p t)"
proof -
  have "\<exists>s. execute (Select p no_order None 0) t = (Inr (window None 0 s), t)
          \<and> mset s = mset (filter p t) \<and> sorted_wrt no_order s"
    by (rule select) (simp_all add: no_order_def transp_def window_ok_def int8_def)
  then show ?thesis by (auto simp: window_def)
qed

text \<open>A query that selects at most one row, and one whose condition determines the key.\<close>

lemma fetch_one_unique:
  assumes "filter p t = (case x of None \<Rightarrow> [] | Some r \<Rightarrow> [r])"
  shows "fetch_one execute p t = (Inr x, t)"
proof -
  obtain rs where "execute (Select p no_order None 0) t = (Inr rs, t)"
    and "mset rs = mset (filter p t)"
    using select_all by blast
  then show ?thesis
    using assms by (cases x) (simp_all add: fetch_one_def seqE_def mset_single_iff_right)
qed

lemma fetch_one_key:
  assumes "distinct (map key t)" and "\<And>r. p r \<Longrightarrow> key r = k"
  shows "fetch_one execute p t =
    (Inr (case table_map key t k of None \<Rightarrow> None | Some r \<Rightarrow> if p r then Some r else None), t)"
proof -
  obtain rs where "execute (Select p no_order None 0) t = (Inr rs, t)"
    and "mset rs = mset (filter p t)"
    using select_all by blast
  then show ?thesis
    using find_key [OF assms]
    by (auto simp: fetch_one_def seqE_def mset_single_iff_right split: option.splits)
qed

text \<open>An update whose condition determines the key.\<close>

lemma update_one_key:
  assumes "ok t" and d: "distinct (map key t)" and k: "\<And>r. p r \<Longrightarrow> key r = k"
    and "\<And>r. table_map key t k = Some r \<Longrightarrow> p r \<Longrightarrow> fits (f r)"
    and "ok (apply_update p f t)"
  shows "\<exists>t'. update_one execute p f t =
      (Inr (case table_map key t k of None \<Rightarrow> None | Some r \<Rightarrow> if p r then Some (f r) else None), t')
    \<and> mset t' = mset (apply_update p f t)"
proof -
  note sel = find_key [OF d k]
  have "list_all fits (map f (filter p t))"
    using sel assms(4) by (auto split: option.splits)
  then obtain rs t' where ex: "execute (Update p f) t = (Inr rs, t')"
    and rs: "mset rs = mset (map f (filter p t))" and t': "mset t' = mset (apply_update p f t)"
    using update [OF assms(1) _ assms(5)] by blast
  have "one_or_none rs t' =
      (Inr (case table_map key t k of None \<Rightarrow> None | Some r \<Rightarrow> if p r then Some (f r) else None), t')"
    using rs sel by (auto simp: mset_single_iff_right split: option.splits)
  with ex t' show ?thesis by (auto simp: update_one_def seqE_def)
qed

lemma update_one_cas:
  assumes "ok t" and d: "distinct (map key t)"
    and keep: "\<And>r. key r = k \<Longrightarrow> q r \<Longrightarrow> key (f r) = k"
    and "\<And>r. table_map key t k = Some r \<Longrightarrow> q r \<Longrightarrow> fits (f r)"
    and ok': "ok (apply_update (\<lambda>r. key r = k \<and> q r) f t)"
  shows "\<exists>t'. update_one execute (\<lambda>r. key r = k \<and> q r) f t =
      (Inr (fst (cas q f k (table_map key t))), t')
    \<and> table_map key t' = snd (cas q f k (table_map key t)) \<and> ok t'
    \<and> mset t' = mset (apply_update (\<lambda>r. key r = k \<and> q r) f t)"
proof -
  let ?p = "\<lambda>r. key r = k \<and> q r"
  have at_key: "key r = j" if "table_map key t j = Some r" for r j
    using that d by (simp add: table_map_Some)
  obtain t' where
    res: "update_one execute ?p f t =
      (Inr (case table_map key t k of None \<Rightarrow> None | Some r \<Rightarrow> if ?p r then Some (f r) else None), t')"
    and t': "mset t' = mset (apply_update ?p f t)"
    using update_one_key [OF assms(1) d, of ?p k f] assms(4) ok' by blast
  have "distinct (map key (apply_update ?p f t))"
    using d keep by (subst map_key_update) auto
  then have "table_map key t' = table_map key (apply_update ?p f t)"
    using t' by (rule table_map_perm)
  also have "\<dots> = snd (cas q f k (table_map key t))"
  proof
    fix k'
    have "table_map key (apply_update ?p f t) k' =
        map_option (\<lambda>r. if ?p r then f r else r) (table_map key t k')"
      using keep by (intro table_map_update) auto
    then show "table_map key (apply_update ?p f t) k' = snd (cas q f k (table_map key t)) k'"
      by (cases "table_map key t k'"; cases "k' = k")
         (auto simp: cas_def dest: at_key split: option.splits)
  qed
  finally have m: "table_map key t' = snd (cas q f k (table_map key t))" .
  have "ok t'" using t' ok' by (rule ok_perm)
  with res m t' show ?thesis
    by (auto simp: cas_def dest: at_key split: option.splits)
qed

lemma refresh_key:
  assumes "distinct (map key t)" and "\<And>r. p r \<Longrightarrow> key r = k"
    and "table_map key t k = Some r" and "p r"
  shows "refresh execute p t = (Inr r, t)"
  using fetch_one_key [OF assms(1,2)] assms(3,4) by (simp add: refresh_def seqE_def)

text \<open>The same update with no assumption on the new row: it fails and changes nothing, or succeeds.\<close>

lemma update_one_cases:
  assumes "ok t" and d: "distinct (map key t)"
    and keep: "\<And>r. key r = k \<Longrightarrow> q r \<Longrightarrow> key (f r) = k"
  obtains (fails) e where "update_one execute (\<lambda>r. key r = k \<and> q r) f t = (Inl e, t)"
  | (succeeds) t' where "update_one execute (\<lambda>r. key r = k \<and> q r) f t =
        (Inr (fst (cas q f k (table_map key t))), t')"
      "table_map key t' = snd (cas q f k (table_map key t))" "ok t'"
      "mset t' = mset (apply_update (\<lambda>r. key r = k \<and> q r) f t)"
      "list_all fits (map f (filter (\<lambda>r. key r = k \<and> q r) t))"
proof -
  let ?p = "\<lambda>r. key r = k \<and> q r"
  let ?fit = "list_all fits (map f (filter ?p t))"
  have err: thesis if "\<exists>e. execute (Update ?p f) t = (Inl e, t)"
    using that fails by (auto simp: update_one_def seqE_def)
  show thesis
  proof (cases "?fit \<and> ok (apply_update ?p f t)")
    case True
    have fit: "fits (f r)" if "table_map key t k = Some r" "q r" for r
      using that True d by (auto simp: list_all_iff table_map_Some)
    obtain t' where "update_one execute ?p f t = (Inr (fst (cas q f k (table_map key t))), t')"
      and "table_map key t' = snd (cas q f k (table_map key t))" "ok t'"
      and "mset t' = mset (apply_update ?p f t)"
      using update_one_cas [of t key k q f, OF assms(1) d keep fit conjunct2 [OF True]] by blast
    then show thesis using conjunct1 [OF True] by (rule succeeds)
  next
    case False
    then show thesis
      using update_range [OF assms(1), of f ?p] update_violation [OF assms(1), of f ?p] err by blast
  qed
qed

text \<open>An UPDATE of the row of one key whose result is not read.\<close>

lemma update_key_cases:
  assumes "ok t" and d: "distinct (map key t)" and keep: "\<And>r. key r = k \<Longrightarrow> key (f r) = k"
  obtains (fails) e where "execute (Update (\<lambda>r. key r = k) f) t = (Inl e, t)"
      "\<not> ((\<forall>r. table_map key t k = Some r \<longrightarrow> fits (f r)) \<and> ok (apply_update (\<lambda>r. key r = k) f t))"
  | (succeeds) rs t' where "execute (Update (\<lambda>r. key r = k) f) t = (Inr rs, t')"
      "table_map key t' = snd (cas (\<lambda>_. True) f k (table_map key t))" "ok t'"
      "mset t' = mset (apply_update (\<lambda>r. key r = k) f t)"
      "(\<forall>r. table_map key t k = Some r \<longrightarrow> fits (f r)) \<and> ok (apply_update (\<lambda>r. key r = k) f t)"
proof -
  let ?p = "\<lambda>r. key r = k"
  have fit: "list_all fits (map f (filter ?p t)) \<longleftrightarrow> (\<forall>r. table_map key t k = Some r \<longrightarrow> fits (f r))"
    using d by (auto simp: list_all_iff table_map_Some)
  show thesis
  proof (cases "list_all fits (map f (filter ?p t)) \<and> ok (apply_update ?p f t)")
    case False
    then show thesis
      using update_range [OF assms(1), of f ?p] update_violation [OF assms(1), of f ?p] fails
      unfolding fit by blast
  next
    case True
    then obtain rs t' where ex: "execute (Update ?p f) t = (Inr rs, t')"
      and t': "mset t' = mset (apply_update ?p f t)"
      using update [OF assms(1), of f ?p] by blast
    have "distinct (map key (apply_update ?p f t))"
      using d keep by (subst map_key_update) auto
    then have "table_map key t' = table_map key (apply_update ?p f t)"
      using t' by (rule table_map_perm)
    moreover have "table_map key (apply_update ?p f t) j = snd (cas (\<lambda>_. True) f k (table_map key t)) j"
      for j
    proof -
      have "table_map key (apply_update ?p f t) j =
          map_option (\<lambda>r. if ?p r then f r else r) (table_map key t j)"
        using keep by (intro table_map_update) auto
      moreover have "key r = j" if "table_map key t j = Some r" for r
        using that d by (simp add: table_map_Some)
      ultimately show ?thesis
        by (cases "table_map key t j"; cases "j = k") (auto simp: cas_def split: option.splits)
    qed
    moreover have "ok t'" using ok_perm [OF t'] True by blast
    ultimately show thesis using succeeds [OF ex] t' True unfolding fit by auto
  qed
qed

text \<open>A SELECT whose ordering is by a key.\<close>

lemma select_by:
  fixes by_key :: "'r \<Rightarrow> 'k :: linorder"
  assumes "window_ok lmt off"
  shows "\<exists>s. execute (Select p (\<lambda>a b. by_key a \<le> by_key b) lmt off) t = (Inr (window lmt off s), t)
    \<and> mset s = mset (filter p t) \<and> sorted_wrt (\<lambda>a b. by_key a \<le> by_key b) s"
  by (rule select) (use assms in \<open>auto simp: transp_def\<close>)

lemma select_by_desc:
  fixes by_key :: "'r \<Rightarrow> 'k :: linorder"
  assumes "window_ok lmt off"
  shows "\<exists>s. execute (Select p (\<lambda>a b. by_key b \<le> by_key a) lmt off) t = (Inr (window lmt off s), t)
    \<and> mset s = mset (filter p t) \<and> sorted_wrt (\<lambda>a b. by_key b \<le> by_key a) s"
  by (rule select) (use assms in \<open>auto simp: transp_def\<close>)

lemma insert_row_cases:
  assumes "ok t" and d: "ok (t @ [n]) \<Longrightarrow> distinct (map key (t @ [n]))"
    and p: "\<And>r. p r \<longleftrightarrow> key r = key n"
  obtains (inserted) t' where "fits n" "ok (t @ [n])" "insert_row execute p n t = (Inr n, t')"
      "mset t' = mset (t @ [n])" "ok t'"
  | (range) m where "\<not> fits n" "insert_row execute p n t = (Inl (DBAPIError m), t)"
  | (violation) m where "fits n" "\<not> ok (t @ [n])"
      "insert_row execute p n t = (Inl (IntegrityError m), t)"
proof (cases "fits n")
  case False
  then show thesis
    using insert_range [OF assms(1), of "[n]"] range by (auto simp: insert_row_def seqE_def)
next
  case fit: True
  show thesis
  proof (cases "ok (t @ [n])")
    case False
    then show thesis
      using insert_violation [OF assms(1), of "[n]"] fit violation
      by (auto simp: insert_row_def seqE_def)
  next
    case True
    with fit obtain t' where ex: "execute (Insert [n]) t = (Inr [], t')"
      and t': "mset t' = mset (t @ [n])"
      using insert [OF assms(1), of "[n]"] by auto
    have dist: "distinct (map key t')"
      using d [OF True] distinct_map_mset [OF t'] by blast
    have "n \<in> set t'" using t' by (metis in_set_conv_decomp set_mset_mset)
    then have "refresh execute p t' = (Inr n, t')"
      using refresh_key [OF dist, of p "key n" n] p by (simp add: dist table_map_SomeI)
    then show thesis
      using inserted [OF fit True, of t'] ex t' ok_perm [OF t' True]
      by (simp add: insert_row_def seqE_def)
  qed
qed

text \<open>The same with a handler for the violation.\<close>

lemma insert_unique_cases:
  assumes "ok t" and d: "ok (t @ [n]) \<Longrightarrow> distinct (map key (t @ [n]))"
    and p: "\<And>r. p r \<longleftrightarrow> key r = key n"
  obtains (inserted) t' where "fits n" "ok (t @ [n])" "insert_unique execute c p n t = (Inr n, t')"
      "mset t' = mset (t @ [n])" "ok t'"
  | (range) m where "\<not> fits n" "insert_unique execute c p n t = (Inl (DBAPIError m), t)"
  | (conflict) "fits n" "\<not> ok (t @ [n])" "insert_unique execute c p n t = (Inl (IpaExn c), t)"
proof (cases "execute (Insert [n]) t")
  case (Pair res t1)
  show thesis
  proof (rule insert_row_cases [of t n key p, OF assms])
    fix t' assume "fits n" "ok (t @ [n])" and row: "insert_row execute p n t = (Inr n, t')"
      and "mset t' = mset (t @ [n])" "ok t'"
    moreover have "insert_unique execute c p n t = (Inr n, t')"
      using row Pair by (cases res) (auto simp: insert_row_def insert_unique_def seqE_def as_conflict_Inr)
    ultimately show thesis by (intro inserted)
  next
    fix m assume "\<not> fits n"
    then show thesis
      using insert_range [OF assms(1), of "[n]"] range
      by (auto simp: insert_unique_def as_conflict_def catchE_def seqE_def)
  next
    fix m assume "fits n" "\<not> ok (t @ [n])"
    then show thesis
      using insert_violation [OF assms(1), of "[n]"] conflict
      by (auto simp: insert_unique_def seqE_def as_conflict_Inl)
  qed
qed

end

section \<open>An engine\<close>

fun insort_by :: "('r \<Rightarrow> 'r \<Rightarrow> bool) \<Rightarrow> 'r \<Rightarrow> 'r list \<Rightarrow> 'r list" where
  "insort_by le x [] = [x]"
| "insort_by le x (y # ys) = (if le x y then x # y # ys else y # insort_by le x ys)"

fun sort_by :: "('r \<Rightarrow> 'r \<Rightarrow> bool) \<Rightarrow> 'r list \<Rightarrow> 'r list" where
  "sort_by le [] = []"
| "sort_by le (x # xs) = insort_by le x (sort_by le xs)"

lemma mset_insort_by [simp]: "mset (insort_by le x ys) = add_mset x (mset ys)"
  by (induction ys) auto

lemma mset_sort_by [simp]: "mset (sort_by le xs) = mset xs"
  by (induction xs) auto

lemma set_insort_by [simp]: "set (insort_by le x ys) = insert x (set ys)"
  by (induction ys) auto

lemma sorted_insort_by:
  assumes "transp le" and "\<And>a b. le a b \<or> le b a"
  shows "sorted_wrt le ys \<Longrightarrow> sorted_wrt le (insort_by le x ys)"
proof (induction ys)
  case Nil
  then show ?case by simp
next
  case (Cons y ys)
  then show ?case using assms by (auto dest: transpD)
qed

lemma sorted_sort_by:
  assumes "transp le" and "\<And>a b. le a b \<or> le b a"
  shows "sorted_wrt le (sort_by le xs)"
  by (induction xs) (simp_all add: sorted_insort_by [OF assms])

definition range_error :: py_exn where
  "range_error = DBAPIError ''value out of range''"

definition violation :: py_exn where
  "violation = IntegrityError ''constraint violated''"

text \<open>Replace the rows of \<open>t\<close> by \<open>t'\<close>, checking the changed rows and the constraints.\<close>

definition commit_rows ::
  "('r \<Rightarrow> bool) \<Rightarrow> ('r list \<Rightarrow> bool) \<Rightarrow> 'r list \<Rightarrow> 'r list \<Rightarrow> 'r list \<Rightarrow> 'r list
     \<Rightarrow> (py_exn + 'r list) \<times> 'r list" where
  "commit_rows fits ok t changed ret t' =
     (if \<not> list_all fits changed then (Inl range_error, t)
      else if \<not> ok t' then (Inl violation, t)
      else (Inr ret, t'))"

fun pg_execute :: "('r \<Rightarrow> bool) \<Rightarrow> ('r list \<Rightarrow> bool) \<Rightarrow> 'r engine" where
  "pg_execute fits ok (Select p le lmt off) t =
     (if window_ok lmt off then (Inr (window lmt off (sort_by le (filter p t))), t)
      else (Inl range_error, t))"
| "pg_execute fits ok (Update p f) t =
     (let changed = map f (filter p t) in commit_rows fits ok t changed changed (apply_update p f t))"
| "pg_execute fits ok (Insert new) t = commit_rows fits ok t new [] (t @ new)"
| "pg_execute fits ok (InsertIgnore new conf) t =
     commit_rows fits ok t new [] (insert_ignore conf new t)"
| "pg_execute fits ok (Upsert new conf f) t =
     (if batch_conflict conf new then (Inl range_error, t)
      else let t' = upsert_rows conf f new t in commit_rows fits ok t t' [] t')"
| "pg_execute fits ok (Delete p) t =
     (let t' = filter (\<lambda>r. \<not> p r) t in commit_rows fits ok t [] [] t')"

lemma pg_execute_sql_engine:
  assumes "\<And>t t'. mset t' = mset t \<Longrightarrow> ok t \<Longrightarrow> ok t'"
  shows "sql_engine (pg_execute fits ok) fits ok"
proof
  show "ok t'" if "mset t' = mset t" "ok t" for t t'
    using assms that .
  show "\<exists>s. pg_execute fits ok (Select p le lmt off) t = (Inr (window lmt off s), t)
          \<and> mset s = mset (filter p t) \<and> sorted_wrt le s"
    if "transp le" "\<And>a b. le a b \<or> le b a" "window_ok lmt off" for le lmt off p t
    using that by (intro exI [of _ "sort_by le (filter p t)"]) (simp add: sorted_sort_by)
qed (auto simp: commit_rows_def range_error_def violation_def Let_def)

end
