(* ===== verification/Steps.thy ===== *)
theory Steps
  imports Sql Enums
begin

text \<open>
  Models \<open>src/ipa/db/repositories/step.py\<close> and the \<open>document_steps\<close> table: the rows that record
  the execution of each pipeline step of a document, the operations that move them through
  \<open>pending\<close>, \<open>running\<close>, \<open>succeeded\<close> and \<open>failed\<close>, and what every sequence of these operations,
  issued by any number of workers, keeps true of the table.

  A row stands for both the entity and the DTO read from it, which have the same fields.
  \<open>now()\<close> and \<open>uuid4\<close> are the arguments \<open>now\<close> and \<open>new_id\<close>.
\<close>

section \<open>The table\<close>

record step_row =
  ds_id :: uuid
  ds_document_id :: uuid
  ds_step :: pipeline_step
  ds_status :: step_status
  ds_attempt :: int
  ds_max_attempts :: int
  ds_started_at :: "timestamp option"
  ds_finished_at :: "timestamp option"
  ds_duration_ms :: "int option"
  ds_error_code :: "string option"
  ds_error_detail :: "string option"
  ds_output_ref :: "string option"
  ds_metrics :: json_dict
  ds_created_at :: timestamp
  ds_updated_at :: timestamp

text \<open>The columns of \<open>uq_document_steps_document_id_step\<close>.\<close>

definition step_key :: "step_row \<Rightarrow> uuid \<times> pipeline_step" where
  "step_key r = (ds_document_id r, ds_step r)"

definition step_fits :: "step_row \<Rightarrow> bool" where
  "step_fits r \<longleftrightarrow>
     int4 (ds_attempt r) \<and> int4 (ds_max_attempts r) \<and> nullable int4 (ds_duration_ms r)
     \<and> nullable text_ok (ds_error_code r) \<and> nullable text_ok (ds_error_detail r)
     \<and> nullable text_ok (ds_output_ref r) \<and> json_dict_ok (ds_metrics r)"

text \<open>The constraints: the primary key, the unique pair, and the reference to a document of \<open>docs\<close>.\<close>

definition steps_ok :: "uuid set \<Rightarrow> step_row list \<Rightarrow> bool" where
  "steps_ok docs t \<longleftrightarrow>
     distinct (map ds_id t) \<and> distinct (map step_key t) \<and> (\<forall>r \<in> set t. ds_document_id r \<in> docs)"

text \<open>A row as INSERT leaves it: the values given, and the column defaults.\<close>

definition new_step_row :: "uuid \<Rightarrow> timestamp \<Rightarrow> uuid \<Rightarrow> pipeline_step \<Rightarrow> int \<Rightarrow> step_row" where
  "new_step_row i now document_id step max_attempts =
     \<lparr>ds_id = i, ds_document_id = document_id, ds_step = step, ds_status = PENDING,
      ds_attempt = 0, ds_max_attempts = max_attempts, ds_started_at = None,
      ds_finished_at = None, ds_duration_ms = None, ds_error_code = None,
      ds_error_detail = None, ds_output_ref = None, ds_metrics = [],
      ds_created_at = now, ds_updated_at = now\<rparr>"

section \<open>The repository\<close>

text \<open>\<open>_in_step_order\<close>.\<close>

definition in_step_order :: "step_row list \<Rightarrow> step_row list" where
  "in_step_order rows = sort_key (\<lambda>row. step_index (ds_step row)) rows"

definition list_steps ::
  "step_row engine \<Rightarrow> uuid \<Rightarrow> step_row list \<Rightarrow> (py_exn + step_row list) \<times> step_row list" where
  "list_steps ex document_id =
     seqE (ex (Select (\<lambda>r. ds_document_id r = document_id) no_order None 0))
       (\<lambda>rows. retE (in_step_order rows))"

definition ensure_steps ::
  "step_row engine \<Rightarrow> (pipeline_step \<Rightarrow> uuid) \<Rightarrow> timestamp \<Rightarrow> uuid \<Rightarrow> int
     \<Rightarrow> step_row list \<Rightarrow> (py_exn + step_row list) \<times> step_row list" where
  "ensure_steps ex new_id now document_id max_attempts =
     (let values = map (\<lambda>step. new_step_row (new_id step) now document_id step max_attempts) STEP_ORDER
      in seqE (ex (InsertIgnore values (\<lambda>a b. step_key a = step_key b)))
           (\<lambda>_. list_steps ex document_id))"

definition get_step ::
  "step_row engine \<Rightarrow> uuid \<Rightarrow> pipeline_step
     \<Rightarrow> step_row list \<Rightarrow> (py_exn + step_row option) \<times> step_row list" where
  "get_step ex document_id step = fetch_one ex (\<lambda>r. ds_document_id r = document_id \<and> ds_step r = step)"

text \<open>The assignments of \<open>claim\<close>, \<open>mark_succeeded\<close>, \<open>mark_failed\<close> and \<open>reset_from\<close>.\<close>

definition claimed :: "timestamp \<Rightarrow> step_row \<Rightarrow> step_row" where
  "claimed now r =
     r\<lparr>ds_status := RUNNING, ds_attempt := ds_attempt r + 1, ds_started_at := Some now,
       ds_finished_at := None, ds_duration_ms := None, ds_error_code := None,
       ds_error_detail := None, ds_updated_at := now\<rparr>"

definition claim ::
  "step_row engine \<Rightarrow> timestamp \<Rightarrow> uuid \<Rightarrow> pipeline_step
     \<Rightarrow> step_row list \<Rightarrow> (py_exn + step_row option) \<times> step_row list" where
  "claim ex now document_id step =
     update_one ex
       (\<lambda>r. ds_document_id r = document_id \<and> ds_step r = step \<and> ds_status r = PENDING)
       (claimed now)"

text \<open>
  \<open>floor(extract(epoch from now() - started_at) * 1000)\<close>, in whole milliseconds; the
  difference with a null \<open>started_at\<close> is null.
\<close>

definition elapsed_ms :: "timestamp \<Rightarrow> timestamp option \<Rightarrow> int option" where
  "elapsed_ms now started = map_option (\<lambda>s. (now - s) div 1000) started"

definition succeeded ::
  "timestamp \<Rightarrow> string option \<Rightarrow> int option \<Rightarrow> json_dict option \<Rightarrow> step_row \<Rightarrow> step_row" where
  "succeeded now output_ref duration_ms metrics r =
     r\<lparr>ds_status := SUCCEEDED, ds_finished_at := Some now,
       ds_duration_ms := (case duration_ms of Some d \<Rightarrow> Some d
                          | None \<Rightarrow> elapsed_ms now (ds_started_at r)),
       ds_output_ref := output_ref, ds_updated_at := now,
       ds_metrics := (case metrics of Some m \<Rightarrow> m | None \<Rightarrow> ds_metrics r)\<rparr>"

definition mark_succeeded ::
  "step_row engine \<Rightarrow> timestamp \<Rightarrow> uuid \<Rightarrow> pipeline_step \<Rightarrow> string option \<Rightarrow> int option
     \<Rightarrow> json_dict option \<Rightarrow> step_row list \<Rightarrow> (py_exn + step_row option) \<times> step_row list" where
  "mark_succeeded ex now document_id step output_ref duration_ms metrics =
     update_one ex
       (\<lambda>r. ds_document_id r = document_id \<and> ds_step r = step \<and> ds_status r = RUNNING)
       (succeeded now output_ref duration_ms metrics)"

definition failed :: "timestamp \<Rightarrow> string option \<Rightarrow> string option \<Rightarrow> step_row \<Rightarrow> step_row" where
  "failed now error_code error_detail r =
     r\<lparr>ds_status := FAILED, ds_finished_at := Some now, ds_error_code := error_code,
       ds_error_detail := error_detail, ds_updated_at := now\<rparr>"

definition mark_failed ::
  "step_row engine \<Rightarrow> timestamp \<Rightarrow> uuid \<Rightarrow> pipeline_step \<Rightarrow> string option \<Rightarrow> string option
     \<Rightarrow> step_row list \<Rightarrow> (py_exn + step_row option) \<times> step_row list" where
  "mark_failed ex now document_id step error_code error_detail =
     update_one ex
       (\<lambda>r. ds_document_id r = document_id \<and> ds_step r = step \<and> ds_status r = RUNNING)
       (failed now error_code error_detail)"

definition reset :: "timestamp \<Rightarrow> step_row \<Rightarrow> step_row" where
  "reset now r =
     r\<lparr>ds_status := PENDING, ds_attempt := 0, ds_started_at := None, ds_finished_at := None,
       ds_duration_ms := None, ds_error_code := None, ds_error_detail := None,
       ds_output_ref := None, ds_metrics := [], ds_updated_at := now\<rparr>"

definition reset_from ::
  "step_row engine \<Rightarrow> timestamp \<Rightarrow> uuid \<Rightarrow> pipeline_step
     \<Rightarrow> step_row list \<Rightarrow> (py_exn + step_row list) \<times> step_row list" where
  "reset_from ex now document_id step =
     (case steps_from step of
        Inl e \<Rightarrow> raiseE e
      | Inr steps \<Rightarrow>
          seqE (ex (Update (\<lambda>r. ds_document_id r = document_id \<and> ds_step r \<in> set steps) (reset now)))
            (\<lambda>_. list_steps ex document_id))"

section \<open>Constraints and keys\<close>

lemma steps_ok_perm: "mset t' = mset t \<Longrightarrow> steps_ok docs t \<Longrightarrow> steps_ok docs t'"
  unfolding steps_ok_def by (metis distinct_map_mset set_mset_mset)

lemma steps_ok_key [dest]: "steps_ok docs t \<Longrightarrow> distinct (map step_key t)"
  by (simp add: steps_ok_def)

lemma step_key_eq [simp]: "step_key r = (d, s) \<longleftrightarrow> ds_document_id r = d \<and> ds_step r = s"
  by (simp add: step_key_def)

lemma step_updates_keep [simp]:
  "step_key (claimed now r) = step_key r" "ds_id (claimed now r) = ds_id r"
  "step_key (succeeded now out dur m r) = step_key r" "ds_id (succeeded now out dur m r) = ds_id r"
  "step_key (failed now c d r) = step_key r" "ds_id (failed now c d r) = ds_id r"
  "step_key (reset now r) = step_key r" "ds_id (reset now r) = ds_id r"
  by (simp_all add: claimed_def succeeded_def failed_def reset_def step_key_def)

lemma steps_ok_update:
  assumes "steps_ok docs t" and "\<And>r. p r \<Longrightarrow> step_key (f r) = step_key r"
    and "\<And>r. p r \<Longrightarrow> ds_id (f r) = ds_id r"
  shows "steps_ok docs (apply_update p f t)"
proof -
  have "ds_document_id (f r) = ds_document_id r" if "p r" for r
    using assms(2) [OF that] by (simp add: step_key_def)
  then have "\<forall>r \<in> set (apply_update p f t). ds_document_id r \<in> docs"
    using assms(1) by (auto simp: steps_ok_def apply_update_def)
  moreover have "map ds_id (apply_update p f t) = map ds_id t"
    and "map step_key (apply_update p f t) = map step_key t"
    using assms(2,3) by (simp_all add: map_key_update)
  ultimately show ?thesis
    using assms(1) by (simp add: steps_ok_def)
qed

text \<open>The interface instantiated: the reference engine with this table's constraints.\<close>

interpretation step_engine: sql_engine "pg_execute step_fits (steps_ok docs)" step_fits "steps_ok docs"
  for docs
  by (rule pg_execute_sql_engine) (rule steps_ok_perm)

lemma new_step_row_simps [simp]:
  "ds_document_id (new_step_row i now d s n) = d" "ds_step (new_step_row i now d s n) = s"
  "ds_id (new_step_row i now d s n) = i" "ds_status (new_step_row i now d s n) = PENDING"
  "ds_attempt (new_step_row i now d s n) = 0" "ds_max_attempts (new_step_row i now d s n) = n"
  "step_key (new_step_row i now d s n) = (d, s)"
  by (simp_all add: new_step_row_def step_key_def)


section \<open>Reading\<close>

lemma map_filter_STEP_ORDER:
  "map (\<lambda>r. step_index (ds_step r)) (List.map_filter (\<lambda>s. g s) xs)
     = map step_index (filter (\<lambda>s. g s \<noteq> None) xs)"
  if "\<And>s r. g s = Some r \<Longrightarrow> ds_step r = s"
  using that by (induction xs) (auto simp: List.map_filter_def)

lemma sorted_step_index: "sorted (map step_index STEP_ORDER)"
  by (simp add: STEP_ORDER_def)

lemma in_step_order_unique:
  assumes "distinct (map step_key t)" and rs: "mset rs = mset (filter (\<lambda>r. ds_document_id r = d) t)"
  shows "in_step_order rs = List.map_filter (\<lambda>s. table_map step_key t (d, s)) STEP_ORDER"
proof -
  let ?f = "\<lambda>r. step_index (ds_step r)"
  let ?g = "\<lambda>s. table_map step_key t (d, s)"
  let ?ys = "List.map_filter ?g STEP_ORDER"
  have step: "ds_step r = s \<and> ds_document_id r = d \<and> r \<in> set t" if "?g s = Some r" for s r
    using that assms(1) by (auto simp: table_map_Some)
  have ys: "map ?f ?ys = map step_index (filter (\<lambda>s. ?g s \<noteq> None) STEP_ORDER)"
    using step by (intro map_filter_STEP_ORDER) auto
  have set_rs: "set rs = {r \<in> set t. ds_document_id r = d}"
    using rs by (metis set_filter set_mset_mset)
  have "set ?ys = set rs"
  proof (intro equalityI subsetI)
    fix r assume "r \<in> set ?ys"
    then show "r \<in> set rs" using step by (auto simp: set_rs List.map_filter_def)
  next
    fix r assume "r \<in> set rs"
    then have "?g (ds_step r) = Some r" using assms(1) by (auto simp: set_rs table_map_Some)
    then show "r \<in> set ?ys" by (force simp: List.map_filter_def)
  qed
  moreover have inj: "inj_on ?f (set rs)"
    using assms(1) by (auto simp: set_rs inj_on_def step_key_def dest: distinct_key_inj)
  moreover have "distinct (map ?f rs)"
  proof -
    have "distinct rs" using rs assms(1) by (metis distinct_filter distinct_map mset_eq_imp_distinct_iff)
    with inj show ?thesis by (simp add: distinct_map)
  qed
  then have "distinct (map ?f (sort_key ?f rs))"
    by (metis distinct_map_mset mset_sort)
  moreover have "distinct (map ?f ?ys)"
    unfolding ys by (simp add: distinct_map inj_on_def)
  moreover have "sorted (map ?f ?ys)"
    unfolding ys using sorted_step_index by (intro sorted_filter)
  ultimately show ?thesis
    unfolding in_step_order_def by (intro map_sorted_distinct_set_unique [of ?f]) auto
qed

text \<open>What every operation may assume of the table, and how the rows of one step look.\<close>

definition rows_of :: "uuid \<Rightarrow> step_row list \<Rightarrow> step_row list" where
  "rows_of d t = List.map_filter (\<lambda>s. table_map step_key t (d, s)) STEP_ORDER"

lemma list_steps_exec:
  assumes "sql_engine ex step_fits (steps_ok docs)" and "steps_ok docs t"
  shows "list_steps ex d t = (Inr (rows_of d t), t)"
proof -
  obtain rs where "ex (Select (\<lambda>r. ds_document_id r = d) no_order None 0) t = (Inr rs, t)"
    and "mset rs = mset (filter (\<lambda>r. ds_document_id r = d) t)"
    using sql_engine.select_all [OF assms(1)] by blast
  then show ?thesis
    using in_step_order_unique [OF steps_ok_key [OF assms(2)], of rs d]
    by (simp add: list_steps_def rows_of_def seqE_Inr)
qed

section \<open>The life cycle of a row\<close>

text \<open>Which values a row may hold in each state. No operation produces \<open>SKIPPED\<close>.\<close>

definition row_lifecycle :: "step_row \<Rightarrow> bool" where
  "row_lifecycle r \<longleftrightarrow>
     (case ds_status r of
        PENDING \<Rightarrow> ds_attempt r = 0 \<and> ds_started_at r = None \<and> ds_finished_at r = None
          \<and> ds_duration_ms r = None \<and> ds_error_code r = None \<and> ds_error_detail r = None
          \<and> ds_output_ref r = None \<and> ds_metrics r = []
      | RUNNING \<Rightarrow> ds_attempt r = 1 \<and> ds_started_at r \<noteq> None \<and> ds_finished_at r = None
          \<and> ds_duration_ms r = None \<and> ds_error_code r = None \<and> ds_error_detail r = None
          \<and> ds_output_ref r = None \<and> ds_metrics r = []
      | SUCCEEDED \<Rightarrow> ds_attempt r = 1 \<and> ds_started_at r \<noteq> None \<and> ds_finished_at r \<noteq> None
          \<and> ds_duration_ms r \<noteq> None \<and> ds_error_code r = None \<and> ds_error_detail r = None
      | FAILED \<Rightarrow> ds_attempt r = 1 \<and> ds_started_at r \<noteq> None \<and> ds_finished_at r \<noteq> None
          \<and> ds_duration_ms r = None \<and> ds_output_ref r = None \<and> ds_metrics r = []
      | SKIPPED \<Rightarrow> False)"

definition steps_inv :: "uuid set \<Rightarrow> step_row list \<Rightarrow> bool" where
  "steps_inv docs t \<longleftrightarrow>
     steps_ok docs t \<and> list_all step_fits t \<and> list_all row_lifecycle t"

lemma steps_inv_ok [dest]: "steps_inv docs t \<Longrightarrow> steps_ok docs t"
  by (simp add: steps_inv_def)

lemma lifecycle_new [simp]: "row_lifecycle (new_step_row i now d s n)"
  by (simp add: row_lifecycle_def new_step_row_def)

lemma lifecycle_claimed: "row_lifecycle r \<Longrightarrow> ds_status r = PENDING \<Longrightarrow> row_lifecycle (claimed now r)"
  by (simp add: row_lifecycle_def claimed_def)

lemma lifecycle_succeeded:
  "row_lifecycle r \<Longrightarrow> ds_status r = RUNNING \<Longrightarrow> row_lifecycle (succeeded now out dur m r)"
  by (auto simp: row_lifecycle_def succeeded_def elapsed_ms_def split: option.splits)

lemma lifecycle_failed:
  "row_lifecycle r \<Longrightarrow> ds_status r = RUNNING \<Longrightarrow> row_lifecycle (failed now c d r)"
  by (simp add: row_lifecycle_def failed_def)

lemma lifecycle_reset [simp]: "row_lifecycle (reset now r)"
  by (simp add: row_lifecycle_def reset_def)

lemma fits_claimed:
  "step_fits r \<Longrightarrow> row_lifecycle r \<Longrightarrow> ds_status r = PENDING \<Longrightarrow> step_fits (claimed now r)"
  by (simp add: step_fits_def row_lifecycle_def claimed_def)

lemma fits_reset: "step_fits r \<Longrightarrow> step_fits (reset now r)"
  by (simp add: step_fits_def reset_def)

lemma steps_inv_update:
  assumes inv: "steps_inv docs t" and "mset t' = mset (apply_update p f t)" and "steps_ok docs t'"
    and fit: "list_all step_fits (map f (filter p t))"
    and life: "\<And>r. p r \<Longrightarrow> row_lifecycle r \<Longrightarrow> row_lifecycle (f r)"
  shows "steps_inv docs t'"
proof -
  have t': "set t' = set (apply_update p f t)" using assms(2) by (metis set_mset_mset)
  have "step_fits r \<and> row_lifecycle r" if "r \<in> set t'" for r
    using that inv fit life unfolding t'
    by (auto simp: apply_update_def steps_inv_def list_all_iff)
  with assms(3) show ?thesis by (simp add: steps_inv_def list_all_iff)
qed

section \<open>Each operation on the map of rows\<close>

type_synonym step_map = "uuid \<times> pipeline_step \<Rightarrow> step_row option"

abbreviation steps_map :: "step_row list \<Rightarrow> step_map" where
  "steps_map t \<equiv> table_map step_key t"

lemma steps_map_Some:
  "steps_inv docs t \<Longrightarrow>
     steps_map t (d, s) = Some r \<longleftrightarrow> r \<in> set t \<and> ds_document_id r = d \<and> ds_step r = s"
  by (subst table_map_Some) auto

text \<open>
  A guarded update of one row: it either fails and leaves the table, or does to the map what
  \<open>cas\<close> does, and keeps the invariant.
\<close>

lemma guarded_update:
  assumes eng: "sql_engine ex step_fits (steps_ok docs)" and inv: "steps_inv docs t"
    and keep: "\<And>r. step_key (f r) = step_key r" "\<And>r. ds_id (f r) = ds_id r"
    and life: "\<And>r. q r \<Longrightarrow> row_lifecycle r \<Longrightarrow> row_lifecycle (f r)"
  obtains (fails) e r where
      "update_one ex (\<lambda>r. ds_document_id r = d \<and> ds_step r = s \<and> q r) f t = (Inl e, t)"
      "steps_map t (d, s) = Some r" "q r" "\<not> step_fits (f r)"
  | (succeeds) t' where
      "update_one ex (\<lambda>r. ds_document_id r = d \<and> ds_step r = s \<and> q r) f t =
         (Inr (fst (cas q f (d, s) (steps_map t))), t')"
      "steps_map t' = snd (cas q f (d, s) (steps_map t))" "steps_inv docs t'"
proof -
  have ok: "steps_ok docs t" and dist: "distinct (map step_key t)" using inv by auto
  have keep': "step_key (f r) = (d, s)" if "step_key r = (d, s)" for r
    using that keep(1) [of r] by simp
  have p: "(\<lambda>r. ds_document_id r = d \<and> ds_step r = s \<and> q r) = (\<lambda>r. step_key r = (d, s) \<and> q r)"
    by (simp add: fun_eq_iff)
  have ok': "steps_ok docs (apply_update (\<lambda>r. step_key r = (d, s) \<and> q r) f t)"
    by (rule steps_ok_update [OF ok]) (simp_all add: keep)
  show thesis
  proof (cases "\<exists>r. steps_map t (d, s) = Some r \<and> q r \<and> \<not> step_fits (f r)")
    case True
    then obtain r where r: "steps_map t (d, s) = Some r" "q r" "\<not> step_fits (f r)" by blast
    show thesis
    proof (rule sql_engine.update_one_cases [OF eng ok dist, of "(d, s)" q f])
      show "step_key (f r) = (d, s)" if "step_key r = (d, s)" for r using that by (rule keep')
    next
      fix e assume "update_one ex (\<lambda>r. step_key r = (d, s) \<and> q r) f t = (Inl e, t)"
      with r show thesis using fails unfolding p by blast
    next
      assume "list_all step_fits (map f (filter (\<lambda>r. step_key r = (d, s) \<and> q r) t))"
      with r dist show thesis by (auto simp: list_all_iff table_map_Some)
    qed
  next
    case False
    have fit: "step_fits (f r)" if "steps_map t (d, s) = Some r" "q r" for r
      using that False by blast
    have all: "list_all step_fits (map f (filter (\<lambda>r. step_key r = (d, s) \<and> q r) t))"
      using fit dist by (auto simp: list_all_iff table_map_Some)
    obtain t' where res: "update_one ex (\<lambda>r. step_key r = (d, s) \<and> q r) f t =
        (Inr (fst (cas q f (d, s) (steps_map t))), t')"
      and m: "steps_map t' = snd (cas q f (d, s) (steps_map t))" and "steps_ok docs t'"
      and "mset t' = mset (apply_update (\<lambda>r. step_key r = (d, s) \<and> q r) f t)"
      using sql_engine.update_one_cas [OF eng ok dist keep' fit ok'] by blast
    moreover from this have "steps_inv docs t'"
      using steps_inv_update [OF inv _ _ all] life by blast
    ultimately show thesis using succeeds unfolding p by blast
  qed
qed

definition pending :: "step_row \<Rightarrow> bool" where
  "pending r \<longleftrightarrow> ds_status r = PENDING"

definition running :: "step_row \<Rightarrow> bool" where
  "running r \<longleftrightarrow> ds_status r = RUNNING"

lemma claim_exec:
  assumes eng: "sql_engine ex step_fits (steps_ok docs)" and inv: "steps_inv docs t"
  obtains t' where
    "claim ex now d s t = (Inr (fst (cas pending (claimed now) (d, s) (steps_map t))), t')"
    "steps_map t' = snd (cas pending (claimed now) (d, s) (steps_map t))" "steps_inv docs t'"
proof (rule guarded_update [OF eng inv, of "claimed now" pending d s])
  show "step_key (claimed now r) = step_key r" "ds_id (claimed now r) = ds_id r" for r
    by simp_all
  show "row_lifecycle (claimed now r)" if "pending r" "row_lifecycle r" for r
    using that by (simp add: lifecycle_claimed pending_def)
next
  fix e r assume r: "steps_map t (d, s) = Some r" "pending r" "\<not> step_fits (claimed now r)"
  have "r \<in> set t" using r(1) steps_map_Some [OF inv] by simp
  then have "step_fits (claimed now r)"
    using inv r(2) by (auto simp: steps_inv_def list_all_iff pending_def intro: fits_claimed)
  with r show thesis by simp
next
  fix t' assume "update_one ex (\<lambda>r. ds_document_id r = d \<and> ds_step r = s \<and> pending r) (claimed now) t =
      (Inr (fst (cas pending (claimed now) (d, s) (steps_map t))), t')"
    and "steps_map t' = snd (cas pending (claimed now) (d, s) (steps_map t))" "steps_inv docs t'"
  then show thesis using that by (simp add: claim_def pending_def)
qed

lemma mark_succeeded_exec:
  assumes eng: "sql_engine ex step_fits (steps_ok docs)" and inv: "steps_inv docs t"
  obtains (fails) e r where "mark_succeeded ex now d s out dur m t = (Inl e, t)"
      "steps_map t (d, s) = Some r" "running r" "\<not> step_fits (succeeded now out dur m r)"
  | (succeeds) t' where "mark_succeeded ex now d s out dur m t =
        (Inr (fst (cas running (succeeded now out dur m) (d, s) (steps_map t))), t')"
      "steps_map t' = snd (cas running (succeeded now out dur m) (d, s) (steps_map t))"
      "steps_inv docs t'"
proof (rule guarded_update [OF eng inv, of "succeeded now out dur m" running d s])
  show "step_key (succeeded now out dur m r) = step_key r"
    "ds_id (succeeded now out dur m r) = ds_id r" for r
    by simp_all
  show "row_lifecycle (succeeded now out dur m r)" if "running r" "row_lifecycle r" for r
    using that by (simp add: lifecycle_succeeded running_def)
qed (use fails succeeds in \<open>simp_all add: mark_succeeded_def running_def\<close>)

lemma mark_failed_exec:
  assumes eng: "sql_engine ex step_fits (steps_ok docs)" and inv: "steps_inv docs t"
  obtains (fails) e r where "mark_failed ex now d s c det t = (Inl e, t)"
      "steps_map t (d, s) = Some r" "running r" "\<not> step_fits (failed now c det r)"
  | (succeeds) t' where "mark_failed ex now d s c det t =
        (Inr (fst (cas running (failed now c det) (d, s) (steps_map t))), t')"
      "steps_map t' = snd (cas running (failed now c det) (d, s) (steps_map t))"
      "steps_inv docs t'"
proof (rule guarded_update [OF eng inv, of "failed now c det" running d s])
  show "step_key (failed now c det r) = step_key r" "ds_id (failed now c det r) = ds_id r" for r
    by simp_all
  show "row_lifecycle (failed now c det r)" if "running r" "row_lifecycle r" for r
    using that by (simp add: lifecycle_failed running_def)
qed (use fails succeeds in \<open>simp_all add: mark_failed_def running_def\<close>)

text \<open>What a reset does to the map, and what \<open>ensure_steps\<close> does.\<close>

definition reset_map :: "timestamp \<Rightarrow> uuid \<Rightarrow> pipeline_step \<Rightarrow> step_map \<Rightarrow> step_map" where
  "reset_map now d s m =
     (\<lambda>(d', s'). if d' = d \<and> s \<le> s' then map_option (reset now) (m (d', s')) else m (d', s'))"

definition ensure_map ::
  "(pipeline_step \<Rightarrow> uuid) \<Rightarrow> timestamp \<Rightarrow> uuid \<Rightarrow> int \<Rightarrow> step_map \<Rightarrow> step_map" where
  "ensure_map new_id now d n m =
     (\<lambda>(d', s'). if d' = d \<and> m (d', s') = None then Some (new_step_row (new_id s') now d s' n)
                 else m (d', s'))"

lemma steps_from_list_Inr: "steps_from s = Inr (steps_from_list s)"
  by (simp add: steps_from_Inr steps_from_list_def)

lemma reset_from_exec:
  assumes eng: "sql_engine ex step_fits (steps_ok docs)" and inv: "steps_inv docs t"
  obtains t' where "reset_from ex now d s t = (Inr (rows_of d t'), t')"
    "steps_map t' = reset_map now d s (steps_map t)" "steps_inv docs t'"
proof -
  let ?p = "\<lambda>r. ds_document_id r = d \<and> s \<le> ds_step r"
  have ok: "steps_ok docs t" using inv by auto
  have ok': "steps_ok docs (apply_update ?p (reset now) t)"
    by (rule steps_ok_update [OF ok]) simp_all
  have fit: "list_all step_fits (map (reset now) (filter ?p t))"
    using inv by (auto simp: list_all_iff steps_inv_def fits_reset)
  obtain rs t' where upd: "ex (Update ?p (reset now)) t = (Inr rs, t')"
    and t': "mset t' = mset (apply_update ?p (reset now) t)"
    using sql_engine.update [OF eng ok fit ok'] by blast
  have okt': "steps_ok docs t'" using t' ok' by (rule steps_ok_perm)
  then have inv': "steps_inv docs t'"
    using steps_inv_update [OF inv t' _ fit] by simp
  have "steps_map t' = steps_map (apply_update ?p (reset now) t)"
    by (rule table_map_perm [OF steps_ok_key [OF ok'] t'])
  also have "\<dots> = reset_map now d s (steps_map t)"
  proof
    fix k :: "uuid \<times> pipeline_step"
    obtain d' s' where k: "k = (d', s')" by (cases k)
    have "steps_map (apply_update ?p (reset now) t) k =
        map_option (\<lambda>r. if ?p r then reset now r else r) (steps_map t k)"
      by (rule table_map_update) simp
    moreover have "ds_document_id r = d' \<and> ds_step r = s'" if "steps_map t (d', s') = Some r" for r
      using that steps_map_Some [OF inv] by simp
    ultimately show "steps_map (apply_update ?p (reset now) t) k = reset_map now d s (steps_map t) k"
      by (cases "steps_map t (d', s')") (auto simp: k reset_map_def)
  qed
  finally have m: "steps_map t' = reset_map now d s (steps_map t)" .
  have "reset_from ex now d s t = (Inr (rows_of d t'), t')"
    using upd list_steps_exec [OF eng okt']
    by (simp add: reset_from_def steps_from_list_Inr seqE_Inr)
  with m inv' show thesis using that by blast
qed

definition step_values ::
  "(pipeline_step \<Rightarrow> uuid) \<Rightarrow> timestamp \<Rightarrow> uuid \<Rightarrow> int \<Rightarrow> step_row list" where
  "step_values new_id now d n = map (\<lambda>s. new_step_row (new_id s) now d s n) STEP_ORDER"

text \<open>The rows that \<open>ensure_steps\<close> adds.\<close>

definition missing_rows ::
  "(pipeline_step \<Rightarrow> uuid) \<Rightarrow> timestamp \<Rightarrow> uuid \<Rightarrow> int \<Rightarrow> step_row list \<Rightarrow> step_row list" where
  "missing_rows new_id now d n t =
     filter (\<lambda>r. step_key r \<notin> step_key ` set t) (step_values new_id now d n)"

lemma step_values_keys: "map step_key (step_values new_id now d n) = map (Pair d) STEP_ORDER"
  by (simp add: step_values_def)

lemma step_values_distinct: "distinct (map step_key (step_values new_id now d n))"
  by (simp add: step_values_keys distinct_map inj_on_def)

lemma ensure_insert:
  "insert_ignore (\<lambda>a b. step_key a = step_key b) (step_values new_id now d n) t
     = t @ missing_rows new_id now d n t"
  unfolding missing_rows_def by (rule insert_ignore_key [OF step_values_distinct])

lemma ensure_distinct:
  assumes "distinct (map step_key t)"
  shows "distinct (map step_key (t @ missing_rows new_id now d n t))"
  using assms step_values_distinct [of new_id now d n]
  by (auto simp: missing_rows_def distinct_map_filter)

lemma ensure_map_rows:
  assumes "distinct (map step_key t)"
  shows "steps_map (t @ missing_rows new_id now d n t) = ensure_map new_id now d n (steps_map t)"
proof
  fix k :: "uuid \<times> pipeline_step"
  obtain d' s' where k: "k = (d', s')" by (cases k)
  let ?r = "new_step_row (new_id s') now d s' n"
  show "steps_map (t @ missing_rows new_id now d n t) k = ensure_map new_id now d n (steps_map t) k"
  proof (cases "steps_map t k")
    case (Some r)
    then show ?thesis by (simp add: table_map_append ensure_map_def k)
  next
    case None
    then have no: "(d', s') \<notin> step_key ` set t" by (simp add: k table_map_None)
    have "steps_map (missing_rows new_id now d n t) k = (if d' = d then Some ?r else None)"
    proof (cases "d' = d")
      case True
      have "?r \<in> set (missing_rows new_id now d n t)"
        using no True by (auto simp: missing_rows_def step_values_def)
      with ensure_distinct [OF assms, of new_id now d n] True show ?thesis
        by (auto simp: k table_map_Some)
    next
      case False
      then show ?thesis
        by (auto simp: k table_map_None missing_rows_def step_values_def)
    qed
    with None show ?thesis by (simp add: table_map_append map_add_def ensure_map_def k)
  qed
qed

lemma ensure_steps_exec:
  assumes eng: "sql_engine ex step_fits (steps_ok docs)" and inv: "steps_inv docs t"
  obtains (fails) e where "ensure_steps ex new_id now d n t = (Inl e, t)"
      "\<not> (int4 n \<and> steps_ok docs (t @ missing_rows new_id now d n t))"
  | (succeeds) t' where "ensure_steps ex new_id now d n t = (Inr (rows_of d t'), t')"
      "steps_map t' = ensure_map new_id now d n (steps_map t)" "steps_inv docs t'"
proof -
  let ?vs = "step_values new_id now d n" and ?c = "\<lambda>a b. step_key a = step_key b"
  let ?t1 = "t @ missing_rows new_id now d n t"
  have ok: "steps_ok docs t" using inv by auto
  have fit: "list_all step_fits ?vs \<longleftrightarrow> int4 n"
    by (auto simp: step_values_def list_all_iff step_fits_def new_step_row_def)
  have op: "ensure_steps ex new_id now d n = seqE (ex (InsertIgnore ?vs ?c)) (\<lambda>_. list_steps ex d)"
    by (simp add: ensure_steps_def step_values_def)
  show thesis
  proof (cases "int4 n \<and> steps_ok docs ?t1")
    case False
    then obtain e where "ex (InsertIgnore ?vs ?c) t = (Inl e, t)"
      using sql_engine.insert_ignore_fails [OF eng ok, of ?vs ?c] by (auto simp: fit ensure_insert)
    then show thesis using fails [of e] False by (simp add: op seqE_Inl)
  next
    case True
    then obtain t' where ins: "ex (InsertIgnore ?vs ?c) t = (Inr [], t')" and t': "mset t' = mset ?t1"
      using sql_engine.insert_ignore [OF eng ok, of ?vs ?c] by (auto simp: fit ensure_insert)
    have ok': "steps_ok docs t'" using t' True by (blast intro: steps_ok_perm)
    have "set t' = set ?t1" using t' by (metis set_mset_mset)
    then have "steps_inv docs t'"
      using inv ok' True
      by (auto simp: steps_inv_def list_all_iff missing_rows_def step_values_def step_fits_def
          new_step_row_def row_lifecycle_def)
    moreover have "steps_map t' = ensure_map new_id now d n (steps_map t)"
      using table_map_perm [OF ensure_distinct [OF steps_ok_key [OF ok]] t'] ensure_map_rows ok
      by (metis steps_ok_key)
    moreover have "ensure_steps ex new_id now d n t = (Inr (rows_of d t'), t')"
      using ins list_steps_exec [OF eng ok'] by (simp add: op seqE_Inr)
    ultimately show thesis using succeeds by blast
  qed
qed

text \<open>The rows \<open>ensure_steps\<close> adds fit into the table, when their ids are fresh.\<close>

lemma missing_rows_ok:
  assumes "steps_inv docs t" and "d \<in> docs" and "inj new_id" and "range new_id \<inter> ds_id ` set t = {}"
  shows "steps_ok docs (t @ missing_rows new_id now d n t)"
proof -
  have "map ds_id (step_values new_id now d n) = map new_id STEP_ORDER"
    by (simp add: step_values_def)
  then have "distinct (map ds_id (step_values new_id now d n))"
    using assms(3) by (simp add: distinct_map)
  then have "distinct (map ds_id (missing_rows new_id now d n t))"
    unfolding missing_rows_def by (rule distinct_map_filter)
  moreover have new: "ds_id r \<notin> ds_id ` set t" "ds_document_id r = d"
    if "r \<in> set (missing_rows new_id now d n t)" for r
    using that assms(4) by (auto simp: missing_rows_def step_values_def)
  moreover from new(1) have "ds_id ` set t \<inter> ds_id ` set (missing_rows new_id now d n t) = {}"
    unfolding disjoint_iff by (metis imageE)
  moreover have "steps_ok docs t" using assms(1) by auto
  ultimately show ?thesis
    using assms(2) ensure_distinct [of t new_id now d n] new(2)
    by (auto simp: steps_ok_def)
qed

lemma ensure_map_row:
  assumes "steps_inv docs t"
  shows "\<exists>r. ensure_map new_id now d n (steps_map t) (d, s) = Some r \<and> ds_step r = s"
proof (cases "steps_map t (d, s)")
  case None
  then show ?thesis by (simp add: ensure_map_def)
next
  case (Some r)
  then have "ds_step r = s" using steps_map_Some [OF assms, of d s r] by simp
  with Some show ?thesis by (simp add: ensure_map_def)
qed

section \<open>Runs\<close>

text \<open>
  One call of the repository by some worker. A mutation is a single SQL statement, so the calls
  of concurrent workers take effect one after the other, in some order.
\<close>

datatype step_op =
    EnsureSteps "pipeline_step \<Rightarrow> uuid" timestamp uuid int
  | ListSteps uuid
  | GetStep uuid pipeline_step
  | Claim timestamp uuid pipeline_step
  | MarkSucceeded timestamp uuid pipeline_step "string option" "int option" "json_dict option"
  | MarkFailed timestamp uuid pipeline_step "string option" "string option"
  | ResetFrom timestamp uuid pipeline_step

definition as_list :: "('s \<Rightarrow> ('e + 'a option) \<times> 's) \<Rightarrow> 's \<Rightarrow> ('e + 'a list) \<times> 's" where
  "as_list m = seqE m (\<lambda>x. retE (case x of None \<Rightarrow> [] | Some r \<Rightarrow> [r]))"

fun run_op ::
  "step_row engine \<Rightarrow> step_op \<Rightarrow> step_row list \<Rightarrow> (py_exn + step_row list) \<times> step_row list" where
  "run_op ex (EnsureSteps new_id now d n) = ensure_steps ex new_id now d n"
| "run_op ex (ListSteps d) = list_steps ex d"
| "run_op ex (GetStep d s) = as_list (get_step ex d s)"
| "run_op ex (Claim now d s) = as_list (claim ex now d s)"
| "run_op ex (MarkSucceeded now d s out dur m) = as_list (mark_succeeded ex now d s out dur m)"
| "run_op ex (MarkFailed now d s c det) = as_list (mark_failed ex now d s c det)"
| "run_op ex (ResetFrom now d s) = reset_from ex now d s"

inductive steps_reach :: "step_row engine \<Rightarrow> step_row list \<Rightarrow> bool" for ex where
  reach_empty: "steps_reach ex []"
| reach_op: "steps_reach ex t \<Longrightarrow> run_op ex op t = (res, t') \<Longrightarrow> steps_reach ex t'"

inductive_cases reach_opE: "steps_reach ex t"

text \<open>A run from a given table, with the result of each call.\<close>

fun run_ops ::
  "step_row engine \<Rightarrow> step_op list \<Rightarrow> step_row list
     \<Rightarrow> (step_op \<times> (py_exn + step_row list)) list \<times> step_row list" where
  "run_ops ex [] t = ([], t)"
| "run_ops ex (op # ops) t =
     (case run_op ex op t of (res, t') \<Rightarrow>
        (case run_ops ex ops t' of (tr, t'') \<Rightarrow> ((op, res) # tr, t'')))"

text \<open>A call that claimed the step, and a call that reset it.\<close>

fun won :: "uuid \<Rightarrow> pipeline_step \<Rightarrow> step_op \<times> (py_exn + step_row list) \<Rightarrow> bool" where
  "won d s (Claim now d' s', Inr rows) \<longleftrightarrow> d' = d \<and> s' = s \<and> rows \<noteq> []"
| "won d s _ \<longleftrightarrow> False"

fun covers :: "uuid \<Rightarrow> pipeline_step \<Rightarrow> step_op \<times> (py_exn + step_row list) \<Rightarrow> bool" where
  "covers d s (ResetFrom now d' s', res) \<longleftrightarrow> d' = d \<and> s' \<le> s"
| "covers d s _ \<longleftrightarrow> False"

text \<open>Whether the step may still be claimed: its row is missing or pending.\<close>

definition claimable :: "uuid \<Rightarrow> pipeline_step \<Rightarrow> step_row list \<Rightarrow> bool" where
  "claimable d s t \<longleftrightarrow> (case steps_map t (d, s) of None \<Rightarrow> True | Some r \<Rightarrow> pending r)"

lemma as_list_simps [simp]:
  "m t = (Inr x, t') \<Longrightarrow> as_list m t = (Inr (case x of None \<Rightarrow> [] | Some r \<Rightarrow> [r]), t')"
  "m t = (Inl e, t') \<Longrightarrow> as_list m t = (Inl e, t')"
  by (simp_all add: as_list_def seqE_def)

lemma get_step_exec:
  assumes "sql_engine ex step_fits (steps_ok docs)" and "steps_ok docs t"
  shows "get_step ex d s t = (Inr (steps_map t (d, s)), t)"
proof -
  have "fetch_one ex (\<lambda>r. ds_document_id r = d \<and> ds_step r = s) t =
    (Inr (case steps_map t (d, s) of None \<Rightarrow> None
          | Some r \<Rightarrow> if ds_document_id r = d \<and> ds_step r = s then Some r else None), t)"
    by (rule sql_engine.fetch_one_key [OF assms(1) steps_ok_key [OF assms(2)]]) simp
  moreover have "ds_document_id r = d \<and> ds_step r = s" if "steps_map t (d, s) = Some r" for r
    using that assms(2) by (subst (asm) table_map_Some) auto
  ultimately show ?thesis by (auto simp: get_step_def split: option.splits)
qed

text \<open>One call keeps the invariant, and a win uses up the step until a reset covers it.\<close>

lemma run_op_inv:
  assumes eng: "sql_engine ex step_fits (steps_ok docs)" and inv: "steps_inv docs t"
    and op: "run_op ex op t = (res, t')"
  shows "steps_inv docs t' \<and>
    of_bool (won d s (op, res)) + of_bool (claimable d s t')
      \<le> of_bool (claimable d s t) + (of_bool (covers d s (op, res)) :: nat)"
proof (cases op)
  case (EnsureSteps new_id now d' n)
  show ?thesis
    by (rule ensure_steps_exec [OF eng inv, of new_id now d' n])
      (use op inv EnsureSteps in \<open>auto simp: claimable_def ensure_map_def pending_def
        split: option.splits\<close>)
next
  case (ListSteps d')
  then show ?thesis using op inv list_steps_exec [OF eng steps_inv_ok [OF inv], of d'] by auto
next
  case (GetStep d' s')
  then show ?thesis using op inv get_step_exec [OF eng steps_inv_ok [OF inv], of d' s'] by auto
next
  case (Claim now d' s')
  show ?thesis
    by (rule claim_exec [OF eng inv, of now d' s'])
      (use op Claim in \<open>auto simp: claimable_def cas_def pending_def claimed_def
        split: option.splits if_splits\<close>)
next
  case (MarkSucceeded now d' s' out dur m)
  show ?thesis
    by (rule mark_succeeded_exec [OF eng inv, of now d' s' out dur m])
      (use op inv MarkSucceeded in \<open>auto simp: claimable_def cas_def pending_def running_def
        succeeded_def split: option.splits if_splits\<close>)
next
  case (MarkFailed now d' s' c det)
  show ?thesis
    by (rule mark_failed_exec [OF eng inv, of now d' s' c det])
      (use op inv MarkFailed in \<open>auto simp: claimable_def cas_def pending_def running_def
        failed_def split: option.splits if_splits\<close>)
next
  case (ResetFrom now d' s')
  show ?thesis
    by (rule reset_from_exec [OF eng inv, of now d' s'])
      (use op ResetFrom in \<open>auto simp: claimable_def reset_map_def split: option.splits\<close>)
qed

lemma run_ops_inv:
  assumes eng: "sql_engine ex step_fits (steps_ok docs)"
  shows "steps_inv docs t \<Longrightarrow> run_ops ex ops t = (tr, t') \<Longrightarrow> steps_inv docs t' \<and>
    length (filter (won d s) tr) + of_bool (claimable d s t')
      \<le> of_bool (claimable d s t) + length (filter (covers d s) tr)"
proof (induction ops arbitrary: t tr)
  case Nil
  then show ?case by simp
next
  case (Cons op ops)
  obtain res t1 where op: "run_op ex op t = (res, t1)" by fastforce
  obtain tr1 t2 where rest: "run_ops ex ops t1 = (tr1, t2)" by fastforce
  note step = run_op_inv [OF eng Cons.prems(1) op, of d s]
  then have "steps_inv docs t1" by blast
  from Cons.IH [OF this, of tr1] rest Cons.prems(2) op step show ?case by auto
qed

lemma steps_reach_inv:
  assumes "sql_engine ex step_fits (steps_ok docs)"
  shows "steps_reach ex t \<Longrightarrow> steps_inv docs t"
proof (induction rule: steps_reach.induct)
  case reach_empty
  show ?case by (simp add: steps_inv_def steps_ok_def)
next
  case (reach_op t op res t')
  then show ?case using run_op_inv [OF assms, of t op res t'] by blast
qed

section \<open>Properties\<close>

text \<open>A document with three of its steps done, for the witnesses.\<close>

definition sample_id :: "pipeline_step \<Rightarrow> uuid" where
  "sample_id s = word_of_nat (10 + step_index s)"

definition sample_table :: "step_row list" where
  "sample_table = map (\<lambda>s. new_step_row (sample_id s) 0 1 s 3) [OCR, STORE, DECOMPOSE]
     @ [claimed 5 (new_step_row (sample_id EXTRACT) 0 1 EXTRACT 3)]"

abbreviation sample_engine :: "step_row engine" where
  "sample_engine \<equiv> pg_execute step_fits (steps_ok {1})"

lemma sample_inv: "steps_inv {1} sample_table"
  by (simp add: steps_inv_def steps_ok_def sample_table_def sample_id_def step_fits_def
      row_lifecycle_def new_step_row_def claimed_def step_key_def)

text \<open>
  C20. However the repository's operations are interleaved, starting from an empty table, every
  row of \<open>document_steps\<close> fits its columns, satisfies the table's constraints and holds exactly
  the values of its state: a pending row has no attempt, times, errors or output, a running one
  has one attempt and a start time, a finished one has both times, only a failed one has an
  error, and no row is ever skipped.
\<close>

theorem reachable_rows_follow_lifecycle:
  assumes "sql_engine ex step_fits (steps_ok docs)" and "steps_reach ex t"
  shows "steps_ok docs t \<and> list_all step_fits t \<and> list_all row_lifecycle t"
  using steps_reach_inv [OF assms] by (simp add: steps_inv_def)

lemma reachable_rows_follow_lifecycle_witness:
  "\<exists>t. t \<noteq> [] \<and> steps_ok {1} t \<and> list_all step_fits t \<and> list_all row_lifecycle t"
proof -
  obtain res t where op: "run_op sample_engine (EnsureSteps sample_id 7 1 3) [] = (res, t)"
    by fastforce
  have "steps_reach sample_engine t" by (rule reach_op [OF reach_empty op])
  moreover have "t \<noteq> []"
    using op by (auto simp: ensure_steps_def list_steps_def seqE_def commit_rows_def STEP_ORDER_def
        step_key_def Let_def window_ok_def int8_def steps_ok_def step_fits_def new_step_row_def sample_id_def)
  ultimately show ?thesis
    using reachable_rows_follow_lifecycle [OF step_engine.sql_engine_axioms] by blast
qed

text \<open>
  C1. In every sequence of calls by any number of workers, a step of a document is claimed
  successfully at most once, plus once for each reset that covers it; and not at all before the
  first reset when its row is not pending at the start.
\<close>

theorem claims_bounded_by_resets:
  assumes "sql_engine ex step_fits (steps_ok docs)" and "steps_inv docs t"
    and "run_ops ex ops t = (tr, t')"
  shows "length (filter (won d s) tr) \<le> of_bool (claimable d s t) + length (filter (covers d s) tr)"
  using run_ops_inv [OF assms, of d s] by simp

lemma claims_bounded_by_resets_witness:
  "\<exists>tr t'. run_ops sample_engine [Claim 9 1 OCR, Claim 9 1 OCR, ResetFrom 10 1 OCR, Claim 11 1 OCR]
      sample_table = (tr, t') \<and> length (filter (won 1 OCR) tr) \<le> 1 + length (filter (covers 1 OCR) tr)"
proof -
  obtain tr t' where run: "run_ops sample_engine
      [Claim 9 1 OCR, Claim 9 1 OCR, ResetFrom 10 1 OCR, Claim 11 1 OCR] sample_table = (tr, t')"
    by fastforce
  have "of_bool (claimable 1 OCR sample_table) \<le> (1::nat)" by simp
  with claims_bounded_by_resets [OF step_engine.sql_engine_axioms sample_inv run, of 1 OCR] run
  show ?thesis by (meson add_le_mono1 le_trans)
qed

text \<open>
  C25. Claiming is a compare-and-set on the pending state: it never raises, it changes and returns
  the row exactly when the row is there and pending, it leaves every other row, and a second
  claim of the same step then gets nothing.
\<close>

theorem claim_is_compare_and_set:
  assumes "sql_engine ex step_fits (steps_ok docs)" and "steps_inv docs t"
  shows "\<exists>t'. claim ex now d s t = (Inr (fst (cas pending (claimed now) (d, s) (steps_map t))), t')
    \<and> steps_map t' = snd (cas pending (claimed now) (d, s) (steps_map t))
    \<and> steps_inv docs t' \<and> fst (claim ex now' d s t') = Inr None"
proof -
  obtain t' where res: "claim ex now d s t = (Inr (fst (cas pending (claimed now) (d, s) (steps_map t))), t')"
    and m: "steps_map t' = snd (cas pending (claimed now) (d, s) (steps_map t))"
    and inv: "steps_inv docs t'"
    by (rule claim_exec [OF assms])
  obtain t'' where "claim ex now' d s t' = (Inr (fst (cas pending (claimed now') (d, s) (steps_map t'))), t'')"
    by (rule claim_exec [OF assms(1) inv])
  then have "fst (claim ex now' d s t') = Inr None"
    by (auto simp: m cas_def pending_def claimed_def split: option.splits)
  with res m inv show ?thesis by blast
qed

lemma claim_is_compare_and_set_witness:
  "\<exists>t'. claim sample_engine 9 1 OCR sample_table =
      (Inr (Some (claimed 9 (new_step_row (sample_id OCR) 0 1 OCR 3))), t')"
  using claim_is_compare_and_set [OF step_engine.sql_engine_axioms sample_inv, of 9 1 OCR]
  by (auto simp: cas_def sample_table_def table_map_def pending_def step_key_def)

text \<open>
  \<open>mark_succeeded\<close> and \<open>mark_failed\<close> act on a running row only: they raise nothing but for a
  value that does not fit its column (and then change nothing), they replace and return the row
  exactly when it is running, leave every other row, and the row they leave is no longer running,
  so that it takes a single outcome.
\<close>

theorem outcome_recorded_once:
  assumes "sql_engine ex step_fits (steps_ok docs)" and "steps_inv docs t"
    and "(op, f) \<in> {(mark_succeeded ex now d s out dur m, succeeded now out dur m),
                    (mark_failed ex now d s c det, failed now c det)}"
  shows "(\<exists>e r. op t = (Inl e, t) \<and> steps_map t (d, s) = Some r \<and> running r \<and> \<not> step_fits (f r))
    \<or> (\<exists>t'. op t = (Inr (fst (cas running f (d, s) (steps_map t))), t')
         \<and> steps_map t' = snd (cas running f (d, s) (steps_map t)) \<and> steps_inv docs t'
         \<and> (\<forall>r. steps_map t' (d, s) = Some r \<longrightarrow> \<not> running r))"
proof -
  consider (ok) "op = mark_succeeded ex now d s out dur m" "f = succeeded now out dur m"
    | (bad) "op = mark_failed ex now d s c det" "f = failed now c det"
    using assms(3) by auto
  then show ?thesis
  proof cases
    case ok
    then show ?thesis
      by (rule_tac mark_succeeded_exec [OF assms(1,2), of now d s out dur m])
        (auto simp: cas_def running_def succeeded_def split: option.splits if_splits)
  next
    case bad
    then show ?thesis
      by (rule_tac mark_failed_exec [OF assms(1,2), of now d s c det])
        (auto simp: cas_def running_def failed_def split: option.splits if_splits)
  qed
qed

lemma outcome_recorded_once_witness:
  "\<exists>t'. fst (mark_succeeded sample_engine 4205 1 EXTRACT None None None sample_table) =
      Inr (Some (succeeded 4205 None None None (claimed 5 (new_step_row (sample_id EXTRACT) 0 1 EXTRACT 3))))
    \<and> ds_duration_ms (succeeded 4205 None None None (claimed 5 (new_step_row (sample_id EXTRACT) 0 1 EXTRACT 3))) = Some 4"
  using outcome_recorded_once [OF step_engine.sql_engine_axioms sample_inv,
      of "mark_succeeded sample_engine 4205 1 EXTRACT None None None" "succeeded 4205 None None None"
        4205 1 EXTRACT None None None None None]
  by (auto simp: cas_def sample_table_def table_map_def running_def step_key_def claimed_def
      new_step_row_def step_fits_def succeeded_def elapsed_ms_def)

text \<open>
  C26. \<open>reset_from\<close> raises nothing, returns the document's rows in pipeline order, sets the rows of
  the given step and of every later one back to pending with no attempt and no result, and
  leaves the earlier steps and every other document alone.
\<close>

theorem reset_from_resets_downstream:
  assumes "sql_engine ex step_fits (steps_ok docs)" and "steps_inv docs t"
  shows "\<exists>t'. reset_from ex now d s t = (Inr (rows_of d t'), t') \<and> steps_inv docs t'
    \<and> (\<forall>d' s'. steps_map t' (d', s') =
          (if d' = d \<and> s \<le> s' then map_option (reset now) (steps_map t (d', s'))
           else steps_map t (d', s')))"
  by (rule reset_from_exec [OF assms, of now d s]) (auto simp: reset_map_def)

lemma reset_from_resets_downstream_witness:
  "\<exists>t'. reset_from sample_engine 9 1 OCR sample_table = (Inr (rows_of 1 t'), t')
    \<and> map_option ds_status (steps_map t' (1, EXTRACT)) = Some PENDING
    \<and> steps_map t' (1, STORE) = steps_map sample_table (1, STORE)"
proof -
  obtain t' where "reset_from sample_engine 9 1 OCR sample_table = (Inr (rows_of 1 t'), t')"
    and "\<forall>d' s'. steps_map t' (d', s') = (if d' = 1 \<and> OCR \<le> s'
        then map_option (reset 9) (steps_map sample_table (d', s')) else steps_map sample_table (d', s'))"
    using reset_from_resets_downstream [OF step_engine.sql_engine_axioms sample_inv, of 9 1 OCR]
    by blast
  then show ?thesis
    by (simp add: less_eq_pipeline_step_def sample_table_def table_map_def step_key_def reset_def
        claimed_def new_step_row_def)
qed

text \<open>
  For a known document, a retry budget that fits its column and fresh row ids, \<open>ensure_steps\<close>
  returns the six steps of the document in pipeline order; rows that were there are untouched,
  the missing ones are inserted pending, and calling it again changes nothing.
\<close>

theorem ensure_steps_idempotent:
  assumes "sql_engine ex step_fits (steps_ok docs)" and "steps_inv docs t"
    and "d \<in> docs" and "int4 n" and "inj new_id" and "range new_id \<inter> ds_id ` set t = {}"
  shows "\<exists>t'. ensure_steps ex new_id now d n t = (Inr (rows_of d t'), t') \<and> steps_inv docs t'
    \<and> map ds_step (rows_of d t') = STEP_ORDER
    \<and> (\<forall>d' s'. steps_map t' (d', s') =
         (if d' = d \<and> steps_map t (d', s') = None then Some (new_step_row (new_id s') now d s' n)
          else steps_map t (d', s')))
    \<and> (\<exists>t''. ensure_steps ex new_id' now' d n t' = (Inr (rows_of d t'), t'')
         \<and> steps_map t'' = steps_map t')"
proof -
  obtain t' where res: "ensure_steps ex new_id now d n t = (Inr (rows_of d t'), t')"
    and m: "steps_map t' = ensure_map new_id now d n (steps_map t)" and inv: "steps_inv docs t'"
    by (rule ensure_steps_exec [OF assms(1,2), of new_id now d n]) (use missing_rows_ok [OF assms(2,3,5,6)] assms(4) in auto)
  obtain g where g: "\<And>s. steps_map t' (d, s) = Some (g s)" "\<And>s. ds_step (g s) = s"
    using ensure_map_row [OF assms(2), of new_id now d n] unfolding m by metis
  have order: "map ds_step (rows_of d t') = STEP_ORDER"
    by (simp add: rows_of_def List.map_filter_def g comp_def)
  have "(d, s) \<in> step_key ` set t'" for s
    using g(1) [of s] steps_map_Some [OF inv] by (force simp: step_key_def)
  then have "missing_rows new_id' now' d n t' = []"
    by (simp add: missing_rows_def step_values_def filter_empty_conv)
  moreover have same: "ensure_map new_id' now' d n (steps_map t') = steps_map t'"
    by (simp add: ensure_map_def fun_eq_iff g)
  ultimately have "\<exists>t''. ensure_steps ex new_id' now' d n t' = (Inr (rows_of d t'), t'')
         \<and> steps_map t'' = steps_map t'"
    by (rule_tac ensure_steps_exec [OF assms(1) inv, of new_id' now' d n])
      (use assms(4) inv in \<open>auto simp: rows_of_def\<close>)
  moreover have "\<forall>d' s'. steps_map t' (d', s') =
      (if d' = d \<and> steps_map t (d', s') = None then Some (new_step_row (new_id s') now d s' n)
       else steps_map t (d', s'))"
    by (simp add: m ensure_map_def)
  ultimately show ?thesis
    using res inv order by blast
qed

lemma ensure_steps_idempotent_witness:
  "\<exists>t'. fst (ensure_steps sample_engine (\<lambda>s. word_of_nat (20 + step_index s)) 8 1 3 sample_table)
      = Inr (rows_of 1 t') \<and> map ds_step (rows_of 1 t') = STEP_ORDER"
proof -
  have inj: "inj (\<lambda>s. word_of_nat (20 + step_index s) :: uuid)"
  proof (rule injI)
    fix a b :: pipeline_step
    assume "(word_of_nat (20 + step_index a) :: uuid) = word_of_nat (20 + step_index b)"
    then show "a = b" by (cases a; cases b) simp_all
  qed
  have "(word_of_nat (20 + step_index s) :: uuid) \<notin> ds_id ` set sample_table" for s
    by (cases s) (simp_all add: sample_table_def sample_id_def claimed_def new_step_row_def)
  then have fresh: "range (\<lambda>s. word_of_nat (20 + step_index s)) \<inter> ds_id ` set sample_table = {}"
    by auto
  show ?thesis
    using ensure_steps_idempotent [OF step_engine.sql_engine_axioms sample_inv _ _ inj fresh,
        of 1 3 8 sample_id 9] by (fastforce simp del: of_nat_add)
qed

text \<open>
  \<open>list_steps\<close> returns exactly the rows of the document, each once and in pipeline order,
  and changes nothing, whatever order the database returns them in.
\<close>

theorem list_steps_in_pipeline_order:
  assumes "sql_engine ex step_fits (steps_ok docs)" and "steps_ok docs t"
  shows "\<exists>rows. list_steps ex d t = (Inr rows, t)
    \<and> mset rows = mset (filter (\<lambda>r. ds_document_id r = d) t)
    \<and> sorted_wrt (\<lambda>a b. ds_step a < ds_step b) rows"
proof -
  obtain rs where sel: "ex (Select (\<lambda>r. ds_document_id r = d) no_order None 0) t = (Inr rs, t)"
    and rs: "mset rs = mset (filter (\<lambda>r. ds_document_id r = d) t)"
    using sql_engine.select_all [OF assms(1)] by blast
  have eq: "in_step_order rs = rows_of d t"
    unfolding rows_of_def using steps_ok_key [OF assms(2)] rs by (rule in_step_order_unique)
  have "map (\<lambda>r. step_index (ds_step r)) (rows_of d t)
      = map step_index (filter (\<lambda>s. steps_map t (d, s) \<noteq> None) STEP_ORDER)"
    unfolding rows_of_def
    by (rule map_filter_STEP_ORDER) (auto simp: table_map_Some [OF steps_ok_key [OF assms(2)]])
  moreover have "sorted_wrt (<) (map step_index (filter p STEP_ORDER))" for p
    by (simp add: STEP_ORDER_def)
  ultimately have "sorted_wrt (<) (map (\<lambda>r. step_index (ds_step r)) (rows_of d t))"
    by simp
  then have "sorted_wrt (\<lambda>a b. ds_step a < ds_step b) (rows_of d t)"
    by (simp only: sorted_wrt_map less_pipeline_step_def)
  moreover have "mset (in_step_order rs) = mset (filter (\<lambda>r. ds_document_id r = d) t)"
    using rs by (simp add: in_step_order_def)
  ultimately show ?thesis
    using sel by (auto simp: list_steps_def seqE_Inr eq)
qed

lemma list_steps_in_pipeline_order_witness:
  "\<exists>rows. list_steps sample_engine 1 sample_table = (Inr rows, sample_table)
    \<and> mset rows = mset sample_table \<and> sorted_wrt (\<lambda>a b. ds_step a < ds_step b) rows"
proof -
  have "filter (\<lambda>r. ds_document_id r = 1) sample_table = sample_table"
    by (simp add: sample_table_def claimed_def new_step_row_def)
  then show ?thesis
    using list_steps_in_pipeline_order [OF step_engine.sql_engine_axioms steps_inv_ok [OF sample_inv], of 1]
    by simp
qed

end
