(* ===== verification/Documents.thy ===== *)
theory Documents
  imports Sql Enums
begin

text \<open>
  Models \<open>src/ipa/db/repositories/document.py\<close>, the \<open>documents\<close> table and the \<open>DocumentPatch\<close>
  DTO: creating a document, reading it by id or by the digest of its bytes, applying a partial
  update, and listing. A row stands for the entity and for the DTO read from it.

  A confidence is a rational number: the decimal that \<open>Decimal(str(x))\<close> makes of a float, and
  what the \<open>numeric(4,3)\<close> column makes of that. The tags a row may refer to are the argument
  \<open>tags\<close>. A session's identity map is not modelled: \<open>get\<close> reads the row.
\<close>

section \<open>The table\<close>

record document_row =
  doc_id :: uuid
  doc_sha256 :: string
  doc_original_filename :: string
  doc_mime_type :: string
  doc_size_bytes :: int
  doc_blob_key :: string
  doc_page_count :: "int option"
  doc_tag_id :: "uuid option"
  doc_tag_version :: "int option"
  doc_status :: document_status
  doc_current_step :: "pipeline_step option"
  doc_document_confidence :: "rat option"
  doc_needs_review :: bool
  doc_title :: "string option"
  doc_source :: document_source
  doc_uploaded_by :: "string option"
  doc_trace_id :: "string option"
  doc_error_code :: "string option"
  doc_error_detail :: "string option"
  doc_meta :: json_dict
  doc_completed_at :: "timestamp option"
  doc_deleted_at :: "timestamp option"
  doc_created_at :: timestamp
  doc_updated_at :: timestamp

text \<open>A \<open>char(64)\<close> value is padded with blanks; a digest in hexadecimal has 64 characters.\<close>

definition char64 :: "string \<Rightarrow> string" where
  "char64 s = s @ replicate (64 - length s) CHR '' ''"

definition document_fits :: "document_row \<Rightarrow> bool" where
  "document_fits r \<longleftrightarrow>
     length (doc_sha256 r) \<le> 64 \<and> text_ok (doc_sha256 r) \<and> text_ok (doc_original_filename r)
     \<and> text_ok (doc_mime_type r) \<and> int8 (doc_size_bytes r) \<and> text_ok (doc_blob_key r)
     \<and> nullable int4 (doc_page_count r) \<and> nullable int4 (doc_tag_version r)
     \<and> nullable numeric_4_3_ok (doc_document_confidence r) \<and> nullable text_ok (doc_title r)
     \<and> nullable text_ok (doc_uploaded_by r) \<and> nullable text_ok (doc_trace_id r)
     \<and> nullable text_ok (doc_error_code r) \<and> nullable text_ok (doc_error_detail r)
     \<and> json_dict_ok (doc_meta r)"

text \<open>The primary key, the unique digest, and the reference to a tag.\<close>

definition documents_ok :: "uuid set \<Rightarrow> document_row list \<Rightarrow> bool" where
  "documents_ok tags t \<longleftrightarrow>
     distinct (map doc_id t) \<and> distinct (map doc_sha256 t)
     \<and> (\<forall>r \<in> set t. \<forall>tag. doc_tag_id r = Some tag \<longrightarrow> tag \<in> tags)"

section \<open>The repository\<close>

text \<open>
  The values \<open>create\<close> gives, and the column defaults for the others.
\<close>

record document_values =
  dv_sha256 :: string
  dv_original_filename :: string
  dv_mime_type :: string
  dv_size_bytes :: int
  dv_blob_key :: string
  dv_source :: document_source
  dv_uploaded_by :: "string option"
  dv_title :: "string option"
  dv_tag_id :: "uuid option"
  dv_trace_id :: "string option"
  dv_metadata :: "json_dict option"

definition new_document :: "uuid \<Rightarrow> timestamp \<Rightarrow> document_values \<Rightarrow> document_row" where
  "new_document i now v =
     \<lparr>doc_id = i, doc_sha256 = char64 (dv_sha256 v), doc_original_filename = dv_original_filename v,
      doc_mime_type = dv_mime_type v, doc_size_bytes = dv_size_bytes v, doc_blob_key = dv_blob_key v,
      doc_page_count = None, doc_tag_id = dv_tag_id v, doc_tag_version = None,
      doc_status = RECEIVED, doc_current_step = None, doc_document_confidence = None,
      doc_needs_review = True, doc_title = dv_title v, doc_source = dv_source v,
      doc_uploaded_by = dv_uploaded_by v, doc_trace_id = dv_trace_id v, doc_error_code = None,
      doc_error_detail = None, doc_meta = py_or (\<lambda>d. d = []) (dv_metadata v) [],
      doc_completed_at = None, doc_deleted_at = None, doc_created_at = now, doc_updated_at = now\<rparr>"

definition create_document ::
  "document_row engine \<Rightarrow> uuid \<Rightarrow> timestamp \<Rightarrow> document_values
     \<Rightarrow> document_row list \<Rightarrow> (py_exn + document_row) \<times> document_row list" where
  "create_document ex new_id now v = insert_row ex (\<lambda>r. doc_id r = new_id) (new_document new_id now v)"

definition get_document ::
  "document_row engine \<Rightarrow> uuid \<Rightarrow> document_row list \<Rightarrow> (py_exn + document_row option) \<times> document_row list"
where
  "get_document ex document_id = fetch_one ex (\<lambda>r. doc_id r = document_id)"

definition find_by_sha256 ::
  "document_row engine \<Rightarrow> string \<Rightarrow> document_row list
     \<Rightarrow> (py_exn + document_row option) \<times> document_row list" where
  "find_by_sha256 ex sha256 =
     fetch_one ex (\<lambda>r. doc_sha256 r = char64 sha256 \<and> doc_deleted_at r = None)"

text \<open>
  A patch: \<open>None\<close> is a field that was not set, \<open>Some None\<close> one that was set to null. The dump with
  \<open>exclude_unset\<close> keeps the set fields, and \<open>apply_patch\<close> assigns them.
\<close>

record document_patch =
  p_page_count :: "int option option"
  p_tag_id :: "uuid option option"
  p_tag_version :: "int option option"
  p_status :: "document_status option option"
  p_current_step :: "pipeline_step option option"
  p_document_confidence :: "rat option option"
  p_needs_review :: "bool option option"
  p_title :: "string option option"
  p_error_code :: "string option option"
  p_error_detail :: "string option option"
  p_completed_at :: "timestamp option option"

definition patched :: "'a option \<Rightarrow> 'a \<Rightarrow> 'a" where
  "patched p old = (case p of None \<Rightarrow> old | Some new \<Rightarrow> new)"

text \<open>For a column that is not nullable: setting it to null leaves the value (see \<open>null_violation\<close>).\<close>

definition patched_not_null :: "'a option option \<Rightarrow> 'a \<Rightarrow> 'a" where
  "patched_not_null p old = (case p of Some (Some new) \<Rightarrow> new | _ \<Rightarrow> old)"

definition null_violation :: "document_patch \<Rightarrow> bool" where
  "null_violation p \<longleftrightarrow> p_status p = Some None \<or> p_needs_review p = Some None"

definition apply_patch :: "document_patch \<Rightarrow> document_row \<Rightarrow> document_row" where
  "apply_patch p r =
     r\<lparr>doc_page_count := patched (p_page_count p) (doc_page_count r),
       doc_tag_id := patched (p_tag_id p) (doc_tag_id r),
       doc_tag_version := patched (p_tag_version p) (doc_tag_version r),
       doc_status := patched_not_null (p_status p) (doc_status r),
       doc_current_step := patched (p_current_step p) (doc_current_step r),
       doc_document_confidence := patched (p_document_confidence p) (doc_document_confidence r),
       doc_needs_review := patched_not_null (p_needs_review p) (doc_needs_review r),
       doc_title := patched (p_title p) (doc_title r),
       doc_error_code := patched (p_error_code p) (doc_error_code r),
       doc_error_detail := patched (p_error_detail p) (doc_error_detail r),
       doc_completed_at := patched (p_completed_at p) (doc_completed_at r)\<rparr>"

text \<open>The row the UPDATE writes: the confidence rounded to its scale, and \<open>onupdate\<close>.\<close>

definition stored_patch :: "timestamp \<Rightarrow> document_patch \<Rightarrow> document_row \<Rightarrow> document_row" where
  "stored_patch now p r =
     (apply_patch p r)
       \<lparr>doc_document_confidence :=
          patched (map_option (map_option numeric_4_3) (p_document_confidence p))
            (doc_document_confidence r),
        doc_updated_at := now\<rparr>"

text \<open>
  \<open>patch\<close>. The flush issues an UPDATE only when an assignment changed the entity; a null in a
  column that is not nullable is refused by the database.
\<close>

definition patch_document ::
  "document_row engine \<Rightarrow> timestamp \<Rightarrow> uuid \<Rightarrow> document_patch
     \<Rightarrow> document_row list \<Rightarrow> (py_exn + document_row option) \<times> document_row list" where
  "patch_document ex now document_id p =
     seqE (get_document ex document_id) (\<lambda>entity.
       case entity of
         None \<Rightarrow> retE None
       | Some r \<Rightarrow>
           if null_violation p then
             raiseE (if document_fits (stored_patch now p r)
                     then IntegrityError ''null value in column''
                     else DBAPIError ''value out of range'')
           else
             seqE (if apply_patch p r = r then retE []
                   else ex (Update (\<lambda>x. doc_id x = document_id) (stored_patch now p)))
               (\<lambda>_. seqE (refresh ex (\<lambda>x. doc_id x = document_id)) (\<lambda>x. retE (Some x))))"

text \<open>The where-clause and the ordering of \<open>list_documents\<close>.\<close>

definition document_matches ::
  "document_status option \<Rightarrow> bool option \<Rightarrow> uuid option \<Rightarrow> document_row \<Rightarrow> bool" where
  "document_matches status needs_review tag_id r \<longleftrightarrow>
     doc_deleted_at r = None
     \<and> (case status of None \<Rightarrow> True | Some s \<Rightarrow> doc_status r = s)
     \<and> (case needs_review of None \<Rightarrow> True | Some b \<Rightarrow> doc_needs_review r = b)
     \<and> (case tag_id of None \<Rightarrow> True | Some i \<Rightarrow> doc_tag_id r = Some i)"

definition list_documents ::
  "document_row engine \<Rightarrow> document_status option \<Rightarrow> bool option \<Rightarrow> uuid option \<Rightarrow> int \<Rightarrow> int
     \<Rightarrow> document_row list \<Rightarrow> (py_exn + document_row list) \<times> document_row list" where
  "list_documents ex status needs_review tag_id limit offset =
     ex (Select (document_matches status needs_review tag_id)
           (\<lambda>a b. doc_created_at b \<le> doc_created_at a) (Some limit) offset)"

section \<open>Lemmas\<close>

lemma documents_ok_perm: "mset t' = mset t \<Longrightarrow> documents_ok tags t \<Longrightarrow> documents_ok tags t'"
  unfolding documents_ok_def by (metis distinct_map_mset set_mset_mset)

interpretation document_engine:
  sql_engine "pg_execute document_fits (documents_ok tags)" document_fits "documents_ok tags" for tags
  by (rule pg_execute_sql_engine) (rule documents_ok_perm)

lemma documents_ok_id: "documents_ok tags t \<Longrightarrow> distinct (map doc_id t)"
  by (simp add: documents_ok_def)

lemma documents_ok_sha: "documents_ok tags t \<Longrightarrow> distinct (map doc_sha256 t)"
  by (simp add: documents_ok_def)

lemma documents_ok_snoc:
  "documents_ok tags (t @ [n]) \<longleftrightarrow>
     documents_ok tags t \<and> doc_id n \<notin> doc_id ` set t \<and> doc_sha256 n \<notin> doc_sha256 ` set t
     \<and> (\<forall>tag. doc_tag_id n = Some tag \<longrightarrow> tag \<in> tags)"
  by (auto simp: documents_ok_def)

lemma new_document_simps [simp]:
  "doc_id (new_document i now v) = i" "doc_sha256 (new_document i now v) = char64 (dv_sha256 v)"
  "doc_deleted_at (new_document i now v) = None" "doc_tag_id (new_document i now v) = dv_tag_id v"
  by (simp_all add: new_document_def)

abbreviation documents_map :: "document_row list \<Rightarrow> uuid \<Rightarrow> document_row option" where
  "documents_map t \<equiv> table_map doc_id t"

lemma get_document_exec:
  assumes eng: "sql_engine ex document_fits (documents_ok tags)" and ok: "documents_ok tags t"
  shows "get_document ex i t = (Inr (documents_map t i), t)"
proof -
  have "doc_id r = i" if "documents_map t i = Some r" for r
    using that by (simp add: table_map_Some [OF documents_ok_id [OF ok]])
  then show ?thesis
    using sql_engine.fetch_one_key [OF eng documents_ok_id [OF ok], of "\<lambda>r. doc_id r = i" i]
    by (auto simp: get_document_def split: option.splits)
qed

lemma find_by_sha256_exec:
  assumes eng: "sql_engine ex document_fits (documents_ok tags)" and ok: "documents_ok tags t"
  shows "find_by_sha256 ex s t =
    (Inr (case table_map doc_sha256 t (char64 s) of
            None \<Rightarrow> None | Some r \<Rightarrow> if doc_deleted_at r = None then Some r else None), t)"
proof -
  have "doc_sha256 r = char64 s" if "table_map doc_sha256 t (char64 s) = Some r" for r
    using that by (simp add: table_map_Some [OF documents_ok_sha [OF ok]])
  then show ?thesis
    using sql_engine.fetch_one_key [OF eng documents_ok_sha [OF ok],
        of "\<lambda>r. doc_sha256 r = char64 s \<and> doc_deleted_at r = None" "char64 s"]
    by (auto simp: find_by_sha256_def split: option.splits)
qed

lemma create_document_cases:
  assumes eng: "sql_engine ex document_fits (documents_ok tags)" and ok: "documents_ok tags t"
  obtains (created) t' where "document_fits (new_document i now v)"
      "documents_ok tags (t @ [new_document i now v])"
      "create_document ex i now v t = (Inr (new_document i now v), t')"
      "mset t' = mset (t @ [new_document i now v])" "documents_ok tags t'"
  | (range) m where "\<not> document_fits (new_document i now v)"
      "create_document ex i now v t = (Inl (DBAPIError m), t)"
  | (violation) m where "document_fits (new_document i now v)"
      "\<not> documents_ok tags (t @ [new_document i now v])"
      "create_document ex i now v t = (Inl (IntegrityError m), t)"
proof -
  have d: "distinct (map doc_id (t @ [new_document i now v]))"
    if "documents_ok tags (t @ [new_document i now v])"
    using that by (rule documents_ok_id)
  show thesis
    by (rule sql_engine.insert_row_cases [OF eng ok d, of "\<lambda>r. doc_id r = i"])
      (use created range violation in \<open>auto simp: create_document_def\<close>)
qed

lemma stored_patch_simps [simp]:
  "doc_id (stored_patch now p r) = doc_id r" "doc_sha256 (stored_patch now p r) = doc_sha256 r"
  "doc_tag_id (stored_patch now p r) = patched (p_tag_id p) (doc_tag_id r)"
  by (simp_all add: stored_patch_def apply_patch_def)

lemma patched_idem [simp]:
  "patched q (patched q x) = patched q x"
  "patched_not_null q' (patched_not_null q' y) = patched_not_null q' y"
  by (simp_all add: patched_def patched_not_null_def split: option.splits)

text \<open>Whether the database takes the patched row.\<close>

definition patch_accepted :: "uuid set \<Rightarrow> timestamp \<Rightarrow> document_patch \<Rightarrow> document_row \<Rightarrow> bool" where
  "patch_accepted tags now p r \<longleftrightarrow>
     \<not> null_violation p \<and> document_fits (stored_patch now p r)
     \<and> (\<forall>tag. patched (p_tag_id p) (doc_tag_id r) = Some tag \<longrightarrow> tag \<in> tags)"

lemma documents_ok_patch:
  assumes ok: "documents_ok tags t" and r: "documents_map t i = Some r"
  shows "documents_ok tags (apply_update (\<lambda>x. doc_id x = i) (stored_patch now p) t) \<longleftrightarrow>
    (\<forall>tag. patched (p_tag_id p) (doc_tag_id r) = Some tag \<longrightarrow> tag \<in> tags)"
proof -
  let ?u = "apply_update (\<lambda>x. doc_id x = i) (stored_patch now p) t"
  have keys: "map doc_id ?u = map doc_id t" "map doc_sha256 ?u = map doc_sha256 t"
    by (simp_all add: map_key_update)
  have r': "r \<in> set t" "doc_id r = i" using r by (simp_all add: table_map_Some [OF documents_ok_id [OF ok]])
  have only: "x = r" if "x \<in> set t" "doc_id x = i" for x
    using that r' documents_ok_id [OF ok] by (auto dest: distinct_key_inj)
  have "set ?u = insert (stored_patch now p r) (set t - {r})"
  proof (intro equalityI subsetI)
    fix y assume "y \<in> set ?u"
    then obtain x where x: "x \<in> set t" "y = (if doc_id x = i then stored_patch now p x else x)"
      by (auto simp: apply_update_def)
    then show "y \<in> insert (stored_patch now p r) (set t - {r})"
      using only [of x] r'(2) by (cases "doc_id x = i") auto
  next
    fix y assume "y \<in> insert (stored_patch now p r) (set t - {r})"
    then show "y \<in> set ?u"
    proof
      assume "y = stored_patch now p r"
      with r' show ?thesis by (auto simp: apply_update_def intro: rev_image_eqI)
    next
      assume y: "y \<in> set t - {r}"
      then have "doc_id y \<noteq> i" using only by blast
      with y show ?thesis by (auto simp: apply_update_def intro: rev_image_eqI)
    qed
  qed
  then show ?thesis
    using ok unfolding documents_ok_def keys by auto
qed

lemma refresh_document:
  assumes "sql_engine ex document_fits (documents_ok tags)" and "documents_ok tags t"
    and "documents_map t i = Some r"
  shows "refresh ex (\<lambda>x. doc_id x = i) t = (Inr r, t)"
proof (rule sql_engine.refresh_key [OF assms(1) documents_ok_id [OF assms(2)] _ assms(3)])
  show "doc_id r = i" using assms(3) by (simp add: table_map_Some [OF documents_ok_id [OF assms(2)]])
qed

text \<open>The UPDATE of a patch that changes something.\<close>

lemma stored_update_cases:
  assumes eng: "sql_engine ex document_fits (documents_ok tags)" and ok: "documents_ok tags t"
    and row: "documents_map t i = Some r" and nn: "\<not> null_violation p"
  obtains (taken) rs t' where "ex (Update (\<lambda>r. doc_id r = i) (stored_patch now p)) t = (Inr rs, t')"
      "documents_map t' = (documents_map t)(i \<mapsto> stored_patch now p r)" "documents_ok tags t'"
      "set t' = set (apply_update (\<lambda>x. doc_id x = i) (stored_patch now p) t)" "patch_accepted tags now p r"
  | (refused) e where "ex (Update (\<lambda>r. doc_id r = i) (stored_patch now p)) t = (Inl e, t)"
      "\<not> patch_accepted tags now p r"
proof -
  let ?p = "\<lambda>r. doc_id r = i" and ?f = "stored_patch now p"
  have keep: "doc_id (?f x) = i" if "doc_id x = i" for x using that by simp
  have acc: "patch_accepted tags now p r \<longleftrightarrow>
      (\<forall>r. documents_map t i = Some r \<longrightarrow> document_fits (?f r)) \<and> documents_ok tags (apply_update ?p ?f t)"
    using documents_ok_patch [OF ok row, of now p] row nn by (simp add: patch_accepted_def)
  show thesis
  proof (rule sql_engine.update_key_cases [OF eng ok documents_ok_id [OF ok] keep])
    fix e assume "ex (Update ?p ?f) t = (Inl e, t)"
      and "\<not> ((\<forall>r. documents_map t i = Some r \<longrightarrow> document_fits (?f r)) \<and> documents_ok tags (apply_update ?p ?f t))"
    then show thesis using refused acc by blast
  next
    fix rs t' assume ex: "ex (Update ?p ?f) t = (Inr rs, t')"
      and m: "documents_map t' = snd (cas (\<lambda>_. True) ?f i (documents_map t))" and ok': "documents_ok tags t'"
      and t': "mset t' = mset (apply_update ?p ?f t)"
      and fit: "(\<forall>r. documents_map t i = Some r \<longrightarrow> document_fits (?f r)) \<and> documents_ok tags (apply_update ?p ?f t)"
    have "documents_map t' = (documents_map t)(i \<mapsto> ?f r)" using m row by (simp add: cas_def)
    moreover have "set t' = set (apply_update ?p ?f t)" using t' by (metis set_mset_mset)
    ultimately show thesis using taken [OF ex _ ok'] fit acc by blast
  qed
qed

lemma patch_document_cases:
  assumes eng: "sql_engine ex document_fits (documents_ok tags)" and ok: "documents_ok tags t"
  obtains (missing) "documents_map t i = None" "patch_document ex now i p t = (Inr None, t)"
  | (unchanged) r where "documents_map t i = Some r" "\<not> null_violation p" "apply_patch p r = r"
      "patch_document ex now i p t = (Inr (Some r), t)"
  | (updated) r t' where "documents_map t i = Some r" "apply_patch p r \<noteq> r"
      "patch_accepted tags now p r"
      "patch_document ex now i p t = (Inr (Some (stored_patch now p r)), t')"
      "documents_map t' = (documents_map t)(i \<mapsto> stored_patch now p r)" "documents_ok tags t'"
      "set t' = set (apply_update (\<lambda>x. doc_id x = i) (stored_patch now p) t)"
  | (refused) r e where "documents_map t i = Some r" "\<not> patch_accepted tags now p r"
      "null_violation p \<or> apply_patch p r \<noteq> r"
      "patch_document ex now i p t = (Inl e, t)"
proof (cases "documents_map t i")
  case None
  then show thesis
    using missing by (simp add: patch_document_def seqE_def get_document_exec [OF eng ok])
next
  case (Some r)
  note get = get_document_exec [OF eng ok, of i]
  show thesis
  proof (cases "null_violation p")
    case True
    then show thesis
      using refused [OF Some] Some get True
      by (simp add: patch_document_def seqE_def patch_accepted_def)
  next
    case nn: False
    show thesis
    proof (cases "apply_patch p r = r")
      case True
      then show thesis
        using unchanged [OF Some nn True] nn Some get refresh_document [OF eng ok Some]
        by (simp add: patch_document_def seqE_def)
    next
      case False
      note run = patch_document_def seqE_def get Some nn False
      show thesis
      proof (rule stored_update_cases [OF eng ok Some nn, of now])
        fix e assume "ex (Update (\<lambda>r. doc_id r = i) (stored_patch now p)) t = (Inl e, t)"
          and "\<not> patch_accepted tags now p r"
        then show thesis using refused [OF Some, of e] False by (simp add: run)
      next
        fix rs t' assume ex: "ex (Update (\<lambda>r. doc_id r = i) (stored_patch now p)) t = (Inr rs, t')"
          and m: "documents_map t' = (documents_map t)(i \<mapsto> stored_patch now p r)" and ok': "documents_ok tags t'"
          and set': "set t' = set (apply_update (\<lambda>x. doc_id x = i) (stored_patch now p) t)"
          and acc: "patch_accepted tags now p r"
        have "patch_document ex now i p t = (Inr (Some (stored_patch now p r)), t')"
          using refresh_document [OF eng ok', of i] m ex by (simp add: run)
        then show thesis using updated [OF Some False acc] m ok' set' by blast
      qed
    qed
  qed
qed

lemma patch_nothing:
  assumes "sql_engine ex document_fits (documents_ok tags)" and "documents_ok tags t"
    and "documents_map t i = Some r" and "\<not> null_violation p" and "apply_patch p r = r"
  shows "patch_document ex now i p t = (Inr (Some r), t)"
  using assms(3-5) refresh_document [OF assms(1-3)] get_document_exec [OF assms(1,2), of i]
  by (simp add: patch_document_def seqE_def)

section \<open>Runs\<close>

datatype document_op =
    CreateDocument uuid timestamp document_values
  | PatchDocument timestamp uuid document_patch

text \<open>A call, for its effect on the table.\<close>

fun document_step :: "document_row engine \<Rightarrow> document_op \<Rightarrow> document_row list \<Rightarrow> document_row list" where
  "document_step ex (CreateDocument i now v) t = snd (create_document ex i now v t)"
| "document_step ex (PatchDocument now i p) t = snd (patch_document ex now i p t)"

definition document_run :: "document_row engine \<Rightarrow> document_op list \<Rightarrow> document_row list \<Rightarrow> document_row list" where
  "document_run ex ops t = fold (document_step ex) ops t"

text \<open>The columns that say where a document came from, and its deletion mark.\<close>

definition provenance ::
  "document_row \<Rightarrow> string \<times> string \<times> string \<times> int \<times> string \<times> document_source \<times> string option
     \<times> string option \<times> json_dict \<times> timestamp \<times> timestamp option" where
  "provenance r =
     (doc_sha256 r, doc_original_filename r, doc_mime_type r, doc_size_bytes r, doc_blob_key r,
      doc_source r, doc_uploaded_by r, doc_trace_id r, doc_meta r, doc_created_at r, doc_deleted_at r)"

lemma provenance_stored_patch [simp]: "provenance (stored_patch now p r) = provenance r"
  by (simp add: provenance_def stored_patch_def apply_patch_def)

lemma document_step_keeps:
  assumes eng: "sql_engine ex document_fits (documents_ok tags)" and ok: "documents_ok tags t"
  shows "documents_ok tags (document_step ex op t)
    \<and> (\<forall>i r. documents_map t i = Some r \<longrightarrow>
          (\<exists>r'. documents_map (document_step ex op t) i = Some r' \<and> provenance r' = provenance r))"
proof (cases op)
  case (CreateDocument i now v)
  show ?thesis
  proof (rule create_document_cases [OF eng ok, of i now v])
    fix t' assume ok1: "documents_ok tags (t @ [new_document i now v])"
      and ex: "create_document ex i now v t = (Inr (new_document i now v), t')"
      and t': "mset t' = mset (t @ [new_document i now v])" "documents_ok tags t'"
    have "documents_map t' = documents_map (t @ [new_document i now v])"
      using documents_ok_id [OF ok1] t'(1) by (rule table_map_perm)
    then have "documents_map t' j = Some r" if "documents_map t j = Some r" for j r
      using that by (simp add: table_map_append)
    with ex t'(2) show ?thesis by (auto simp: CreateDocument)
  qed (use ok in \<open>auto simp: CreateDocument\<close>)
next
  case (PatchDocument now i p)
  show ?thesis
    by (rule patch_document_cases [OF eng ok, of i now p]) (use ok in \<open>auto simp: PatchDocument\<close>)
qed

section \<open>Properties\<close>

text \<open>A small table: one live document and one that was soft-deleted.\<close>

definition sample_values :: "string \<Rightarrow> document_values" where
  "sample_values sha =
     \<lparr>dv_sha256 = sha, dv_original_filename = ''invoice.pdf'', dv_mime_type = ''application/pdf'',
      dv_size_bytes = 1024, dv_blob_key = ''originals/aa'', dv_source = UI, dv_uploaded_by = None,
      dv_title = None, dv_tag_id = None, dv_trace_id = None, dv_metadata = None\<rparr>"

definition sample_documents :: "document_row list" where
  "sample_documents =
     [new_document 1 0 (sample_values (replicate 64 CHR ''a'')),
      (new_document 2 0 (sample_values (replicate 64 CHR ''b'')))\<lparr>doc_deleted_at := Some 5\<rparr>]"

abbreviation sample_document_engine :: "document_row engine" where
  "sample_document_engine \<equiv> pg_execute document_fits (documents_ok {})"

lemma char64_digest [simp]: "length s = 64 \<Longrightarrow> char64 s = s"
  by (simp add: char64_def)

lemma replicate_64_inj [simp]: "replicate 64 a = replicate 64 b \<longleftrightarrow> a = b"
  by (simp add: replicate_eq_replicate)

lemma sample_documents_ok: "documents_ok {} sample_documents"
  by (simp add: documents_ok_def sample_documents_def sample_values_def)

text \<open>
  A document created with values that fit their columns, a fresh id, a digest no row has and
  a known tag is there afterwards: \<open>create\<close> returns it with the column defaults, it is the one
  row added, and both \<open>get\<close> and \<open>find_by_sha256\<close> then return it.
\<close>

theorem created_document_is_found:
  assumes "sql_engine ex document_fits (documents_ok tags)" and "documents_ok tags t"
    and "document_fits (new_document i now v)" and "documents_map t i = None"
    and "table_map doc_sha256 t (char64 (dv_sha256 v)) = None"
    and "\<forall>tag. dv_tag_id v = Some tag \<longrightarrow> tag \<in> tags"
  shows "\<exists>t'. create_document ex i now v t = (Inr (new_document i now v), t')
    \<and> mset t' = mset (t @ [new_document i now v]) \<and> documents_ok tags t'
    \<and> get_document ex i t' = (Inr (Some (new_document i now v)), t')
    \<and> find_by_sha256 ex (dv_sha256 v) t' = (Inr (Some (new_document i now v)), t')"
proof -
  let ?n = "new_document i now v"
  have ok1: "documents_ok tags (t @ [?n])"
    using assms(2,4-6) by (simp add: documents_ok_snoc table_map_None)
  show ?thesis
  proof (rule create_document_cases [OF assms(1,2), of i now v])
    fix t' assume ex: "create_document ex i now v t = (Inr ?n, t')"
      and t': "mset t' = mset (t @ [?n])" and ok': "documents_ok tags t'"
    have n: "?n \<in> set t'" using t' by (metis in_set_conv_decomp set_mset_mset)
    then have "documents_map t' i = Some ?n"
      and "table_map doc_sha256 t' (char64 (dv_sha256 v)) = Some ?n"
      using table_map_SomeI [OF documents_ok_id [OF ok'] n]
        table_map_SomeI [OF documents_ok_sha [OF ok'] n] by simp_all
    with ex t' ok' show ?thesis
      by (simp add: get_document_exec [OF assms(1) ok'] find_by_sha256_exec [OF assms(1) ok'])
  qed (use assms(3) ok1 in simp_all)
qed

lemma created_document_is_found_witness:
  "\<exists>t'. find_by_sha256 sample_document_engine (replicate 64 CHR ''c'') t' =
      (Inr (Some (new_document 3 9 (sample_values (replicate 64 CHR ''c'')))), t') \<and> length t' = 3"
proof -
  have "document_fits (new_document 3 9 (sample_values (replicate 64 CHR ''c'')))"
    by (simp add: document_fits_def new_document_def sample_values_def text_ok_def int8_def
        list_all_iff)
  moreover have "documents_map sample_documents 3 = None"
    and "table_map doc_sha256 sample_documents (char64 (replicate 64 CHR ''c'')) = None"
    by (simp_all add: sample_documents_def sample_values_def table_map_def)
  ultimately obtain t' where t': "mset t' = mset (sample_documents
        @ [new_document 3 9 (sample_values (replicate 64 CHR ''c''))])"
    and "find_by_sha256 sample_document_engine (replicate 64 CHR ''c'') t' =
      (Inr (Some (new_document 3 9 (sample_values (replicate 64 CHR ''c'')))), t')"
    using created_document_is_found [OF document_engine.sql_engine_axioms sample_documents_ok,
        of 3 9 "sample_values (replicate 64 CHR ''c'')"] by (auto simp: sample_values_def)
  moreover have "length t' = 3"
    using mset_eq_length [OF t'] by (simp add: sample_documents_def)
  ultimately show ?thesis by blast
qed

text \<open>
  C33. A soft-deleted document still holds its digest: uploading the same bytes again is not
  found as a duplicate by \<open>find_by_sha256\<close>, and creating the document is then refused with the
  database's integrity error, which nothing maps to a conflict; the table is unchanged.
\<close>

theorem soft_deleted_digest_blocks_upload:
  assumes "sql_engine ex document_fits (documents_ok tags)" and "documents_ok tags t"
    and "r \<in> set t" and "doc_deleted_at r \<noteq> None" and "doc_sha256 r = char64 (dv_sha256 v)"
    and "document_fits (new_document i now v)"
  shows "find_by_sha256 ex (dv_sha256 v) t = (Inr None, t)
    \<and> (\<exists>m. create_document ex i now v t = (Inl (IntegrityError m), t))"
proof
  have "table_map doc_sha256 t (char64 (dv_sha256 v)) = Some r"
    by (rule table_map_SomeI [OF documents_ok_sha [OF assms(2)] assms(3,5)])
  then show "find_by_sha256 ex (dv_sha256 v) t = (Inr None, t)"
    using assms(4) by (simp add: find_by_sha256_exec [OF assms(1,2)])
  have "\<not> documents_ok tags (t @ [new_document i now v])"
    using assms(3) by (simp add: documents_ok_snoc assms(5) [symmetric])
  then show "\<exists>m. create_document ex i now v t = (Inl (IntegrityError m), t)"
    by (rule_tac create_document_cases [OF assms(1,2), of i now v]) (use assms(6) in auto)
qed

lemma soft_deleted_digest_blocks_upload_witness:
  "\<exists>m. create_document sample_document_engine 7 9 (sample_values (replicate 64 CHR ''b''))
      sample_documents = (Inl (IntegrityError m), sample_documents)"
proof -
  have "document_fits (new_document 7 9 (sample_values (replicate 64 CHR ''b'')))"
    by (simp add: document_fits_def new_document_def sample_values_def text_ok_def int8_def
        list_all_iff)
  then show ?thesis
    using soft_deleted_digest_blocks_upload [OF document_engine.sql_engine_axioms sample_documents_ok,
        of "(new_document 2 0 (sample_values (replicate 64 CHR ''b'')))\<lparr>doc_deleted_at := Some 5\<rparr>"
          "sample_values (replicate 64 CHR ''b'')" 7 9]
    by (simp add: sample_documents_def sample_values_def)
qed


definition empty_patch :: document_patch where
  "empty_patch =
     \<lparr>p_page_count = None, p_tag_id = None, p_tag_version = None, p_status = None,
      p_current_step = None, p_document_confidence = None, p_needs_review = None, p_title = None,
      p_error_code = None, p_error_detail = None, p_completed_at = None\<rparr>"


text \<open>
  Applying the same patch again changes nothing, not even \<open>updated_at\<close>, when the confidence it
  sets has at most three decimals; with more decimals the stored value differs from the given one.
\<close>

theorem patch_document_idempotent:
  assumes "sql_engine ex document_fits (documents_ok tags)" and "documents_ok tags t"
    and "patch_document ex now i p t = (Inr (Some r'), t')"
    and "\<forall>c. p_document_confidence p = Some (Some c) \<longrightarrow> numeric_4_3 c = c"
  shows "patch_document ex now' i p t' = (Inr (Some r'), t')"
proof -
  let ?c = "p_document_confidence p"
  have "patched ?c (patched (map_option (map_option numeric_4_3) ?c) x)
      = patched (map_option (map_option numeric_4_3) ?c) x" for x
    using assms(4) by (cases ?c; cases "the ?c") (simp_all add: patched_def)
  then have fix_point: "apply_patch p (stored_patch now p r) = stored_patch now p r" for r
    by (simp add: apply_patch_def stored_patch_def)
  show ?thesis
  proof (rule patch_document_cases [OF assms(1,2), of i now p])
    fix r assume "documents_map t i = Some r" "\<not> null_violation p" "apply_patch p r = r"
      and "patch_document ex now i p t = (Inr (Some r), t)"
    with assms(3) show ?thesis using patch_nothing [OF assms(1,2)] by simp
  next
    fix r t1 assume "patch_accepted tags now p r" "documents_ok tags t1"
      and "patch_document ex now i p t = (Inr (Some (stored_patch now p r)), t1)"
      and "documents_map t1 = (documents_map t)(i \<mapsto> stored_patch now p r)"
    with assms(3) show ?thesis
      using patch_nothing [OF assms(1), of t1 i "stored_patch now p r" p now'] fix_point [of r]
      by (simp add: patch_accepted_def)
  qed (use assms(3) in simp_all)
qed

lemma patch_document_idempotent_witness:
  "\<exists>r' t'. patch_document sample_document_engine 9 1 (empty_patch\<lparr>p_title := Some (Some ''A'')\<rparr>) t' =
      (Inr (Some r'), t') \<and> doc_title r' = Some ''A''"
proof -
  let ?p = "empty_patch\<lparr>p_title := Some (Some ''A'')\<rparr>"
  let ?r = "hd sample_documents"
  have r: "documents_map sample_documents 1 = Some ?r"
    by (simp add: sample_documents_def table_map_def)
  have "document_fits (stored_patch 8 ?p ?r)"
    by (simp add: document_fits_def stored_patch_def apply_patch_def empty_patch_def patched_def
        patched_not_null_def sample_documents_def new_document_def sample_values_def text_ok_def
        int8_def list_all_iff)
  then have acc: "patch_accepted {} 8 ?p ?r"
    by (simp add: patch_accepted_def null_violation_def empty_patch_def patched_def
        sample_documents_def sample_values_def)
  obtain t' where run: "patch_document sample_document_engine 8 1 ?p sample_documents =
      (Inr (Some (stored_patch 8 ?p ?r)), t')"
  proof (rule patch_document_cases [OF document_engine.sql_engine_axioms sample_documents_ok,
        where i = 1 and now = 8 and p = ?p])
    fix r' assume "documents_map sample_documents 1 = Some r'" "apply_patch ?p r' = r'"
    with r have "doc_title (apply_patch ?p ?r) = doc_title ?r" by simp
    then show thesis
      by (simp add: apply_patch_def patched_def sample_documents_def new_document_def
          sample_values_def)
  qed (use r acc that in auto)
  have "doc_title (stored_patch 8 ?p ?r) = Some ''A''"
    by (simp add: stored_patch_def apply_patch_def patched_def)
  moreover have "patch_document sample_document_engine 9 1 ?p t' = (Inr (Some (stored_patch 8 ?p ?r)), t')"
    by (rule patch_document_idempotent [OF document_engine.sql_engine_axioms sample_documents_ok run])
      (simp add: empty_patch_def)
  ultimately show ?thesis by blast
qed

text \<open>
  \<open>list_documents\<close> with a limit and offset the database accepts returns a page of the live
  documents that match every given filter, newest first: the page is cut from an ordering of all
  the matching rows by descending creation time, so it has the limit's length or what is left
  after the offset; nothing is changed. A negative limit or offset raises.
\<close>

theorem list_documents_pages:
  assumes "sql_engine ex document_fits (documents_ok tags)"
  shows "if 0 \<le> limit \<and> int8 limit \<and> 0 \<le> offset \<and> int8 offset then
      \<exists>page before after. list_documents ex status needs_review tag_id limit offset t = (Inr page, t)
        \<and> mset (before @ page @ after) = mset (filter (document_matches status needs_review tag_id) t)
        \<and> sorted_wrt (\<lambda>a b. doc_created_at b \<le> doc_created_at a) (before @ page @ after)
        \<and> length page = min (nat limit)
            (length (filter (document_matches status needs_review tag_id) t) - nat offset)
    else \<exists>m. list_documents ex status needs_review tag_id limit offset t = (Inl (DBAPIError m), t)"
proof (cases "window_ok (Some limit) offset")
  case True
  let ?p = "document_matches status needs_review tag_id"
  obtain s where ex: "list_documents ex status needs_review tag_id limit offset t =
      (Inr (window (Some limit) offset s), t)"
    and s: "mset s = mset (filter ?p t)" "sorted_wrt (\<lambda>a b. doc_created_at b \<le> doc_created_at a) s"
    using sql_engine.select_by_desc [OF assms True, of ?p doc_created_at t]
    by (auto simp: list_documents_def)
  obtain before after where split: "s = before @ window (Some limit) offset s @ after"
    and len: "length (window (Some limit) offset s) = min (nat limit) (length s - nat offset)"
    by (rule window_page)
  have "length s = length (filter ?p t)" using s(1) by (rule mset_eq_length)
  then have "\<exists>page before after. list_documents ex status needs_review tag_id limit offset t = (Inr page, t)
        \<and> mset (before @ page @ after) = mset (filter ?p t)
        \<and> sorted_wrt (\<lambda>a b. doc_created_at b \<le> doc_created_at a) (before @ page @ after)
        \<and> length page = min (nat limit) (length (filter ?p t) - nat offset)"
    using ex s split len by (intro exI [of _ "window (Some limit) offset s"]
        exI [of _ before] exI [of _ after]) simp
  then show ?thesis using True by (simp add: window_ok_def)
next
  case False
  then show ?thesis
    using sql_engine.select_window [OF assms False] unfolding list_documents_def
    by (auto simp: window_ok_def)
qed

lemma list_documents_pages_witness:
  "\<exists>page. list_documents sample_document_engine (Some RECEIVED) None None 50 0 sample_documents
      = (Inr page, sample_documents) \<and> length page = 1"
  using list_documents_pages [OF document_engine.sql_engine_axioms, of 50 0 "{}" "Some RECEIVED" None None
      sample_documents]
  by (auto simp: int8_def document_matches_def sample_documents_def new_document_def)

text \<open>
  C34. Whatever sequence of creations and patches is run, in whatever order, the ids and digests
  stay unique, no document disappears, and none changes its digest, name, type, size, blob key,
  source, uploader, trace, metadata, creation time or deletion mark.
\<close>

theorem document_provenance_is_immutable:
  assumes "sql_engine ex document_fits (documents_ok tags)" and "documents_ok tags t"
  shows "documents_ok tags (document_run ex ops t)
    \<and> (\<forall>i r. documents_map t i = Some r \<longrightarrow>
          (\<exists>r'. documents_map (document_run ex ops t) i = Some r' \<and> provenance r' = provenance r))"
  using assms(2)
proof (induction ops arbitrary: t)
  case Nil
  then show ?case by (simp add: document_run_def)
next
  case (Cons op ops)
  have "document_run ex (op # ops) t = document_run ex ops (document_step ex op t)"
    by (simp add: document_run_def)
  then show ?case
    using Cons.IH [of "document_step ex op t"] document_step_keeps [OF assms(1) Cons.prems, of op]
    by (metis (no_types, lifting))
qed

lemma document_provenance_is_immutable_witness:
  "\<exists>r'. documents_map (document_run sample_document_engine [PatchDocument 9 1 empty_patch,
        CreateDocument 1 9 (sample_values [])] sample_documents) 1 = Some r'
      \<and> doc_sha256 r' = replicate 64 CHR ''a''"
proof -
  have "documents_map sample_documents 1 = Some (hd sample_documents)"
    by (simp add: sample_documents_def table_map_def)
  then obtain r' where "documents_map (document_run sample_document_engine [PatchDocument 9 1 empty_patch,
        CreateDocument 1 9 (sample_values [])] sample_documents) 1 = Some r'"
    and "provenance r' = provenance (hd sample_documents)"
    using document_provenance_is_immutable [OF document_engine.sql_engine_axioms sample_documents_ok]
    by blast
  then show ?thesis by (simp add: provenance_def sample_documents_def sample_values_def)
qed

end
