(* ===== verification/Extractions.thy ===== *)
theory Extractions
  imports Sql Enums Ids
begin

text \<open>
  Models \<open>src/ipa/db/repositories/extraction.py\<close> with the \<open>extraction_versions\<close> and
  \<open>validations\<close> tables: appending a version and making it the current one, reading versions,
  and recording review decisions.

  \<open>add\<close> is three statements. \<open>next_version\<close> and \<open>finish_add\<close> are its parts before and after the
  point where another transaction can get in between, so that a race is a sequence of them.
  The documents, tags, versions and users a row may refer to are arguments.
\<close>

section \<open>Extraction versions\<close>

record ev_row =
  ev_id :: uuid
  ev_document_id :: uuid
  ev_version :: int
  ev_tag_id :: uuid
  ev_tag_version :: int
  ev_source :: extraction_source
  ev_model :: "string option"
  ev_prompt_hash :: "string option"
  ev_document_confidence :: rat
  ev_mongo_id :: string
  ev_is_current :: bool
  ev_created_by :: "string option"
  ev_created_at :: timestamp

definition ev_key :: "ev_row \<Rightarrow> uuid \<times> int" where
  "ev_key r = (ev_document_id r, ev_version r)"

definition ev_fits :: "ev_row \<Rightarrow> bool" where
  "ev_fits r \<longleftrightarrow>
     int4 (ev_version r) \<and> int4 (ev_tag_version r) \<and> nullable text_ok (ev_model r)
     \<and> nullable text_ok (ev_prompt_hash r) \<and> numeric_4_3_ok (ev_document_confidence r)
     \<and> text_ok (ev_mongo_id r) \<and> nullable text_ok (ev_created_by r)"

text \<open>
  The primary key, the unique pair, the partial unique index on the current rows, and the
  references.
\<close>

definition ev_ok :: "uuid set \<Rightarrow> uuid set \<Rightarrow> ev_row list \<Rightarrow> bool" where
  "ev_ok docs tags t \<longleftrightarrow>
     distinct (map ev_id t) \<and> distinct (map ev_key t)
     \<and> distinct (map ev_document_id (filter ev_is_current t))
     \<and> (\<forall>r \<in> set t. ev_document_id r \<in> docs \<and> ev_tag_id r \<in> tags)"

text \<open>The arguments of \<open>add\<close>.\<close>

record ev_values =
  xv_document_id :: uuid
  xv_tag_id :: uuid
  xv_tag_version :: int
  xv_source :: extraction_source
  xv_document_confidence :: rat
  xv_mongo_id :: string
  xv_model :: "string option"
  xv_prompt_hash :: "string option"
  xv_created_by :: "string option"

definition new_version_row :: "uuid \<Rightarrow> timestamp \<Rightarrow> ev_values \<Rightarrow> int \<Rightarrow> ev_row" where
  "new_version_row i now v version =
     \<lparr>ev_id = i, ev_document_id = xv_document_id v, ev_version = version, ev_tag_id = xv_tag_id v,
      ev_tag_version = xv_tag_version v, ev_source = xv_source v, ev_model = xv_model v,
      ev_prompt_hash = xv_prompt_hash v,
      ev_document_confidence = numeric_4_3 (xv_document_confidence v),
      ev_mongo_id = xv_mongo_id v, ev_is_current = True, ev_created_by = xv_created_by v,
      ev_created_at = now\<rparr>"

text \<open>\<open>coalesce(max(version), 0)\<close> over the selected rows.\<close>

definition max_version :: "ev_row list \<Rightarrow> int" where
  "max_version rows = (case map ev_version rows of [] \<Rightarrow> 0 | v # vs \<Rightarrow> fold max vs v)"

text \<open>The first statement; adding one to the largest integer is out of range.\<close>

definition next_version ::
  "ev_row engine \<Rightarrow> uuid \<Rightarrow> ev_row list \<Rightarrow> (py_exn + int) \<times> ev_row list" where
  "next_version ex document_id =
     seqE (ex (Select (\<lambda>r. ev_document_id r = document_id) no_order None 0))
       (\<lambda>rows. if int4 (max_version rows + 1) then retE (max_version rows + 1)
               else raiseE (DBAPIError ''integer out of range''))"

definition unflag :: "ev_row \<Rightarrow> ev_row" where
  "unflag r = r\<lparr>ev_is_current := False\<rparr>"

definition race_error :: "uuid \<Rightarrow> ipa_error" where
  "race_error document_id =
     raise_error ConflictError (''extraction version race on document '' @ str_uuid document_id)"

text \<open>
  The other two: unflag the current row, insert the new one. An integrity error of the flush
  becomes a ConflictError.
\<close>

definition finish_add ::
  "ev_row engine \<Rightarrow> uuid \<Rightarrow> timestamp \<Rightarrow> ev_values \<Rightarrow> int \<Rightarrow> ev_row list \<Rightarrow> (py_exn + ev_row) \<times> ev_row list"
where
  "finish_add ex new_id now v version =
     seqE (ex (Update (\<lambda>r. ev_document_id r = xv_document_id v \<and> ev_is_current r) unflag)) (\<lambda>_.
     seqE (catchE (ex (Insert [new_version_row new_id now v version]))
             (\<lambda>e. case e of
                IntegrityError _ \<Rightarrow> raiseE (IpaExn (race_error (xv_document_id v)))
              | _ \<Rightarrow> raiseE e)) (\<lambda>_.
     refresh ex (\<lambda>r. ev_id r = new_id)))"

definition add_extraction ::
  "ev_row engine \<Rightarrow> uuid \<Rightarrow> timestamp \<Rightarrow> ev_values \<Rightarrow> ev_row list \<Rightarrow> (py_exn + ev_row) \<times> ev_row list" where
  "add_extraction ex new_id now v =
     seqE (next_version ex (xv_document_id v)) (finish_add ex new_id now v)"

definition get_extraction ::
  "ev_row engine \<Rightarrow> uuid \<Rightarrow> int option \<Rightarrow> ev_row list \<Rightarrow> (py_exn + ev_row option) \<times> ev_row list" where
  "get_extraction ex document_id version =
     fetch_one ex (\<lambda>r. ev_document_id r = document_id \<and>
       (case version of None \<Rightarrow> ev_is_current r | Some n \<Rightarrow> ev_version r = n))"

definition list_versions ::
  "ev_row engine \<Rightarrow> uuid \<Rightarrow> ev_row list \<Rightarrow> (py_exn + ev_row list) \<times> ev_row list" where
  "list_versions ex document_id =
     ex (Select (\<lambda>r. ev_document_id r = document_id) (\<lambda>a b. ev_version b \<le> ev_version a) None 0)"

section \<open>Validations\<close>

record val_row =
  val_id :: uuid
  val_document_id :: uuid
  val_extraction_version_id :: uuid
  val_decision :: validation_decision
  val_reviewer_id :: "uuid option"
  val_notes :: "string option"
  val_corrected_fields :: "json_dict option"
  val_auto :: bool
  val_created_at :: timestamp

definition val_fits :: "val_row \<Rightarrow> bool" where
  "val_fits r \<longleftrightarrow> nullable text_ok (val_notes r) \<and> nullable json_dict_ok (val_corrected_fields r)"

definition val_ok :: "uuid set \<Rightarrow> uuid set \<Rightarrow> uuid set \<Rightarrow> val_row list \<Rightarrow> bool" where
  "val_ok docs versions users t \<longleftrightarrow>
     distinct (map val_id t)
     \<and> (\<forall>r \<in> set t. val_document_id r \<in> docs \<and> val_extraction_version_id r \<in> versions
          \<and> (\<forall>u. val_reviewer_id r = Some u \<longrightarrow> u \<in> users))"

definition add_validation ::
  "val_row engine \<Rightarrow> uuid \<Rightarrow> timestamp \<Rightarrow> uuid \<Rightarrow> uuid \<Rightarrow> validation_decision \<Rightarrow> uuid option
     \<Rightarrow> string option \<Rightarrow> json_dict option \<Rightarrow> bool \<Rightarrow> val_row list \<Rightarrow> (py_exn + val_row) \<times> val_row list"
where
  "add_validation ex new_id now document_id extraction_version_id decision reviewer_id notes
      corrected_fields auto =
     insert_row ex (\<lambda>r. val_id r = new_id)
       \<lparr>val_id = new_id, val_document_id = document_id,
        val_extraction_version_id = extraction_version_id, val_decision = decision,
        val_reviewer_id = reviewer_id, val_notes = notes, val_corrected_fields = corrected_fields,
        val_auto = auto, val_created_at = now\<rparr>"

text \<open>Newest first, by id where the times are equal.\<close>

definition list_validations ::
  "val_row engine \<Rightarrow> uuid \<Rightarrow> val_row list \<Rightarrow> (py_exn + val_row list) \<times> val_row list" where
  "list_validations ex document_id =
     ex (Select (\<lambda>r. val_document_id r = document_id)
           (\<lambda>a b. val_created_at b < val_created_at a
                  \<or> val_created_at b = val_created_at a \<and> val_id b \<le> val_id a) None 0)"

section \<open>Lemmas\<close>

lemma ev_ok_perm: "mset t' = mset t \<Longrightarrow> ev_ok docs tags t \<Longrightarrow> ev_ok docs tags t'"
proof -
  assume m: "mset t' = mset t" and ok: "ev_ok docs tags t"
  from m have "mset (filter ev_is_current t') = mset (filter ev_is_current t)"
    by simp
  then have "distinct (map ev_document_id (filter ev_is_current t'))"
    using ok distinct_map_mset unfolding ev_ok_def by blast
  with m ok show ?thesis
    unfolding ev_ok_def by (metis distinct_map_mset set_mset_mset)
qed

lemma val_ok_perm:
  "mset t' = mset t \<Longrightarrow> val_ok docs versions users t \<Longrightarrow> val_ok docs versions users t'"
  unfolding val_ok_def by (metis distinct_map_mset set_mset_mset)

interpretation ev_engine: sql_engine "pg_execute ev_fits (ev_ok docs tags)" ev_fits "ev_ok docs tags"
  for docs tags
  by (rule pg_execute_sql_engine) (rule ev_ok_perm)

interpretation val_engine:
  sql_engine "pg_execute val_fits (val_ok docs versions users)" val_fits "val_ok docs versions users"
  for docs versions users
  by (rule pg_execute_sql_engine) (rule val_ok_perm)

lemma max_version_set:
  "max_version rows = (if rows = [] then 0 else Max (ev_version ` set rows))"
proof (cases rows)
  case (Cons r rs)
  have "max_version (r # rs) = fold max (map ev_version rs) (ev_version r)"
    by (simp add: max_version_def)
  also have "\<dots> = Max (set (ev_version r # map ev_version rs))"
    by (rule Max.set_eq_fold [symmetric])
  finally show ?thesis using Cons by simp
qed (simp add: max_version_def)

lemma max_version_ge: "r \<in> set rows \<Longrightarrow> ev_version r \<le> max_version rows"
  by (auto simp: max_version_set)

lemma max_version_perm: "mset rows' = mset rows \<Longrightarrow> max_version rows' = max_version rows"
  by (metis max_version_set mset_zero_iff set_mset_mset)

text \<open>The largest version of a document, 0 when it has none.\<close>

definition last_version :: "uuid \<Rightarrow> ev_row list \<Rightarrow> int" where
  "last_version d t = max_version (filter (\<lambda>r. ev_document_id r = d) t)"

lemma last_version_ge: "r \<in> set t \<Longrightarrow> ev_version r \<le> last_version (ev_document_id r) t"
  unfolding last_version_def by (rule max_version_ge) simp

lemma next_version_exec:
  assumes "sql_engine ex ev_fits ok"
  shows "next_version ex d t =
    (if int4 (last_version d t + 1) then Inr (last_version d t + 1)
     else Inl (DBAPIError ''integer out of range''), t)"
proof -
  obtain rs where "ex (Select (\<lambda>r. ev_document_id r = d) no_order None 0) t = (Inr rs, t)"
    and "mset rs = mset (filter (\<lambda>r. ev_document_id r = d) t)"
    using sql_engine.select_all [OF assms] by blast
  moreover from this(2) have "max_version rs = last_version d t"
    unfolding last_version_def by (rule max_version_perm)
  ultimately show ?thesis by (simp add: next_version_def seqE_Inr)
qed

text \<open>The table with the current version of a document unflagged.\<close>

definition unflagged :: "uuid \<Rightarrow> ev_row list \<Rightarrow> ev_row list" where
  "unflagged d t = apply_update (\<lambda>r. ev_document_id r = d \<and> ev_is_current r) unflag t"

lemma unflag_simps [simp]:
  "ev_id (unflag r) = ev_id r" "ev_key (unflag r) = ev_key r"
  "ev_document_id (unflag r) = ev_document_id r" "ev_tag_id (unflag r) = ev_tag_id r"
  "ev_version (unflag r) = ev_version r" "\<not> ev_is_current (unflag r)"
  "ev_fits (unflag r) = ev_fits r"
  by (simp_all add: unflag_def ev_key_def ev_fits_def)

lemma unflagged_keys [simp]:
  "map ev_id (unflagged d t) = map ev_id t" "map ev_key (unflagged d t) = map ev_key t"
  unfolding unflagged_def by (rule map_key_update, simp)+

lemma set_unflagged:
  "r \<in> set (unflagged d t) \<longleftrightarrow>
     (\<exists>r0 \<in> set t. r = (if ev_document_id r0 = d \<and> ev_is_current r0 then unflag r0 else r0))"
  unfolding unflagged_def apply_update_def set_map image_iff by (rule refl)

lemma current_unflagged:
  "filter ev_is_current (unflagged d t) = filter (\<lambda>r. ev_document_id r \<noteq> d) (filter ev_is_current t)"
  by (induction t) (auto simp: unflagged_def apply_update_def)

lemma ev_ok_unflagged:
  assumes "ev_ok docs tags t"
  shows "ev_ok docs tags (unflagged d t)"
proof -
  have "distinct (map ev_document_id (filter ev_is_current (unflagged d t)))"
    unfolding current_unflagged by (rule distinct_map_filter) (use assms in \<open>simp add: ev_ok_def\<close>)
  then show ?thesis
    using assms by (auto simp: ev_ok_def set_unflagged)
qed

lemma ev_ok_snoc:
  "ev_ok docs tags (t @ [n]) \<longleftrightarrow>
     ev_ok docs tags t \<and> ev_id n \<notin> ev_id ` set t \<and> ev_key n \<notin> ev_key ` set t
     \<and> (ev_is_current n \<longrightarrow> (\<forall>r \<in> set t. ev_is_current r \<longrightarrow> ev_document_id r \<noteq> ev_document_id n))
     \<and> ev_document_id n \<in> docs \<and> ev_tag_id n \<in> tags"
proof -
  have "ev_document_id n \<notin> ev_document_id ` set (filter ev_is_current t) \<longleftrightarrow>
      (\<forall>r \<in> set t. ev_is_current r \<longrightarrow> ev_document_id r \<noteq> ev_document_id n)"
    by (simp add: image_iff) metis
  then show ?thesis by (auto simp: ev_ok_def)
qed

lemma new_version_row_simps [simp]:
  "ev_id (new_version_row i now v n) = i" "ev_key (new_version_row i now v n) = (xv_document_id v, n)"
  "ev_document_id (new_version_row i now v n) = xv_document_id v"
  "ev_tag_id (new_version_row i now v n) = xv_tag_id v" "ev_version (new_version_row i now v n) = n"
  "ev_is_current (new_version_row i now v n)"
  by (simp_all add: new_version_row_def ev_key_def)

lemma unflag_exec:
  assumes eng: "sql_engine ex ev_fits (ev_ok docs tags)" and ok: "ev_ok docs tags t"
    and fit: "list_all ev_fits t"
  obtains rs t1 where "ex (Update (\<lambda>r. ev_document_id r = d \<and> ev_is_current r) unflag) t = (Inr rs, t1)"
    "mset t1 = mset (unflagged d t)" "ev_ok docs tags t1"
proof -
  have "list_all ev_fits (map unflag (filter (\<lambda>r. ev_document_id r = d \<and> ev_is_current r) t))"
    using fit by (auto simp: list_all_iff)
  then show thesis
    using sql_engine.update [OF eng ok _ ev_ok_unflagged [OF ok, of d, unfolded unflagged_def]]
      ev_ok_perm [OF _ ev_ok_unflagged [OF ok, of d]] that
    unfolding unflagged_def by blast
qed

text \<open>Whether the unflagged table takes the new row.\<close>

lemma insertable:
  "ev_ok docs tags t \<Longrightarrow> ev_ok docs tags (unflagged (xv_document_id v) t @ [new_version_row i now v n]) \<longleftrightarrow>
     i \<notin> ev_id ` set t \<and> (xv_document_id v, n) \<notin> ev_key ` set t
     \<and> xv_document_id v \<in> docs \<and> xv_tag_id v \<in> tags"
proof -
  assume ok: "ev_ok docs tags t"
  have ids: "ev_id ` set (unflagged d t) = ev_id ` set t"
    and keys: "ev_key ` set (unflagged d t) = ev_key ` set t" for d
    using unflagged_keys [of d t] by (metis set_map)+
  have "\<forall>r \<in> set (unflagged (xv_document_id v) t). ev_is_current r \<longrightarrow> ev_document_id r \<noteq> xv_document_id v"
  proof (intro ballI impI)
    fix r assume "r \<in> set (unflagged (xv_document_id v) t)" and cur: "ev_is_current r"
    then obtain r0 where "r = (if ev_document_id r0 = xv_document_id v \<and> ev_is_current r0
        then unflag r0 else r0)"
      unfolding set_unflagged by blast
    with cur show "ev_document_id r \<noteq> xv_document_id v"
      by (cases "ev_document_id r0 = xv_document_id v \<and> ev_is_current r0") auto
  qed
  then show ?thesis
    using ev_ok_unflagged [OF ok] by (auto simp: ev_ok_snoc ids keys)
qed

lemma finish_add_cases:
  assumes eng: "sql_engine ex ev_fits (ev_ok docs tags)" and ok: "ev_ok docs tags t"
    and fit: "list_all ev_fits t"
  obtains (added) t' where "ev_fits (new_version_row i now v n)"
      "i \<notin> ev_id ` set t" "(xv_document_id v, n) \<notin> ev_key ` set t"
      "finish_add ex i now v n t = (Inr (new_version_row i now v n), t')"
      "mset t' = mset (unflagged (xv_document_id v) t @ [new_version_row i now v n])"
      "ev_ok docs tags t'"
  | (range) m t' where "\<not> ev_fits (new_version_row i now v n)"
      "finish_add ex i now v n t = (Inl (DBAPIError m), t')"
  | (conflict) t' where "ev_fits (new_version_row i now v n)"
      "i \<in> ev_id ` set t \<or> (xv_document_id v, n) \<in> ev_key ` set t
        \<or> xv_document_id v \<notin> docs \<or> xv_tag_id v \<notin> tags"
      "finish_add ex i now v n t = (Inl (IpaExn (race_error (xv_document_id v))), t')"
proof -
  let ?n = "new_version_row i now v n" and ?u = "unflagged (xv_document_id v) t"
  obtain rs t1 where upd: "ex (Update (\<lambda>r. ev_document_id r = xv_document_id v \<and> ev_is_current r) unflag) t
      = (Inr rs, t1)" and t1: "mset t1 = mset ?u" and ok1: "ev_ok docs tags t1"
    by (rule unflag_exec [OF eng ok fit])
  have ok1n: "ev_ok docs tags (t1 @ [?n]) \<longleftrightarrow> ev_ok docs tags (?u @ [?n])"
    using t1 ev_ok_perm [of "t1 @ [?n]" "?u @ [?n]"] ev_ok_perm [of "?u @ [?n]" "t1 @ [?n]"] by auto
  note run = finish_add_def seqE_def upd
  show thesis
  proof (cases "ev_fits ?n")
    case False
    then obtain m where "ex (Insert [?n]) t1 = (Inl (DBAPIError m), t1)"
      using sql_engine.insert_range [OF eng ok1, of "[?n]"] by auto
    then show thesis
      using range [OF False] by (simp add: run catchE_def)
  next
    case fits: True
    show thesis
    proof (cases "ev_ok docs tags (?u @ [?n])")
      case False
      then obtain m where "ex (Insert [?n]) t1 = (Inl (IntegrityError m), t1)"
        using sql_engine.insert_violation [OF eng ok1, of "[?n]"] fits ok1n by auto
      then show thesis
        using conflict [OF fits] False insertable [OF ok, of v i now n]
        by (simp add: run catchE_def)
    next
      case True
      then obtain t' where ins: "ex (Insert [?n]) t1 = (Inr [], t')" and t': "mset t' = mset (t1 @ [?n])"
        using sql_engine.insert [OF eng ok1, of "[?n]"] fits ok1n by auto
      have ok': "ev_ok docs tags t'" using ev_ok_perm [OF t'] True ok1n by blast
      then have dist: "distinct (map ev_id t')" by (simp add: ev_ok_def)
      have "?n \<in> set t'" using t' by (metis in_set_conv_decomp set_mset_mset)
      then have "refresh ex (\<lambda>r. ev_id r = i) t' = (Inr ?n, t')"
        using sql_engine.refresh_key [OF eng dist, of "\<lambda>r. ev_id r = i" i ?n] dist
        by (simp add: table_map_SomeI)
      then have "finish_add ex i now v n t = (Inr ?n, t')"
        using ins by (simp add: run catchE_def)
      moreover have "mset t' = mset (?u @ [?n])" using t' t1 by simp
      ultimately show thesis
        using added [OF fits] True insertable [OF ok, of v i now n] ok' by blast
    qed
  qed
qed

lemma get_current_exec:
  assumes eng: "sql_engine ex ev_fits (ev_ok docs tags)" and ok: "ev_ok docs tags t"
  shows "get_extraction ex d None t =
    (Inr (table_map ev_document_id (filter ev_is_current t) d), t)"
proof -
  let ?cur = "filter ev_is_current t"
  have dist: "distinct (map ev_document_id ?cur)" using ok by (simp add: ev_ok_def)
  have "filter (\<lambda>r. ev_document_id r = d \<and> ev_is_current r) t = filter (\<lambda>r. ev_document_id r = d) ?cur"
    by (simp add: conj_commute)
  also have "\<dots> = (case table_map ev_document_id ?cur d of None \<Rightarrow> [] | Some r \<Rightarrow> [r])"
    by (rule find_key_eq [OF dist])
  finally show ?thesis
    unfolding get_extraction_def using sql_engine.fetch_one_unique [OF eng] by simp
qed

lemma get_version_exec:
  assumes eng: "sql_engine ex ev_fits (ev_ok docs tags)" and ok: "ev_ok docs tags t"
  shows "get_extraction ex d (Some n) t = (Inr (table_map ev_key t (d, n)), t)"
proof -
  have dist: "distinct (map ev_key t)" using ok by (simp add: ev_ok_def)
  have "(\<lambda>r. ev_document_id r = d \<and> ev_version r = n) = (\<lambda>r. ev_key r = (d, n))"
    by (simp add: ev_key_def fun_eq_iff)
  then have "filter (\<lambda>r. ev_document_id r = d \<and> ev_version r = n) t =
      (case table_map ev_key t (d, n) of None \<Rightarrow> [] | Some r \<Rightarrow> [r])"
    using find_key_eq [OF dist, of "(d, n)"] by simp
  then show ?thesis
    unfolding get_extraction_def using sql_engine.fetch_one_unique [OF eng] by simp
qed

lemma add_extraction_cases:
  assumes eng: "sql_engine ex ev_fits (ev_ok docs tags)" and ok: "ev_ok docs tags t"
    and fit: "list_all ev_fits t" and n: "n = last_version (xv_document_id v) t + 1"
  obtains (added) t' where "ev_fits (new_version_row i now v n)"
      "add_extraction ex i now v t = (Inr (new_version_row i now v n), t')"
      "mset t' = mset (unflagged (xv_document_id v) t @ [new_version_row i now v n])"
      "ev_ok docs tags t'"
  | (failed) e t' where "add_extraction ex i now v t = (Inl e, t')"
      "\<not> (ev_fits (new_version_row i now v n) \<and> i \<notin> ev_id ` set t
          \<and> xv_document_id v \<in> docs \<and> xv_tag_id v \<in> tags)"
proof (cases "int4 n")
  case False
  then have "\<not> ev_fits (new_version_row i now v n)" by (simp add: ev_fits_def)
  then show thesis
    using failed False by (simp add: add_extraction_def seqE_def next_version_exec [OF eng] n)
next
  case True
  have run: "add_extraction ex i now v t = finish_add ex i now v n t"
    using True by (simp add: add_extraction_def seqE_def next_version_exec [OF eng] n)
  have free: "(xv_document_id v, n) \<notin> ev_key ` set t"
    using last_version_ge unfolding n ev_key_def by force
  show thesis
    by (rule finish_add_cases [OF eng ok fit, of i now v n])
      (use added failed free in \<open>auto simp: run\<close>)
qed

section \<open>Histories\<close>

text \<open>A call of \<open>add\<close> in a transaction of its own, which an error rolls back.\<close>

definition tx_add :: "ev_row engine \<Rightarrow> uuid \<times> timestamp \<times> ev_values \<Rightarrow> ev_row list \<Rightarrow> ev_row list" where
  "tx_add ex = (\<lambda>(i, now, v) t.
     case add_extraction ex i now v t of (Inl _, _) \<Rightarrow> t | (Inr _, t') \<Rightarrow> t')"

definition versions_of :: "uuid \<Rightarrow> ev_row list \<Rightarrow> int set" where
  "versions_of d t = ev_version ` {r \<in> set t. ev_document_id r = d}"

lemma versions_of_key: "versions_of d t = {n. (d, n) \<in> ev_key ` set t}"
  by (force simp: versions_of_def ev_key_def)

text \<open>The versions of each document are 1, 2, .. k, and the current one is version k.\<close>

definition history :: "uuid set \<Rightarrow> uuid set \<Rightarrow> ev_row list \<Rightarrow> bool" where
  "history docs tags t \<longleftrightarrow> ev_ok docs tags t \<and> list_all ev_fits t
     \<and> (\<forall>d. \<exists>k \<ge> 0. versions_of d t = {1..k}
          \<and> (\<forall>r \<in> set t. ev_document_id r = d \<longrightarrow> (ev_is_current r \<longleftrightarrow> ev_version r = k)))"

lemma last_version_range:
  assumes "versions_of d t = {1..k}" and "0 \<le> k"
  shows "last_version d t = k"
proof -
  have v: "ev_version ` set (filter (\<lambda>r. ev_document_id r = d) t) = {1..k}"
    using assms(1) by (simp add: versions_of_def Int_def conj_commute)
  show ?thesis
  proof (cases "k = 0")
    case True
    then have "filter (\<lambda>r. ev_document_id r = d) t = []" using v by simp
    with True show ?thesis by (simp add: last_version_def max_version_set)
  next
    case False
    then have "filter (\<lambda>r. ev_document_id r = d) t \<noteq> []" using v assms(2) by force
    moreover have "Max {1..k} = k" using False assms(2) by (intro Max_eqI) auto
    ultimately show ?thesis by (simp add: last_version_def max_version_set v [simplified])
  qed
qed

text \<open>The versions of each document after one was added, and which of them is current.\<close>

lemma versions_after_add:
  assumes set': "set t' = insert (new_version_row i now v (last_version (xv_document_id v) t + 1))
      (set (unflagged (xv_document_id v) t))"
  shows "versions_of d t' =
    (if d = xv_document_id v then insert (last_version (xv_document_id v) t + 1) (versions_of d t) else versions_of d t)"
proof -
  let ?d = "xv_document_id v"
  have "ev_key ` set (unflagged ?d t) = ev_key ` set t"
    by (rule arg_cong [of _ _ set, OF unflagged_keys(2), unfolded set_map])
  then have "ev_key ` set t' = insert (?d, last_version ?d t + 1) (ev_key ` set t)"
    by (simp add: set')
  then show ?thesis by (auto simp: versions_of_key)
qed

lemma history_after_add:
  assumes h: "history docs tags t"
    and set': "set t' = insert (new_version_row i now v (last_version (xv_document_id v) t + 1))
      (set (unflagged (xv_document_id v) t))"
  shows "\<exists>k \<ge> 0. versions_of d t' = {1..k}
    \<and> (\<forall>r \<in> set t'. ev_document_id r = d \<longrightarrow> (ev_is_current r \<longleftrightarrow> ev_version r = k))"
proof -
  let ?d = "xv_document_id v"
  obtain k where k: "0 \<le> k" "versions_of d t = {1..k}"
    and cur: "\<And>r. r \<in> set t \<Longrightarrow> ev_document_id r = d \<Longrightarrow> ev_is_current r \<longleftrightarrow> ev_version r = k"
    using h unfolding history_def by blast
  have le: "ev_version r \<le> k" if "r \<in> set t" "ev_document_id r = d" for r
    using that k(2) by (auto simp: versions_of_def)
  note vs = versions_after_add [OF set', of d]
  show ?thesis
  proof (cases "d = ?d")
    case True
    have last: "last_version ?d t = k" using last_version_range [OF k(2,1)] True by simp
    have "versions_of d t' = {1..k + 1}" using vs k True last by auto
    moreover have "ev_is_current r \<longleftrightarrow> ev_version r = k + 1"
      if "r \<in> set t'" "ev_document_id r = d" for r
      using that cur le last True unfolding set' by (force simp: set_unflagged)
    ultimately show ?thesis using k(1) by (intro exI [of _ "k + 1"]) auto
  next
    case False
    moreover have "ev_is_current r \<longleftrightarrow> ev_version r = k"
      if "r \<in> set t'" "ev_document_id r = d" for r
      using that cur False unfolding set' by (auto simp: set_unflagged split: if_splits)
    ultimately show ?thesis using k vs by (intro exI [of _ k]) simp
  qed
qed

lemma history_tx_add:
  assumes eng: "sql_engine ex ev_fits (ev_ok docs tags)" and h: "history docs tags t"
  shows "history docs tags (tx_add ex (i, now, v) t)"
proof -
  let ?d = "xv_document_id v"
  let ?n = "new_version_row i now v (last_version ?d t + 1)"
  have ok: "ev_ok docs tags t" and fit: "list_all ev_fits t" using h by (auto simp: history_def)
  show ?thesis
  proof (rule add_extraction_cases [OF eng ok fit refl, where v = v and i = i and now = now])
    fix t' assume new: "ev_fits ?n"
      and run: "add_extraction ex i now v t = (Inr ?n, t')"
      and t': "mset t' = mset (unflagged ?d t @ [?n])" and ok': "ev_ok docs tags t'"
    have "set t' = set (unflagged ?d t @ [?n])" using t' by (metis set_mset_mset)
    then have set': "set t' = insert ?n (set (unflagged ?d t))" by simp
    have "list_all ev_fits t'"
      using new fit unfolding list_all_iff set' by (auto simp: set_unflagged)
    then have "history docs tags t'"
      using ok' history_after_add [OF h set'] unfolding history_def by blast
    then show ?thesis by (simp add: tx_add_def run)
  qed (use h in \<open>simp add: tx_add_def\<close>)
qed

lemma history_run:
  assumes "sql_engine ex ev_fits (ev_ok docs tags)"
  shows "history docs tags t \<Longrightarrow> history docs tags (fold (tx_add ex) ops t)"
proof (induction ops arbitrary: t)
  case Nil
  then show ?case by simp
next
  case (Cons op ops)
  obtain i now v where "op = (i, now, v)" by (cases op)
  then show ?case using Cons history_tx_add [OF assms] by simp
qed

text \<open>Newest first, by id where the times are equal.\<close>

definition newer :: "val_row \<Rightarrow> val_row \<Rightarrow> bool" where
  "newer a b \<longleftrightarrow> val_created_at b < val_created_at a
     \<or> val_created_at b = val_created_at a \<and> val_id b < val_id a"

lemma sorted_newer:
  "sorted_wrt (\<lambda>a b. val_created_at b < val_created_at a
      \<or> val_created_at b = val_created_at a \<and> val_id b \<le> val_id a) rows \<Longrightarrow>
   distinct (map val_id rows) \<Longrightarrow> sorted_wrt newer rows"
proof (induction rows)
  case Nil
  then show ?case by simp
next
  case (Cons a rows)
  have tail: "sorted_wrt newer rows" using Cons by simp
  have "newer a x" if x: "x \<in> set rows" for x
  proof -
    have "val_id a \<notin> val_id ` set rows" using Cons.prems(2) by simp
    with x have "val_id x \<noteq> val_id a" by (metis imageI)
    moreover have "val_created_at x < val_created_at a
        \<or> val_created_at x = val_created_at a \<and> val_id x \<le> val_id a"
      using Cons.prems(1) x by simp
    ultimately show ?thesis unfolding newer_def order_less_le [of "val_id x"] by blast
  qed
  with tail show ?case by simp
qed

section \<open>Properties\<close>

definition sample_version :: ev_values where
  "sample_version =
     \<lparr>xv_document_id = 1, xv_tag_id = 2, xv_tag_version = 1, xv_source = MODEL,
      xv_document_confidence = 9 / 10, xv_mongo_id = ''m1'', xv_model = None,
      xv_prompt_hash = None, xv_created_by = None\<rparr>"

definition sample_versions :: "ev_row list" where
  "sample_versions =
     [new_version_row 12 6 sample_version 2, unflag (new_version_row 11 5 sample_version 1)]"

abbreviation sample_ev_engine :: "ev_row engine" where
  "sample_ev_engine \<equiv> pg_execute ev_fits (ev_ok {1} {2})"

lemma sample_fits [simp]: "ev_fits (new_version_row i now sample_version n) \<longleftrightarrow> int4 n"
proof -
  have "numeric_4_3_ok (numeric_4_3 (9 / 10))"
    by (simp add: numeric_4_3_def numeric_4_3_ok_def floor_eq_iff)
  then show ?thesis
    by (simp add: ev_fits_def new_version_row_def sample_version_def text_ok_def)
qed

lemma sample_versions_ok: "ev_ok {1} {2} sample_versions" "list_all ev_fits sample_versions"
  by (simp_all add: ev_ok_def sample_versions_def) (simp_all add: sample_version_def)

lemma sample_last_version: "last_version 1 sample_versions = 2"
  by (simp add: last_version_def max_version_def sample_versions_def unflag_def)
     (simp add: sample_version_def)

text \<open>
  C2. In every history of \<open>add\<close> calls, each in its own transaction and some of them failing, the
  versions of a document are 1, 2, .. without a gap or a repetition, and exactly the last one is
  current.
\<close>

theorem versions_contiguous_last_current:
  assumes "sql_engine ex ev_fits (ev_ok docs tags)"
  shows "\<exists>k \<ge> 0. versions_of d (fold (tx_add ex) ops []) = {1..k}
    \<and> distinct (map ev_key (fold (tx_add ex) ops []))
    \<and> (\<forall>r \<in> set (fold (tx_add ex) ops []). ev_document_id r = d \<longrightarrow> (ev_is_current r \<longleftrightarrow> ev_version r = k))"
proof -
  have "history docs tags []"
    by (auto simp: history_def ev_ok_def versions_of_def intro!: exI [of _ 0])
  then have "history docs tags (fold (tx_add ex) ops [])" by (rule history_run [OF assms])
  then show ?thesis unfolding history_def ev_ok_def by blast
qed

lemma versions_contiguous_last_current_witness:
  "\<exists>k \<ge> 0. versions_of 1 (fold (tx_add sample_ev_engine) [(11, 5, sample_version), (12, 6, sample_version)] [])
      = {1..k}"
  using versions_contiguous_last_current [OF ev_engine.sql_engine_axioms] by blast

text \<open>
  \<open>add\<close> with values that fit, a fresh id and known references gives the document's next
  version number to the new row, makes it the current version, and leaves every earlier version
  readable by its number with only the current flag cleared.
\<close>

theorem add_appends_current_version:
  assumes "sql_engine ex ev_fits (ev_ok docs tags)" and "ev_ok docs tags t" and "list_all ev_fits t"
    and "n = new_version_row i now v (last_version (xv_document_id v) t + 1)" and "ev_fits n"
    and "i \<notin> ev_id ` set t" and "xv_document_id v \<in> docs" and "xv_tag_id v \<in> tags"
  shows "\<exists>t'. add_extraction ex i now v t = (Inr n, t') \<and> ev_ok docs tags t'
    \<and> get_extraction ex (xv_document_id v) None t' = (Inr (Some n), t')
    \<and> (\<forall>r \<in> set t. ev_document_id r = xv_document_id v \<longrightarrow>
          get_extraction ex (xv_document_id v) (Some (ev_version r)) t' = (Inr (Some (unflag r)), t'))
    \<and> (\<forall>r \<in> set t. ev_document_id r \<noteq> xv_document_id v \<longrightarrow> r \<in> set t')"
proof -
  let ?d = "xv_document_id v"
  obtain t' where run: "add_extraction ex i now v t = (Inr n, t')"
    and t': "mset t' = mset (unflagged ?d t @ [n])" and ok': "ev_ok docs tags t'"
    by (rule add_extraction_cases [OF assms(1-3) refl, where v = v and i = i and now = now])
      (use assms(4-8) in auto)
  have set': "r \<in> set t' \<longleftrightarrow> r = n \<or> r \<in> set (unflagged ?d t)" for r
    using t' by (metis Un_iff empty_iff insert_iff list.set(1) list.simps(15) set_append set_mset_mset)
  have keys: "distinct (map ev_key t')" and cur: "distinct (map ev_document_id (filter ev_is_current t'))"
    using ok' by (simp_all add: ev_ok_def)
  have "table_map ev_document_id (filter ev_is_current t') ?d = Some n"
    using set' [of n] by (intro table_map_SomeI [OF cur]) (auto simp: assms(4))
  then have now_current: "get_extraction ex ?d None t' = (Inr (Some n), t')"
    by (simp add: get_current_exec [OF assms(1) ok'])
  have "get_extraction ex ?d (Some (ev_version r)) t' = (Inr (Some (unflag r)), t')"
    if r: "r \<in> set t" "ev_document_id r = ?d" for r
  proof -
    have "unflag r = (if ev_document_id r = ?d \<and> ev_is_current r then unflag r else r)"
      using r(2) by (cases r) (auto simp: unflag_def)
    then have "unflag r \<in> set t'" using r(1) set' set_unflagged by metis
    then have "table_map ev_key t' (?d, ev_version r) = Some (unflag r)"
      using r(2) by (intro table_map_SomeI [OF keys]) (simp_all add: ev_key_def)
    then show ?thesis by (simp add: get_version_exec [OF assms(1) ok'])
  qed
  moreover have "r \<in> set t'" if "r \<in> set t" "ev_document_id r \<noteq> ?d" for r
  proof -
    have "r = (if ev_document_id r = ?d \<and> ev_is_current r then unflag r else r)" using that by simp
    then show ?thesis using that(1) set' set_unflagged by metis
  qed
  ultimately show ?thesis using run ok' now_current by blast
qed

lemma add_appends_current_version_witness:
  "\<exists>t'. add_extraction sample_ev_engine 13 7 sample_version sample_versions
      = (Inr (new_version_row 13 7 sample_version 3), t')
    \<and> get_extraction sample_ev_engine 1 (Some 2) t'
      = (Inr (Some (unflag (new_version_row 12 6 sample_version 2))), t')"
proof -
  have d: "xv_document_id sample_version = 1" "xv_tag_id sample_version = 2"
    by (simp_all add: sample_version_def)
  have "13 \<notin> ev_id ` set sample_versions" by (simp add: sample_versions_def)
  then show ?thesis
    using add_appends_current_version [OF ev_engine.sql_engine_axioms sample_versions_ok refl,
        where i = 13 and now = 7 and v = sample_version]
    by (auto simp: d sample_last_version) (auto simp: sample_versions_def d)
qed



text \<open>
  \<open>list_versions\<close> returns every version of the document exactly once, in strictly descending
  order of version, and changes nothing.
\<close>

theorem list_versions_newest_first:
  assumes "sql_engine ex ev_fits (ev_ok docs tags)" and "ev_ok docs tags t"
  shows "\<exists>rows. list_versions ex d t = (Inr rows, t)
    \<and> mset rows = mset (filter (\<lambda>r. ev_document_id r = d) t)
    \<and> sorted_wrt (\<lambda>a b. ev_version b < ev_version a) rows"
proof -
  have "window_ok None 0" by (simp add: window_ok_def int8_def)
  from sql_engine.select_by_desc [OF assms(1) this, of "\<lambda>r. ev_document_id r = d" ev_version t]
  obtain rows where rows: "list_versions ex d t = (Inr rows, t)"
    "mset rows = mset (filter (\<lambda>r. ev_document_id r = d) t)"
    "sorted_wrt (\<lambda>a b. ev_version b \<le> ev_version a) rows"
    by (auto simp: list_versions_def window_def)
  have "distinct (map ev_key (filter (\<lambda>r. ev_document_id r = d) t))"
    using assms(2) by (simp add: ev_ok_def distinct_map_filter)
  then have dist: "distinct (map ev_key rows)" using rows(2) distinct_map_mset by blast
  have "\<forall>r \<in> set rows. ev_document_id r = d"
    using rows(2) by (metis (mono_tags) mem_Collect_eq set_filter set_mset_mset)
  with dist have "distinct (map ev_version rows)"
    by (auto simp: distinct_map inj_on_def ev_key_def)
  with rows(3) have "sorted_wrt (\<lambda>a b. ev_version b < ev_version a) rows"
    by (rule sorted_desc_distinct)
  with rows show ?thesis by blast
qed

lemma list_versions_newest_first_witness:
  "\<exists>rows. list_versions sample_ev_engine 1 sample_versions = (Inr rows, sample_versions)
    \<and> mset rows = mset sample_versions \<and> sorted_wrt (\<lambda>a b. ev_version b < ev_version a) rows"
proof -
  have "filter (\<lambda>r. ev_document_id r = 1) sample_versions = sample_versions"
    by (simp add: sample_versions_def) (simp add: sample_version_def)
  then show ?thesis
    using list_versions_newest_first [OF ev_engine.sql_engine_axioms sample_versions_ok(1), of 1]
    by simp
qed

text \<open>
  A review decision that fits its columns, with a fresh id and known references, is returned
  and is the one row added to the log; the document's list then holds it with every earlier
  decision, each once, newest first and by id where the times are equal. The row order is thereby
  determined, whatever the database does.
\<close>

theorem review_decisions_listed_newest_first:
  assumes "sql_engine ex val_fits (val_ok docs versions users)" and "val_ok docs versions users t"
    and "n = \<lparr>val_id = i, val_document_id = d, val_extraction_version_id = version, val_decision = decision,
              val_reviewer_id = reviewer, val_notes = remarks, val_corrected_fields = corrected,
              val_auto = auto, val_created_at = now\<rparr>"
    and "val_fits n" and "i \<notin> val_id ` set t" and "d \<in> docs" and "version \<in> versions"
    and "\<forall>u. reviewer = Some u \<longrightarrow> u \<in> users"
  shows "\<exists>t' rows. add_validation ex i now d version decision reviewer remarks corrected auto t = (Inr n, t')
    \<and> mset t' = mset (t @ [n]) \<and> list_validations ex d t' = (Inr rows, t')
    \<and> mset rows = add_mset n (mset (filter (\<lambda>r. val_document_id r = d) t)) \<and> sorted_wrt newer rows"
proof -
  have ok1: "val_ok docs versions users (t @ [n])"
    using assms(2,5-8) by (auto simp: val_ok_def assms(3))
  have "distinct (map val_id (t @ [n]))" if "val_ok docs versions users (t @ [n])"
    using that by (simp add: val_ok_def)
  then obtain t' where ins: "insert_row ex (\<lambda>r. val_id r = i) n t = (Inr n, t')"
    and t': "mset t' = mset (t @ [n])" and ok': "val_ok docs versions users t'"
    by (rule sql_engine.insert_row_cases [OF assms(1,2), of n val_id "\<lambda>r. val_id r = i"])
      (use assms(4) ok1 in \<open>auto simp: assms(3)\<close>)
  let ?le = "\<lambda>a b. val_created_at b < val_created_at a
    \<or> val_created_at b = val_created_at a \<and> val_id b \<le> val_id a"
  have "\<exists>s. ex (Select (\<lambda>r. val_document_id r = d) ?le None 0) t' = (Inr (window None 0 s), t')
      \<and> mset s = mset (filter (\<lambda>r. val_document_id r = d) t') \<and> sorted_wrt ?le s"
    by (rule sql_engine.select [OF assms(1)]) (auto simp: transp_def window_ok_def int8_def)
  then obtain rows where rows: "list_validations ex d t' = (Inr rows, t')"
    "mset rows = mset (filter (\<lambda>r. val_document_id r = d) t')" "sorted_wrt ?le rows"
    by (auto simp: list_validations_def window_def)
  have "distinct (map val_id (filter (\<lambda>r. val_document_id r = d) t'))"
    using ok' by (simp add: val_ok_def distinct_map_filter)
  then have "distinct (map val_id rows)" using rows(2) distinct_map_mset by blast
  with rows(3) have "sorted_wrt newer rows"
    by (rule sorted_newer)
  moreover have "mset rows = add_mset n (mset (filter (\<lambda>r. val_document_id r = d) t))"
    using rows(2) t' by (simp add: assms(3))
  ultimately show ?thesis using ins t' rows(1) by (auto simp: add_validation_def assms(3))
qed

lemma review_decisions_listed_newest_first_witness:
  "\<exists>t' rows. list_validations (pg_execute val_fits (val_ok {1} {11} {})) 1 t' = (Inr rows, t')
    \<and> map val_decision rows = [APPROVED]"
proof -
  have "val_ok {1} {11} {} []" by (simp add: val_ok_def)
  from review_decisions_listed_newest_first [OF val_engine.sql_engine_axioms this refl,
      where i = 5 and d = 1 and version = 11 and decision = APPROVED and reviewer = None
        and remarks = None and corrected = None and auto = True and now = 9]
  obtain t' rows where "list_validations (pg_execute val_fits (val_ok {1} {11} {})) 1 t' = (Inr rows, t')"
    and "map val_decision rows = [APPROVED]"
    by (auto simp: val_fits_def)
  then show ?thesis by (intro exI conjI)
qed

end
