(* ===== verification/Cache.thy ===== *)
theory Cache
  imports Errors Ids
begin

text \<open>
  Models \<open>src/ipa/storage/cache.py\<close>: the JSON cache, the idempotency registry, the distributed lock
  and the read-through decorator over a Redis server.

  The server is an argument \<open>rd\<close>: it executes the commands of \<open>redis_cmd\<close> on its own state. The
  locale \<open>redis_server\<close> states what Redis documents of them through the live contents of the
  server, and that a connection error or a timeout leaves open whether the command took effect.
  \<open>flaky\<close> is a server that satisfies it. The expiry of a key is a change of the server's state
  between two calls. \<open>json.dumps\<close> and \<open>json.loads\<close> are the arguments \<open>dumps\<close> and \<open>loads\<close>, where
  \<open>None\<close> stands for undecodable text.
\<close>

section \<open>The server\<close>

type_synonym store = "string \<Rightarrow> string option"

text \<open>A Lua script on one key and one argument: its integer reply and the new contents.\<close>

type_synonym script = "string \<Rightarrow> string \<Rightarrow> store \<Rightarrow> int \<times> store"

text \<open>\<open>RSet key value nx ex\<close> is SET with the NX and EX options.\<close>

datatype redis_cmd =
    RGet string
  | RSet string string bool int
  | RDel string
  | REval script string string
  | RPing

datatype redis_reply = RNil | ROk | RBulk string | RInt int | RPong

type_synonym 's redis = "redis_cmd \<Rightarrow> 's \<Rightarrow> (py_exn + redis_reply) \<times> 's"

fun redis_effect :: "redis_cmd \<Rightarrow> store \<Rightarrow> redis_reply \<times> store" where
  "redis_effect (RGet k) m = (case m k of None \<Rightarrow> RNil | Some v \<Rightarrow> RBulk v, m)"
| "redis_effect (RSet k v nx ex) m = (if nx \<and> m k \<noteq> None then (RNil, m) else (ROk, m(k \<mapsto> v)))"
| "redis_effect (RDel k) m = (RInt (if m k = None then 0 else 1), m(k := None))"
| "redis_effect (REval f k a) m = (case f k a m of (n, m') \<Rightarrow> (RInt n, m'))"
| "redis_effect RPing m = (RPong, m)"

text \<open>An expiry must be positive; Redis rejects others. The bound keeps it in the server's range.\<close>

fun valid_cmd :: "redis_cmd \<Rightarrow> bool" where
  "valid_cmd (RSet k v nx ex) \<longleftrightarrow> 0 < ex \<and> ex < 2 ^ 31"
| "valid_cmd _ \<longleftrightarrow> True"

text \<open>\<open>_DEGRADED_ERRORS\<close>.\<close>

fun degraded :: "py_exn \<Rightarrow> bool" where
  "degraded (RedisConnectionError m) \<longleftrightarrow> True"
| "degraded (RedisTimeoutError m) \<longleftrightarrow> True"
| "degraded _ \<longleftrightarrow> False"

locale redis_server =
  fixes rd :: "'s redis" and contents :: "'s \<Rightarrow> store"
  assumes outcome: "valid_cmd c \<Longrightarrow> rd c s = (r, s') \<Longrightarrow>
      (\<exists>reply. r = Inr reply \<and> redis_effect c (contents s) = (reply, contents s'))
      \<or> (\<exists>e. r = Inl e \<and> degraded e
           \<and> (contents s' = contents s \<or> contents s' = snd (redis_effect c (contents s))))"

section \<open>The cache store\<close>

definition get_json ::
  "'s redis \<Rightarrow> (string \<Rightarrow> json option) \<Rightarrow> string \<Rightarrow> 's \<Rightarrow> (py_exn + json option) \<times> 's" where
  "get_json rd loads key s =
     (case rd (RGet key) s of
        (Inl e, s') \<Rightarrow> if degraded e then (Inr None, s') else (Inl e, s')
      | (Inr (RBulk raw), s') \<Rightarrow>
          (Inr (case loads raw of None \<Rightarrow> None | Some v \<Rightarrow> if v = JNull then None else Some v), s')
      | (Inr _, s') \<Rightarrow> (Inr None, s'))"

definition set_json ::
  "'s redis \<Rightarrow> (json \<Rightarrow> string) \<Rightarrow> string \<Rightarrow> json_dict \<Rightarrow> int \<Rightarrow> 's \<Rightarrow> (py_exn + unit) \<times> 's" where
  "set_json rd dumps key v ttl_s s =
     (case rd (RSet key (dumps (JObj v)) False ttl_s) s of
        (Inl e, s') \<Rightarrow> if degraded e then (Inr (), s') else (Inl e, s')
      | (Inr _, s') \<Rightarrow> (Inr (), s'))"

definition delete :: "'s redis \<Rightarrow> string \<Rightarrow> 's \<Rightarrow> (py_exn + unit) \<times> 's" where
  "delete rd key s =
     (case rd (RDel key) s of
        (Inl e, s') \<Rightarrow> if degraded e then (Inr (), s') else (Inl e, s')
      | (Inr _, s') \<Rightarrow> (Inr (), s'))"

text \<open>\<open>bool(won)\<close>: SET NX replies OK when it set the key and nil otherwise.\<close>

definition claim_idempotency :: "'s redis \<Rightarrow> string \<Rightarrow> string \<Rightarrow> int \<Rightarrow> 's \<Rightarrow> (py_exn + bool) \<times> 's" where
  "claim_idempotency rd env key ttl_s =
     seqE (rd (RSet (build_key env ''idem'' key) ''claimed'' True ttl_s)) (\<lambda>won. retE (won = ROk))"

text \<open>\<open>_RELEASE_LOCK_SCRIPT\<close>.\<close>

definition release_lock_script :: script where
  "release_lock_script k token m =
     (if m k = Some token then (1, m(k := None)) else (0, m))"

text \<open>Entering and leaving the lock's context; \<open>token\<close> is \<open>uuid4().hex\<close>.\<close>

definition lock_enter :: "'s redis \<Rightarrow> string \<Rightarrow> string \<Rightarrow> string \<Rightarrow> int \<Rightarrow> 's \<Rightarrow> (py_exn + bool) \<times> 's" where
  "lock_enter rd env key token ttl_s =
     seqE (rd (RSet (build_key env ''lock'' key) token True ttl_s)) (\<lambda>acquired. retE (acquired = ROk))"

definition lock_exit :: "'s redis \<Rightarrow> string \<Rightarrow> string \<Rightarrow> string \<Rightarrow> bool \<Rightarrow> 's \<Rightarrow> (py_exn + unit) \<times> 's" where
  "lock_exit rd env key token acquired s =
     (if acquired then
        (case rd (REval release_lock_script (build_key env ''lock'' key) token) s of
           (Inl e, s') \<Rightarrow> if degraded e then (Inr (), s') else (Inl e, s')
         | (Inr _, s') \<Rightarrow> (Inr (), s'))
      else (Inr (), s))"

text \<open>\<open>async with await cache.lock(key, ttl_s) as acquired: body\<close>; the exit runs in \<open>finally\<close>.\<close>

definition with_lock ::
  "'s redis \<Rightarrow> string \<Rightarrow> string \<Rightarrow> string \<Rightarrow> int \<Rightarrow> (bool \<Rightarrow> 's \<Rightarrow> (py_exn + 'a) \<times> 's)
     \<Rightarrow> 's \<Rightarrow> (py_exn + 'a) \<times> 's" where
  "with_lock rd env key token ttl_s body =
     seqE (lock_enter rd env key token ttl_s) (\<lambda>acquired s.
       case body acquired s of (res, s1) \<Rightarrow>
         (case lock_exit rd env key token acquired s1 of
            (Inl e, s2) \<Rightarrow> (Inl e, s2)
          | (Inr _, s2) \<Rightarrow> (res, s2)))"

definition ping :: "'s redis \<Rightarrow> 's \<Rightarrow> (py_exn + unit) \<times> 's" where
  "ping rd = seqE (rd RPing) (\<lambda>_. retE ())"

text \<open>
  \<open>cached_json\<close>, over any cache store: \<open>get\<close> and \<open>put\<close> are its \<open>get_json\<close> and \<open>set_json\<close>, \<open>key\<close> the
  result of \<open>key_fn\<close>, \<open>fn\<close> the wrapped call. Only a dictionary result is stored.
\<close>

definition cached_json ::
  "(string \<Rightarrow> 's \<Rightarrow> (py_exn + json option) \<times> 's)
     \<Rightarrow> (string \<Rightarrow> json_dict \<Rightarrow> int \<Rightarrow> 's \<Rightarrow> (py_exn + unit) \<times> 's)
     \<Rightarrow> string option \<Rightarrow> int \<Rightarrow> ('s \<Rightarrow> (py_exn + json) \<times> 's) \<Rightarrow> 's \<Rightarrow> (py_exn + json) \<times> 's" where
  "cached_json get put key ttl_s fn =
     (case key of
        None \<Rightarrow> fn
      | Some k \<Rightarrow>
          seqE (get k) (\<lambda>cached.
            case cached of
              Some v \<Rightarrow> retE v
            | None \<Rightarrow>
                seqE fn (\<lambda>result.
                  case result of
                    JObj d \<Rightarrow> seqE (put k d ttl_s) (\<lambda>_. retE result)
                  | _ \<Rightarrow> retE result)))"

section \<open>A server that satisfies the interface\<close>

text \<open>
  The contents, and what the next commands will meet: \<open>True\<close> is an answer, \<open>False\<close> a lost
  connection. After the planned ones every command is answered.
\<close>

type_synonym flaky_state = "bool list \<times> store"

definition flaky :: "flaky_state redis" where
  "flaky c st =
     (case st of (plan, m) \<Rightarrow>
        if \<not> valid_cmd c then (Inl (OtherException ''ResponseError'' ''invalid expire time''), (plan, m))
        else if plan \<noteq> [] \<and> \<not> hd plan then (Inl (RedisConnectionError ''connection refused''), (tl plan, m))
        else (case redis_effect c m of (reply, m') \<Rightarrow> (Inr reply, (tl plan, m'))))"

interpretation flaky: redis_server flaky snd
  by unfold_locales (auto simp: flaky_def split: prod.splits if_splits)

section \<open>What the operations do to the contents\<close>

context redis_server
begin

lemma get_json_total:
  "\<exists>x s'. get_json rd loads k s = (Inr x, s') \<and> contents s' = contents s
     \<and> (x = None \<or> (\<exists>raw v. contents s k = Some raw \<and> loads raw = Some v \<and> v \<noteq> JNull \<and> x = Some v))"
proof -
  obtain r s' where run: "rd (RGet k) s = (r, s')" by fastforce
  from outcome [OF _ this] show ?thesis
    by (auto simp: get_json_def run split: option.splits)
qed

lemma set_json_total:
  assumes "0 < ttl" and "ttl < 2 ^ 31"
  shows "\<exists>s'. set_json rd dumps k v ttl s = (Inr (), s')
     \<and> (contents s' = contents s \<or> contents s' = (contents s)(k \<mapsto> dumps (JObj v)))"
proof -
  obtain r s' where run: "rd (RSet k (dumps (JObj v)) False ttl) s = (r, s')" by fastforce
  from outcome [OF _ this] assms show ?thesis by (auto simp: set_json_def run)
qed

lemma delete_total:
  "\<exists>s'. delete rd k s = (Inr (), s') \<and> (contents s' = contents s \<or> contents s' = (contents s)(k := None))"
proof -
  obtain r s' where run: "rd (RDel k) s = (r, s')" by fastforce
  from outcome [OF _ this] show ?thesis by (auto simp: delete_def run)
qed

text \<open>SET NX of a fresh value: it succeeds on an absent key only, and then the key holds it.\<close>

lemma set_nx:
  assumes "0 < ttl" and "ttl < 2 ^ 31" and "rd (RSet k v True ttl) s = (r, s')"
  shows "(contents s' = contents s \<or> contents s k = None \<and> contents s' = (contents s)(k \<mapsto> v))
    \<and> (r = Inr ROk \<longrightarrow> contents s k = None \<and> contents s' k = Some v)
    \<and> (\<forall>x. r = Inr x \<and> x \<noteq> ROk \<longrightarrow> contents s k \<noteq> None)"
  using outcome [OF _ assms(3)] assms(1,2) by (auto split: if_splits) (metis fun_upd_same)

lemma lock_exit_total:
  "\<exists>s'. lock_exit rd env key token acquired s = (Inr (), s')
     \<and> (contents s' = contents s
        \<or> acquired \<and> contents s (build_key env ''lock'' key) = Some token
          \<and> contents s' = (contents s)(build_key env ''lock'' key := None))"
proof -
  obtain r s' where run: "rd (REval release_lock_script (build_key env ''lock'' key) token) s = (r, s')"
    by fastforce
  from outcome [OF _ this] show ?thesis
    by (auto simp: lock_exit_def run release_lock_script_def split: if_splits)
qed

end

section \<open>The interface of a JSON cache\<close>

text \<open>
  \<open>entries s k\<close> is the value the cache holds. A read gives it or a miss; a write may be lost, but
  touches no other key; neither raises.
\<close>

locale json_cache =
  fixes get :: "string \<Rightarrow> 's \<Rightarrow> (py_exn + json option) \<times> 's"
    and put :: "string \<Rightarrow> json_dict \<Rightarrow> int \<Rightarrow> 's \<Rightarrow> (py_exn + unit) \<times> 's"
    and entries :: "'s \<Rightarrow> string \<Rightarrow> json option"
    and storable :: "json set"
  assumes get: "\<exists>x s'. get k s = (Inr x, s') \<and> entries s' = entries s \<and> (x = None \<or> x = entries s k)"
    and put: "0 < ttl \<Longrightarrow> ttl < 2 ^ 31 \<Longrightarrow> JObj d \<in> storable \<Longrightarrow>
      \<exists>s'. put k d ttl s = (Inr (), s')
        \<and> (entries s' = entries s \<or> entries s' = (entries s)(k \<mapsto> JObj d))"
begin

text \<open>
  A read-through call returns what the function returns or an entry that was there; if the entry
  of the key is right before the call, so is the result, and the entry after it.
\<close>

lemma cached_json_coherent:
  assumes ttl: "0 < ttl" "ttl < 2 ^ 31" and v: "v \<in> storable"
    and fn: "\<And>s. \<exists>s'. fn s = (Inr v, s') \<and> entries s' = entries s"
    and coherent: "\<And>w. entries s k = Some w \<Longrightarrow> w = v"
  shows "\<exists>s'. cached_json get put (Some k) ttl fn s = (Inr v, s')
    \<and> (\<forall>w. entries s' k = Some w \<longrightarrow> w = v) \<and> (\<forall>j. j \<noteq> k \<longrightarrow> entries s' j = entries s j)"
proof -
  obtain x s1 where get1: "get k s = (Inr x, s1)" "entries s1 = entries s"
    and x: "x = None \<or> x = entries s k"
    using get [of k s] by blast
  show ?thesis
  proof (cases x)
    case (Some w)
    then have "w = v" using x coherent by simp
    with Some get1 coherent show ?thesis by (simp add: cached_json_def seqE_def)
  next
    case None
    obtain s2 where fn2: "fn s1 = (Inr v, s2)" "entries s2 = entries s" using fn [of s1] get1 by auto
    show ?thesis
    proof (cases "\<exists>d. v = JObj d")
      case True
      then obtain d where d: "v = JObj d" by blast
      obtain s3 where "put k d ttl s2 = (Inr (), s3)"
        and "entries s3 = entries s2 \<or> entries s3 = (entries s2)(k \<mapsto> JObj d)"
        using put [OF ttl, of d k s2] v d by auto
      with None get1 fn2 coherent d show ?thesis
        by (auto simp: cached_json_def seqE_def)
    next
      case False
      then show ?thesis
        using None get1 fn2 coherent by (cases v) (auto simp: cached_json_def seqE_def)
    qed
  qed
qed

end

text \<open>Redis with a codec is such a cache, for the values the codec reads back.\<close>

locale redis_json = redis_server rd contents for rd :: "'s redis" and contents +
  fixes dumps :: "json \<Rightarrow> string" and loads :: "string \<Rightarrow> json option" and storable :: "json set"
  assumes codec: "v \<in> storable \<Longrightarrow> loads (dumps v) = Some v" and no_null: "JNull \<notin> storable"

text \<open>The value a key holds.\<close>

definition decoded :: "(string \<Rightarrow> json option) \<Rightarrow> store \<Rightarrow> string \<Rightarrow> json option" where
  "decoded loads m k =
     (case m k of
        None \<Rightarrow> None
      | Some raw \<Rightarrow> (case loads raw of None \<Rightarrow> None | Some v \<Rightarrow> if v = JNull then None else Some v))"

sublocale redis_json \<subseteq> json_cache "get_json rd loads" "set_json rd dumps"
  "\<lambda>s. decoded loads (contents s)" storable
proof
  fix k s
  obtain x s' where "get_json rd loads k s = (Inr x, s')" "contents s' = contents s"
    and "x = None \<or> (\<exists>raw v. contents s k = Some raw \<and> loads raw = Some v \<and> v \<noteq> JNull \<and> x = Some v)"
    using get_json_total [of loads k s] by blast
  then show "\<exists>x s'. get_json rd loads k s = (Inr x, s')
      \<and> decoded loads (contents s') = decoded loads (contents s)
      \<and> (x = None \<or> x = decoded loads (contents s) k)"
    by (auto simp: decoded_def)
next
  fix ttl :: int and d k s
  assume "0 < ttl" "ttl < 2 ^ 31" and d: "JObj d \<in> storable"
  then obtain s' where "set_json rd dumps k d ttl s = (Inr (), s')"
    and "contents s' = contents s \<or> contents s' = (contents s)(k \<mapsto> dumps (JObj d))"
    using set_json_total [of ttl dumps k d s] by blast
  moreover have "decoded loads ((contents s)(k \<mapsto> dumps (JObj d)))
      = (decoded loads (contents s))(k \<mapsto> JObj d)"
    using codec [OF d] no_null d by (auto simp: decoded_def fun_eq_iff)
  ultimately show "\<exists>s'. set_json rd dumps k d ttl s = (Inr (), s')
      \<and> (decoded loads (contents s') = decoded loads (contents s)
         \<or> decoded loads (contents s') = (decoded loads (contents s))(k \<mapsto> JObj d))"
    by auto
qed

context redis_json
begin

lemmas cached_json_redis = cached_json_coherent

end

section \<open>Runs\<close>

text \<open>
  Claims of one idempotency key and the number of callers told they won; between them anything
  may happen to the server that leaves the key there once it is.
\<close>

inductive idem_run :: "'s redis \<Rightarrow> ('s \<Rightarrow> store) \<Rightarrow> string \<Rightarrow> string \<Rightarrow> 's \<Rightarrow> nat \<Rightarrow> bool"
  for rd contents env key where
  idem_start: "idem_run rd contents env key s 0"
| idem_claim: "idem_run rd contents env key s n \<Longrightarrow> 0 < ttl \<Longrightarrow> ttl < 2 ^ 31 \<Longrightarrow>
    claim_idempotency rd env key ttl s = (res, s') \<Longrightarrow>
    idem_run rd contents env key s' (n + (if res = Inr True then 1 else 0))"
| idem_other: "idem_run rd contents env key s n \<Longrightarrow>
    (contents s (build_key env ''idem'' key) \<noteq> None \<longrightarrow> contents s' (build_key env ''idem'' key) \<noteq> None) \<Longrightarrow>
    idem_run rd contents env key s' n"

text \<open>
  Contexts on one lock: the tokens that hold it, and those drawn so far. A context enters with a
  fresh token; one that entered may leave at any time, even after its lease ran out; the lease of
  the key runs out, which ends every hold; and anything else may happen that leaves the key.
\<close>

inductive lock_run ::
  "'s redis \<Rightarrow> ('s \<Rightarrow> store) \<Rightarrow> string \<Rightarrow> string \<Rightarrow> 's \<Rightarrow> string list \<Rightarrow> string set \<Rightarrow> bool"
  for rd contents env key where
  lock_start: "contents s (build_key env ''lock'' key) = None \<Longrightarrow> lock_run rd contents env key s [] {}"
| lock_enters: "lock_run rd contents env key s held used \<Longrightarrow> token \<notin> used \<Longrightarrow> 0 < ttl \<Longrightarrow> ttl < 2 ^ 31 \<Longrightarrow>
    lock_enter rd env key token ttl s = (res, s') \<Longrightarrow>
    lock_run rd contents env key s' (if res = Inr True then token # held else held) (insert token used)"
| lock_exits: "lock_run rd contents env key s held used \<Longrightarrow> token \<in> used \<Longrightarrow>
    lock_exit rd env key token True s = (res, s') \<Longrightarrow>
    lock_run rd contents env key s' (removeAll token held) used"
| lock_expires: "lock_run rd contents env key s held used \<Longrightarrow>
    contents s' = (contents s)(build_key env ''lock'' key := None) \<Longrightarrow>
    lock_run rd contents env key s' [] used"
| lock_other: "lock_run rd contents env key s held used \<Longrightarrow>
    contents s' (build_key env ''lock'' key) = contents s (build_key env ''lock'' key) \<Longrightarrow>
    lock_run rd contents env key s' held used"

context redis_server
begin

lemma claim_outcome:
  assumes "0 < ttl" and "ttl < 2 ^ 31" and "claim_idempotency rd env key ttl s = (res, s')"
  defines "k \<equiv> build_key env ''idem'' key"
  shows "(res = Inr True \<longrightarrow> contents s k = None \<and> contents s' k \<noteq> None)
    \<and> (res = Inr False \<longrightarrow> contents s k \<noteq> None)
    \<and> (contents s k \<noteq> None \<longrightarrow> contents s' k \<noteq> None)"
proof -
  obtain r where run: "rd (RSet k ''claimed'' True ttl) s = (r, s')"
    and res: "res = (case r of Inl e \<Rightarrow> Inl e | Inr won \<Rightarrow> Inr (won = ROk))"
    using assms(3) by (auto simp: claim_idempotency_def seqE_def k_def split: prod.splits sum.splits)
  from set_nx [OF assms(1,2) run] res show ?thesis by (auto split: sum.splits)
qed

lemma idem_run_winners:
  "idem_run rd contents env key s n \<Longrightarrow> n \<le> 1 \<and> (n = 1 \<longrightarrow> contents s (build_key env ''idem'' key) \<noteq> None)"
proof (induction rule: idem_run.induct)
  case (idem_claim s n ttl res s')
  then show ?case using claim_outcome [of ttl env key s res s'] by auto
qed auto

lemma lock_enter_outcome:
  assumes "0 < ttl" and "ttl < 2 ^ 31" and "lock_enter rd env key token ttl s = (res, s')"
  defines "k \<equiv> build_key env ''lock'' key"
  shows "(res = Inr True \<longrightarrow> contents s k = None \<and> contents s' k = Some token)
    \<and> (contents s' k = contents s k \<or> contents s k = None \<and> contents s' k = Some token)"
proof -
  obtain r where run: "rd (RSet k token True ttl) s = (r, s')"
    and res: "res = (case r of Inl e \<Rightarrow> Inl e | Inr won \<Rightarrow> Inr (won = ROk))"
    using assms(3) by (auto simp: lock_enter_def seqE_def k_def split: prod.splits sum.splits)
  from set_nx [OF assms(1,2) run] res show ?thesis by (auto split: sum.splits)
qed

lemma lock_run_exclusive:
  "lock_run rd contents env key s held used \<Longrightarrow>
     set held \<subseteq> used \<and> length held \<le> 1
     \<and> (\<forall>token \<in> set held. contents s (build_key env ''lock'' key) = Some token)
     \<and> (\<forall>token. contents s (build_key env ''lock'' key) = Some token \<longrightarrow> token \<in> used)"
proof (induction rule: lock_run.induct)
  case (lock_enters s held used token ttl res s')
  note out = lock_enter_outcome [OF lock_enters.hyps(3-5)]
  show ?case
  proof (cases "res = Inr True")
    case True
    then have "held = []" using lock_enters.IH out by (cases held) auto
    with True lock_enters.IH out show ?thesis by auto
  next
    case False
    with lock_enters.IH out show ?thesis by (auto split: if_splits)
  qed
next
  case (lock_exits s held used token res s')
  have "length (removeAll token held) \<le> length held" by (simp add: removeAll_filter_not_eq)
  then have "length (removeAll token held) \<le> 1" using lock_exits.IH by (blast intro: le_trans)
  then show ?case
    using lock_exits lock_exit_total [of env key token True s] by (auto split: if_splits)
qed auto

end

section \<open>Properties\<close>

text \<open>A codec for the witnesses: it reads back the empty object only.\<close>

definition toy_dumps :: "json \<Rightarrow> string" where
  "toy_dumps v = ''{}''"

definition toy_loads :: "string \<Rightarrow> json option" where
  "toy_loads s = (if s = ''{}'' then Some (JObj []) else None)"

interpretation flaky_json: redis_json flaky snd toy_dumps toy_loads "{JObj []}"
  by unfold_locales (simp_all add: toy_dumps_def toy_loads_def)

text \<open>
  With any valid expiry, and whatever the server and the network do, reading, writing and
  deleting a cache entry never raise: a read yields nothing or what the entry decodes to and
  changes nothing, a write or a deletion takes effect on that key alone or is lost.
\<close>

theorem cache_degrades_silently:
  assumes "redis_server rd contents" and "0 < ttl" and "ttl < 2 ^ 31"
  shows "(\<exists>x s'. get_json rd loads k s = (Inr x, s') \<and> contents s' = contents s
        \<and> (x = None \<or> x = decoded loads (contents s) k))
    \<and> (\<exists>s'. set_json rd dumps k v ttl s = (Inr (), s')
        \<and> contents s' \<in> {contents s, (contents s)(k \<mapsto> dumps (JObj v))})
    \<and> (\<exists>s'. delete rd k s = (Inr (), s') \<and> contents s' \<in> {contents s, (contents s)(k := None)})"
  using redis_server.get_json_total [OF assms(1), of loads k s]
    redis_server.set_json_total [OF assms, of dumps k v s] redis_server.delete_total [OF assms(1), of k s]
  by (auto simp: decoded_def)

lemma cache_degrades_silently_witness:
  "\<exists>x s'. get_json flaky toy_loads ''k'' ([False], [''k'' \<mapsto> ''{}'']) = (Inr x, s')"
  using conjunct1 [OF cache_degrades_silently [OF flaky.redis_server_axioms, of 60 toy_loads "''k''"
      "([False], [''k'' \<mapsto> ''{}''])" toy_dumps "[]"]] by auto

text \<open>
  C10. An idempotency key is won at most once: among all the claims of the key by any callers,
  interleaved with anything that does not drop it, and with connections lost at any point, at
  most one caller is told it won.
\<close>

theorem idempotency_claimed_at_most_once:
  assumes "redis_server rd contents" and "idem_run rd contents env key s n"
  shows "n \<le> 1"
  using redis_server.idem_run_winners [OF assms] by simp

lemma idempotency_claimed_at_most_once_witness:
  "\<exists>s n. idem_run flaky snd ''test'' ''a'' s n \<and> n \<le> 1 \<and> snd s (build_key ''test'' ''idem'' ''a'') \<noteq> None"
proof -
  obtain res s where run: "claim_idempotency flaky ''test'' ''a'' 60 ([], Map.empty) = (res, s)"
    by (metis surj_pair)
  have reach: "idem_run flaky snd ''test'' ''a'' s (0 + (if res = Inr True then 1 else 0))"
    by (rule idem_claim [OF idem_start _ _ run]) simp_all
  moreover have "snd s (build_key ''test'' ''idem'' ''a'') \<noteq> None"
    using run by (auto simp: claim_idempotency_def seqE_def flaky_def)
  ultimately show ?thesis
    using idempotency_claimed_at_most_once [OF flaky.redis_server_axioms reach] by blast
qed

text \<open>
  C4. The lock is exclusive and never stolen: however contexts enter, leave, crash out of their
  lease and leave late, with connections lost at any point, at most one context whose lease runs
  holds the lock, and the key holds its token.
\<close>

theorem lock_is_exclusive:
  assumes "redis_server rd contents" and "lock_run rd contents env key s held used"
  shows "length held \<le> 1 \<and> (\<forall>token \<in> set held. contents s (build_key env ''lock'' key) = Some token)"
  using redis_server.lock_run_exclusive [OF assms] by simp

lemma lock_is_exclusive_witness:
  "\<exists>s. lock_run flaky snd ''test'' ''a'' s [''t1''] {''t1''} \<and> length [''t1''] \<le> 1"
proof -
  obtain res s where run: "lock_enter flaky ''test'' ''a'' ''t1'' 60 ([], Map.empty) = (res, s)"
    by (metis surj_pair)
  then have "res = Inr True" by (auto simp: lock_enter_def seqE_def flaky_def)
  then have reach: "lock_run flaky snd ''test'' ''a'' s [''t1''] {''t1''}"
    using lock_enters [OF lock_start _ _ _ run, of snd] by simp
  then show ?thesis using lock_is_exclusive [OF flaky.redis_server_axioms reach] by blast
qed





end
