(* ===== verification/Tags.thy ===== *)
theory Tags
  imports Sql Enums Ids
begin

text \<open>
  Models \<open>src/ipa/db/repositories/tag.py\<close> with the \<open>tags\<close>, \<open>tag_fields\<close> and \<open>tag_versions\<close>
  tables: creating a tag with its fields, looking it up by slug, replacing the fields, and the
  immutable snapshots of its schema.

  A slug is \<open>citext\<close>: \<open>fold_case\<close> stands for the case folding the database compares it under, and
  \<open>slug_le\<close> for the collation it is ordered by. A tag and its fields live in two tables, so the
  operations that write both take a pair of tables, and the engine of the second depends on the
  first, whose rows it refers to.
\<close>

section \<open>The tables\<close>

record tag_row =
  tag_id :: uuid
  tag_slug :: string
  tag_name :: string
  tag_description :: string
  tag_version :: int
  tag_is_active :: bool
  tag_auto_approve_threshold :: "rat option"
  tag_prompt_template :: "string option"
  tag_llm_model :: "string option"
  tag_classification_hints :: "string option"
  tag_created_at :: timestamp
  tag_updated_at :: timestamp

definition tag_fits :: "tag_row \<Rightarrow> bool" where
  "tag_fits r \<longleftrightarrow>
     text_ok (tag_slug r) \<and> text_ok (tag_name r) \<and> text_ok (tag_description r) \<and> int4 (tag_version r)
     \<and> nullable numeric_4_3_ok (tag_auto_approve_threshold r) \<and> nullable text_ok (tag_prompt_template r)
     \<and> nullable text_ok (tag_llm_model r) \<and> nullable text_ok (tag_classification_hints r)"

text \<open>The check \<open>auto_approve_threshold_range\<close>.\<close>

definition threshold_in_range :: "tag_row \<Rightarrow> bool" where
  "threshold_in_range r \<longleftrightarrow> nullable (\<lambda>x. 0 \<le> x \<and> x \<le> 1) (tag_auto_approve_threshold r)"

definition tags_ok :: "(string \<Rightarrow> string) \<Rightarrow> tag_row list \<Rightarrow> bool" where
  "tags_ok fold_case t \<longleftrightarrow>
     distinct (map tag_id t) \<and> distinct (map (\<lambda>r. fold_case (tag_slug r)) t)
     \<and> (\<forall>r \<in> set t. threshold_in_range r)"

record field_row =
  tf_id :: uuid
  tf_tag_id :: uuid
  tf_key :: string
  tf_label :: string
  tf_field_type :: field_type
  tf_description :: "string option"
  tf_is_required :: bool
  tf_position :: int
  tf_enum_values :: "string list option"
  tf_regex :: "string option"
  tf_min_value :: "rat option"
  tf_max_value :: "rat option"
  tf_min_length :: "int option"
  tf_max_length :: "int option"
  tf_item_type :: "string option"
  tf_object_schema :: "json_dict option"
  tf_created_at :: timestamp
  tf_updated_at :: timestamp

text \<open>The decimals of a float lie far inside the range of \<open>numeric\<close>.\<close>

definition field_fits :: "field_row \<Rightarrow> bool" where
  "field_fits r \<longleftrightarrow>
     text_ok (tf_key r) \<and> text_ok (tf_label r) \<and> nullable text_ok (tf_description r)
     \<and> int4 (tf_position r) \<and> nullable (list_all text_ok) (tf_enum_values r)
     \<and> nullable text_ok (tf_regex r) \<and> nullable int4 (tf_min_length r) \<and> nullable int4 (tf_max_length r)
     \<and> nullable text_ok (tf_item_type r) \<and> nullable json_dict_ok (tf_object_schema r)"

definition fields_ok :: "uuid set \<Rightarrow> field_row list \<Rightarrow> bool" where
  "fields_ok tags t \<longleftrightarrow>
     distinct (map tf_id t) \<and> distinct (map (\<lambda>r. (tf_tag_id r, tf_key r)) t)
     \<and> distinct (map (\<lambda>r. (tf_tag_id r, tf_position r)) t) \<and> (\<forall>r \<in> set t. tf_tag_id r \<in> tags)"

record tag_version_row =
  tv_id :: uuid
  tv_tag_id :: uuid
  tv_version :: int
  tv_snapshot :: json_dict
  tv_created_at :: timestamp

definition tv_fits :: "tag_version_row \<Rightarrow> bool" where
  "tv_fits r \<longleftrightarrow> int4 (tv_version r) \<and> json_dict_ok (tv_snapshot r)"

definition tv_key :: "tag_version_row \<Rightarrow> uuid \<times> int" where
  "tv_key r = (tv_tag_id r, tv_version r)"

definition tvs_ok :: "uuid set \<Rightarrow> tag_version_row list \<Rightarrow> bool" where
  "tvs_ok tags t \<longleftrightarrow>
     distinct (map tv_id t) \<and> distinct (map tv_key t) \<and> (\<forall>r \<in> set t. tv_tag_id r \<in> tags)"

section \<open>Inputs\<close>

text \<open>\<open>TagFieldCreate\<close>.\<close>

record tag_field_create =
  fc_key :: string
  fc_label :: string
  fc_field_type :: field_type
  fc_description :: "string option"
  fc_is_required :: bool
  fc_position :: int
  fc_enum_values :: "string list option"
  fc_regex :: "string option"
  fc_min_value :: "rat option"
  fc_max_value :: "rat option"
  fc_min_length :: "int option"
  fc_max_length :: "int option"
  fc_item_type :: "string option"
  fc_object_schema :: "json_dict option"

text \<open>The arguments of \<open>create\<close> but for the fields.\<close>

record tag_values =
  tc_slug :: string
  tc_name :: string
  tc_description :: string
  tc_auto_approve_threshold :: "rat option"
  tc_prompt_template :: "string option"
  tc_llm_model :: "string option"
  tc_classification_hints :: "string option"

definition new_tag :: "uuid \<Rightarrow> timestamp \<Rightarrow> tag_values \<Rightarrow> tag_row" where
  "new_tag i now v =
     \<lparr>tag_id = i, tag_slug = tc_slug v, tag_name = tc_name v, tag_description = tc_description v,
      tag_version = 1, tag_is_active = True,
      tag_auto_approve_threshold = map_option numeric_4_3 (tc_auto_approve_threshold v),
      tag_prompt_template = tc_prompt_template v, tag_llm_model = tc_llm_model v,
      tag_classification_hints = tc_classification_hints v, tag_created_at = now,
      tag_updated_at = now\<rparr>"

definition new_field :: "uuid \<Rightarrow> timestamp \<Rightarrow> uuid \<Rightarrow> tag_field_create \<Rightarrow> field_row" where
  "new_field i now tid f =
     \<lparr>tf_id = i, tf_tag_id = tid, tf_key = fc_key f, tf_label = fc_label f,
      tf_field_type = fc_field_type f, tf_description = fc_description f,
      tf_is_required = fc_is_required f, tf_position = fc_position f,
      tf_enum_values = fc_enum_values f, tf_regex = fc_regex f, tf_min_value = fc_min_value f,
      tf_max_value = fc_max_value f, tf_min_length = fc_min_length f, tf_max_length = fc_max_length f,
      tf_item_type = fc_item_type f, tf_object_schema = fc_object_schema f, tf_created_at = now,
      tf_updated_at = now\<rparr>"

section \<open>The repository\<close>

text \<open>\<open>_write_fields\<close>: one flush inserts them all; \<open>ids\<close> are the row ids drawn for them.\<close>

definition write_fields ::
  "field_row engine \<Rightarrow> uuid list \<Rightarrow> timestamp \<Rightarrow> uuid \<Rightarrow> tag_field_create list
     \<Rightarrow> field_row list \<Rightarrow> (py_exn + unit) \<times> field_row list" where
  "write_fields ex ids now tid new_fields =
     seqE (ex (Insert (map2 (\<lambda>i f. new_field i now tid f) ids new_fields))) (\<lambda>_. retE ())"

definition list_fields ::
  "field_row engine \<Rightarrow> uuid \<Rightarrow> field_row list \<Rightarrow> (py_exn + field_row list) \<times> field_row list" where
  "list_fields ex tid =
     ex (Select (\<lambda>r. tf_tag_id r = tid) (\<lambda>a b. tf_position a \<le> tf_position b) None 0)"

definition replace_fields ::
  "field_row engine \<Rightarrow> uuid list \<Rightarrow> timestamp \<Rightarrow> uuid \<Rightarrow> tag_field_create list
     \<Rightarrow> field_row list \<Rightarrow> (py_exn + field_row list) \<times> field_row list" where
  "replace_fields ex ids now tid new_fields =
     seqE (ex (Delete (\<lambda>r. tf_tag_id r = tid))) (\<lambda>_.
     seqE (write_fields ex ids now tid new_fields) (\<lambda>_. list_fields ex tid))"

definition slug_conflict :: "string \<Rightarrow> ipa_error" where
  "slug_conflict slug = raise_error ConflictError (''tag slug already exists: '' @ slug)"

text \<open>An operation on the first or the second of two tables.\<close>

definition on_fst :: "('a \<Rightarrow> ('e + 'r) \<times> 'a) \<Rightarrow> 'a \<times> 'b \<Rightarrow> ('e + 'r) \<times> ('a \<times> 'b)" where
  "on_fst m s = (case m (fst s) of (r, a) \<Rightarrow> (r, (a, snd s)))"

definition on_snd :: "('a \<Rightarrow> 'b \<Rightarrow> ('e + 'r) \<times> 'b) \<Rightarrow> 'a \<times> 'b \<Rightarrow> ('e + 'r) \<times> ('a \<times> 'b)" where
  "on_snd m s = (case m (fst s) (snd s) of (r, b) \<Rightarrow> (r, (fst s, b)))"

definition create_tag ::
  "tag_row engine \<Rightarrow> (tag_row list \<Rightarrow> field_row engine) \<Rightarrow> uuid \<Rightarrow> uuid list \<Rightarrow> timestamp
     \<Rightarrow> tag_values \<Rightarrow> tag_field_create list option
     \<Rightarrow> tag_row list \<times> field_row list \<Rightarrow> (py_exn + tag_row) \<times> (tag_row list \<times> field_row list)" where
  "create_tag ex exf new_id ids now v new_fields =
     seqE (on_fst (as_conflict (slug_conflict (tc_slug v)) (ex (Insert [new_tag new_id now v])))) (\<lambda>_.
     seqE (case new_fields of
             None \<Rightarrow> retE ()
           | Some fs \<Rightarrow>
               if fs = [] then retE ()
               else on_snd (\<lambda>tags. write_fields (exf tags) ids now new_id fs)) (\<lambda>_.
     on_fst (refresh ex (\<lambda>r. tag_id r = new_id))))"

definition get_tag :: "tag_row engine \<Rightarrow> uuid \<Rightarrow> tag_row list \<Rightarrow> (py_exn + tag_row option) \<times> tag_row list" where
  "get_tag ex tid = fetch_one ex (\<lambda>r. tag_id r = tid)"

definition get_by_slug ::
  "tag_row engine \<Rightarrow> (string \<Rightarrow> string) \<Rightarrow> string \<Rightarrow> tag_row list \<Rightarrow> (py_exn + tag_row option) \<times> tag_row list"
where
  "get_by_slug ex fold_case slug = fetch_one ex (\<lambda>r. fold_case (tag_slug r) = fold_case slug)"

definition list_tags ::
  "tag_row engine \<Rightarrow> (string \<Rightarrow> string \<Rightarrow> bool) \<Rightarrow> bool \<Rightarrow> tag_row list \<Rightarrow> (py_exn + tag_row list) \<times> tag_row list"
where
  "list_tags ex slug_le include_inactive =
     ex (Select (\<lambda>r. include_inactive \<or> tag_is_active r) (\<lambda>a b. slug_le (tag_slug a) (tag_slug b)) None 0)"

text \<open>The bump writes the version and, by \<open>onupdate\<close>, the update time.\<close>

definition bumped :: "timestamp \<Rightarrow> tag_row \<Rightarrow> tag_row" where
  "bumped now r = r\<lparr>tag_version := tag_version r + 1, tag_updated_at := now\<rparr>"

definition bump_version ::
  "tag_row engine \<Rightarrow> timestamp \<Rightarrow> uuid \<Rightarrow> tag_row list \<Rightarrow> (py_exn + tag_row option) \<times> tag_row list" where
  "bump_version ex now tid = update_one ex (\<lambda>r. tag_id r = tid) (bumped now)"

definition version_conflict :: "uuid \<Rightarrow> int \<Rightarrow> ipa_error" where
  "version_conflict tid version =
     raise_error ConflictError
       (''tag '' @ str_uuid tid @ '' already has a version '' @ str_int version @ '' snapshot'')"

definition snapshot ::
  "tag_version_row engine \<Rightarrow> uuid \<Rightarrow> timestamp \<Rightarrow> uuid \<Rightarrow> int \<Rightarrow> json_dict
     \<Rightarrow> tag_version_row list \<Rightarrow> (py_exn + tag_version_row) \<times> tag_version_row list" where
  "snapshot ex new_id now tid version snap =
     insert_unique ex (version_conflict tid version) (\<lambda>r. tv_id r = new_id)
       \<lparr>tv_id = new_id, tv_tag_id = tid, tv_version = version, tv_snapshot = snap,
        tv_created_at = now\<rparr>"

definition get_version ::
  "tag_version_row engine \<Rightarrow> uuid \<Rightarrow> int
     \<Rightarrow> tag_version_row list \<Rightarrow> (py_exn + tag_version_row option) \<times> tag_version_row list" where
  "get_version ex tid version = fetch_one ex (\<lambda>r. tv_tag_id r = tid \<and> tv_version r = version)"

section \<open>Lemmas\<close>

lemma tags_ok_perm: "mset t' = mset t \<Longrightarrow> tags_ok fold_case t \<Longrightarrow> tags_ok fold_case t'"
  unfolding tags_ok_def by (metis distinct_map_mset set_mset_mset)

lemma fields_ok_perm:
  assumes "mset t' = mset t" and "fields_ok tags t"
  shows "fields_ok tags t'"
proof -
  have "set t' = set t" using assms(1) by (rule mset_eq_setD)
  then show ?thesis
    using assms(2) distinct_map_mset [OF assms(1), of tf_id]
      distinct_map_mset [OF assms(1), of "\<lambda>r. (tf_tag_id r, tf_key r)"]
      distinct_map_mset [OF assms(1), of "\<lambda>r. (tf_tag_id r, tf_position r)"]
    by (simp add: fields_ok_def)
qed

lemma tvs_ok_perm: "mset t' = mset t \<Longrightarrow> tvs_ok tags t \<Longrightarrow> tvs_ok tags t'"
  unfolding tvs_ok_def by (metis distinct_map_mset set_mset_mset)

interpretation tag_engine: sql_engine "pg_execute tag_fits (tags_ok fold_case)" tag_fits "tags_ok fold_case"
  for fold_case
  by (rule pg_execute_sql_engine) (rule tags_ok_perm)

interpretation field_engine: sql_engine "pg_execute field_fits (fields_ok tags)" field_fits "fields_ok tags"
  for tags
  by (rule pg_execute_sql_engine) (rule fields_ok_perm)

interpretation tv_engine: sql_engine "pg_execute tv_fits (tvs_ok tags)" tv_fits "tvs_ok tags" for tags
  by (rule pg_execute_sql_engine) (rule tvs_ok_perm)

lemma new_tag_simps [simp]:
  "tag_id (new_tag i now v) = i" "tag_slug (new_tag i now v) = tc_slug v"
  by (simp_all add: new_tag_def)

lemma new_field_simps [simp]:
  "tf_id (new_field i now d f) = i" "tf_tag_id (new_field i now d f) = d"
  "tf_key (new_field i now d f) = fc_key f" "tf_position (new_field i now d f) = fc_position f"
  by (simp_all add: new_field_def)

lemma tags_ok_snoc:
  "tags_ok fold_case (t @ [n]) \<longleftrightarrow>
     tags_ok fold_case t \<and> tag_id n \<notin> tag_id ` set t
     \<and> fold_case (tag_slug n) \<notin> (\<lambda>r. fold_case (tag_slug r)) ` set t \<and> threshold_in_range n"
  by (auto simp: tags_ok_def)

lemma fields_ok_filter: "fields_ok tags t \<Longrightarrow> fields_ok tags (filter p t)"
  by (auto simp: fields_ok_def intro: distinct_map_filter)

lemma fields_ok_mono: "fields_ok tags t \<Longrightarrow> tags \<subseteq> tags' \<Longrightarrow> fields_ok tags' t"
  by (auto simp: fields_ok_def)

text \<open>The rows \<open>write_fields\<close> inserts, and when the table takes them.\<close>

definition field_rows :: "uuid list \<Rightarrow> timestamp \<Rightarrow> uuid \<Rightarrow> tag_field_create list \<Rightarrow> field_row list" where
  "field_rows ids now tid fs = map2 (\<lambda>i f. new_field i now tid f) ids fs"

definition fields_writable ::
  "uuid list \<Rightarrow> timestamp \<Rightarrow> uuid \<Rightarrow> tag_field_create list \<Rightarrow> field_row list \<Rightarrow> bool" where
  "fields_writable ids now tid fs t \<longleftrightarrow>
     length ids = length fs \<and> distinct ids \<and> distinct (map fc_key fs) \<and> distinct (map fc_position fs)
     \<and> list_all field_fits (field_rows ids now tid fs) \<and> set ids \<inter> tf_id ` set t = {}"

lemma field_rows_columns:
  assumes "length ids = length fs"
  shows "map tf_id (field_rows ids now tid fs) = ids"
    and "map tf_key (field_rows ids now tid fs) = map fc_key fs"
    and "map tf_position (field_rows ids now tid fs) = map fc_position fs"
    and "\<forall>r \<in> set (field_rows ids now tid fs). tf_tag_id r = tid"
  using assms by (induction ids fs rule: list_induct2) (simp_all add: field_rows_def)

lemma pair_key_distinct:
  "\<forall>r \<in> set xs. g r = d \<Longrightarrow> distinct (map (\<lambda>r. (g r, f r)) xs) \<longleftrightarrow> distinct (map f xs)"
  by (auto simp: distinct_map inj_on_def)

lemma fields_ok_append:
  assumes ok: "fields_ok tags t" and w: "fields_writable ids now tid fs t"
    and none: "\<forall>r \<in> set t. tf_tag_id r \<noteq> tid" and tid: "tid \<in> tags"
  shows "fields_ok tags (t @ field_rows ids now tid fs)"
proof -
  let ?new = "field_rows ids now tid fs"
  have len: "length ids = length fs" using w by (simp add: fields_writable_def)
  note cols = field_rows_columns [OF len, of now tid]
  have "distinct (map (\<lambda>r. (tf_tag_id r, tf_key r)) ?new)"
    and "distinct (map (\<lambda>r. (tf_tag_id r, tf_position r)) ?new)"
    using w cols by (simp_all add: pair_key_distinct [of _ tf_tag_id tid] fields_writable_def)
  moreover have "distinct (map tf_id ?new)" "tf_id ` set ?new = set ids"
    using w cols(1) by (simp_all add: fields_writable_def) (metis cols(1) set_map)
  ultimately show ?thesis
    using ok w none tid cols(4) by (auto simp: fields_ok_def fields_writable_def)
qed

lemma list_fields_exec:
  assumes eng: "sql_engine ex field_fits (fields_ok tags)" and ok: "fields_ok tags t"
  shows "list_fields ex tid t = (Inr (sort_key tf_position (filter (\<lambda>r. tf_tag_id r = tid) t)), t)"
proof -
  let ?mine = "filter (\<lambda>r. tf_tag_id r = tid) t"
  have "window_ok None 0" by (simp add: window_ok_def int8_def)
  from sql_engine.select_by [OF eng this, of "\<lambda>r. tf_tag_id r = tid" tf_position t]
  obtain rows where rows: "list_fields ex tid t = (Inr rows, t)" "mset rows = mset ?mine"
    "sorted_wrt (\<lambda>a b. tf_position a \<le> tf_position b) rows"
    by (auto simp: list_fields_def window_def)
  have "distinct (map (\<lambda>r. (tf_tag_id r, tf_position r)) ?mine)"
    using ok by (simp add: fields_ok_def distinct_map_filter)
  then have "distinct (map tf_position ?mine)"
    by (subst (asm) pair_key_distinct [of _ tf_tag_id tid]) auto
  with rows show ?thesis using sort_key_unique by metis
qed

lemma write_fields_exec:
  assumes eng: "sql_engine ex field_fits (fields_ok tags)" and ok: "fields_ok tags t"
    and w: "fields_writable ids now tid fs t"
    and none: "\<forall>r \<in> set t. tf_tag_id r \<noteq> tid" and tid: "tid \<in> tags"
  obtains t' where "write_fields ex ids now tid fs t = (Inr (), t')"
    "mset t' = mset (t @ field_rows ids now tid fs)" "fields_ok tags t'"
    "list_fields ex tid t' = (Inr (sort_key tf_position (field_rows ids now tid fs)), t')"
proof -
  let ?new = "field_rows ids now tid fs"
  have ok1: "fields_ok tags (t @ ?new)" using fields_ok_append [OF ok w none tid] .
  have "list_all field_fits ?new" using w by (simp add: fields_writable_def)
  then obtain t' where ins: "ex (Insert ?new) t = (Inr [], t')" and t': "mset t' = mset (t @ ?new)"
    using sql_engine.insert [OF eng ok _ ok1] by blast
  have ok': "fields_ok tags t'" using t' ok1 by (rule fields_ok_perm)
  have "filter (\<lambda>r. tf_tag_id r = tid) ?new = ?new"
    using field_rows_columns(4) w by (intro filter_True) (auto simp: fields_writable_def)
  moreover have "filter (\<lambda>r. tf_tag_id r = tid) t = []" using none by (simp add: filter_empty_conv)
  ultimately have only: "filter (\<lambda>r. tf_tag_id r = tid) (t @ ?new) = ?new" by simp
  have "mset (filter (\<lambda>r. tf_tag_id r = tid) t') = filter_mset (\<lambda>r. tf_tag_id r = tid) (mset (t @ ?new))"
    by (simp add: t')
  also have "\<dots> = mset ?new" unfolding mset_filter [symmetric] only by (rule refl)
  finally have mine: "mset (filter (\<lambda>r. tf_tag_id r = tid) t') = mset ?new" .
  have "distinct (map tf_position ?new)"
    using field_rows_columns(3) w by (simp add: fields_writable_def)
  then have "sort_key tf_position (filter (\<lambda>r. tf_tag_id r = tid) t') = sort_key tf_position ?new"
    using mine by (intro sort_key_unique) (simp_all add: sorted_wrt_sort_key)
  then have "list_fields ex tid t' = (Inr (sort_key tf_position ?new), t')"
    by (simp add: list_fields_exec [OF eng ok'])
  moreover have "write_fields ex ids now tid fs t = (Inr (), t')"
    using ins by (simp add: write_fields_def seqE_def field_rows_def)
  ultimately show thesis using that t' ok' by blast
qed

lemma get_by_slug_exec:
  assumes eng: "sql_engine ex tag_fits (tags_ok fold_case)" and ok: "tags_ok fold_case t"
  shows "get_by_slug ex fold_case slug t =
    (Inr (table_map (\<lambda>r. fold_case (tag_slug r)) t (fold_case slug)), t)"
proof -
  have "distinct (map (\<lambda>r. fold_case (tag_slug r)) t)" using ok by (simp add: tags_ok_def)
  from find_key_eq [OF this, of "fold_case slug"] show ?thesis
    unfolding get_by_slug_def by (rule sql_engine.fetch_one_unique [OF eng])
qed

lemma replace_fields_exec:
  assumes eng: "sql_engine ex field_fits (fields_ok tags)" and ok: "fields_ok tags t"
    and w: "fields_writable ids now tid fs (filter (\<lambda>r. tf_tag_id r \<noteq> tid) t)" and tid: "tid \<in> tags"
  obtains t' where "replace_fields ex ids now tid fs t =
      (Inr (sort_key tf_position (field_rows ids now tid fs)), t')"
    "mset t' = mset (filter (\<lambda>r. tf_tag_id r \<noteq> tid) t @ field_rows ids now tid fs)" "fields_ok tags t'"
proof -
  let ?keep = "filter (\<lambda>r. tf_tag_id r \<noteq> tid) t"
  have okk: "fields_ok tags ?keep" using ok by (rule fields_ok_filter)
  obtain t1 where del: "ex (Delete (\<lambda>r. tf_tag_id r = tid)) t = (Inr [], t1)"
    and t1: "mset t1 = mset ?keep"
    using sql_engine.delete [OF eng ok, of "\<lambda>r. tf_tag_id r = tid"] okk by auto
  have ok1: "fields_ok tags t1" using t1 okk by (rule fields_ok_perm)
  have set1: "set t1 = set ?keep" using t1 by (rule mset_eq_setD)
  have w1: "fields_writable ids now tid fs t1" using w by (simp add: fields_writable_def set1)
  obtain t' where "write_fields ex ids now tid fs t1 = (Inr (), t')"
    and t': "mset t' = mset (t1 @ field_rows ids now tid fs)" "fields_ok tags t'"
    and "list_fields ex tid t' = (Inr (sort_key tf_position (field_rows ids now tid fs)), t')"
    by (rule write_fields_exec [OF eng ok1 w1 _ tid]) (auto simp: set1)
  with del have "replace_fields ex ids now tid fs t =
      (Inr (sort_key tf_position (field_rows ids now tid fs)), t')"
    by (simp add: replace_fields_def seqE_def)
  moreover have "mset t' = mset (?keep @ field_rows ids now tid fs)" using t'(1) t1 by simp
  ultimately show thesis using that t'(2) by blast
qed

lemma snapshot_cases:
  assumes eng: "sql_engine ex tv_fits (tvs_ok tags)" and ok: "tvs_ok tags t"
  defines "n i now tid version snap \<equiv> \<lparr>tv_id = i, tv_tag_id = tid, tv_version = version,
      tv_snapshot = snap, tv_created_at = now\<rparr>"
  obtains (taken) t' where "snapshot ex i now tid version snap t = (Inr (n i now tid version snap), t')"
      "mset t' = mset (t @ [n i now tid version snap])" "tvs_ok tags t'"
      "(tid, version) \<notin> tv_key ` set t"
  | (range) m where "snapshot ex i now tid version snap t = (Inl (DBAPIError m), t)"
      "\<not> tv_fits (n i now tid version snap)"
  | (conflict) "snapshot ex i now tid version snap t = (Inl (IpaExn (version_conflict tid version)), t)"
      "i \<in> tv_id ` set t \<or> (tid, version) \<in> tv_key ` set t \<or> tid \<notin> tags"
proof -
  let ?n = "n i now tid version snap"
  have op: "snapshot ex i now tid version snap =
      insert_unique ex (version_conflict tid version) (\<lambda>r. tv_id r = i) ?n"
    by (simp add: snapshot_def n_def)
  have okn: "tvs_ok tags (t @ [?n]) \<longleftrightarrow>
      i \<notin> tv_id ` set t \<and> (tid, version) \<notin> tv_key ` set t \<and> tid \<in> tags"
    using ok by (auto simp: tvs_ok_def n_def tv_key_def)
  have "tv_id ?n = i" by (simp add: n_def)
  then have p: "tv_id r = i \<longleftrightarrow> tv_id r = tv_id ?n" for r by simp
  have d: "distinct (map tv_id (t @ [?n]))" if "tvs_ok tags (t @ [?n])" using that by (simp add: tvs_ok_def)
  show thesis
  proof (rule sql_engine.insert_unique_cases [OF eng ok d p, of "version_conflict tid version"])
  qed (use taken range conflict okn in \<open>auto simp: op\<close>)
qed

text \<open>The first flush of \<open>create\<close>.\<close>

lemma insert_tag_cases:
  assumes eng: "sql_engine ex tag_fits (tags_ok fold_case)" and ok: "tags_ok fold_case t"
  obtains (inserted) t' where "as_conflict c (ex (Insert [n])) t = (Inr [], t')"
      "set t' = insert n (set t)" "tags_ok fold_case t'" "tag_fits n" "tags_ok fold_case (t @ [n])"
  | (range) m where "as_conflict c (ex (Insert [n])) t = (Inl (DBAPIError m), t)" "\<not> tag_fits n"
  | (conflict) "as_conflict c (ex (Insert [n])) t = (Inl (IpaExn c), t)" "tag_fits n"
      "\<not> tags_ok fold_case (t @ [n])"
proof (cases "tag_fits n")
  case False
  then show thesis
    using sql_engine.insert_range [OF eng ok, of "[n]"] range by (auto simp: as_conflict_def catchE_def)
next
  case fit: True
  show thesis
  proof (cases "tags_ok fold_case (t @ [n])")
    case False
    then show thesis
      using sql_engine.insert_violation [OF eng ok, of "[n]"] fit conflict
      by (auto simp: as_conflict_def catchE_def)
  next
    case True
    then obtain t' where "ex (Insert [n]) t = (Inr [], t')" and t': "mset t' = mset (t @ [n])"
      using sql_engine.insert [OF eng ok, of "[n]"] fit by auto
    moreover have "set t' = insert n (set t)" using mset_eq_setD [OF t'] by simp
    ultimately show thesis
      using inserted fit True tags_ok_perm [OF t' True] by (simp add: as_conflict_Inr)
  qed
qed

lemma refresh_tag:
  assumes eng: "sql_engine ex tag_fits (tags_ok fold_case)" and ok: "tags_ok fold_case t"
    and "n \<in> set t"
  shows "refresh ex (\<lambda>r. tag_id r = tag_id n) t = (Inr n, t)"
proof -
  have dist: "distinct (map tag_id t)" using ok by (simp add: tags_ok_def)
  then show ?thesis
    using sql_engine.refresh_key [OF eng dist, of "\<lambda>r. tag_id r = tag_id n" "tag_id n" n] assms(3)
    by (simp add: table_map_SomeI)
qed

lemma get_tag_version_exec:
  assumes eng: "sql_engine ex tv_fits (tvs_ok tags)" and ok: "tvs_ok tags t"
  shows "get_version ex tid n t = (Inr (table_map tv_key t (tid, n)), t)"
proof -
  have "distinct (map tv_key t)" using ok by (simp add: tvs_ok_def)
  moreover have "(\<lambda>r. tv_tag_id r = tid \<and> tv_version r = n) = (\<lambda>r. tv_key r = (tid, n))"
    by (simp add: tv_key_def fun_eq_iff)
  ultimately have "filter (\<lambda>r. tv_tag_id r = tid \<and> tv_version r = n) t =
      (case table_map tv_key t (tid, n) of None \<Rightarrow> [] | Some r \<Rightarrow> [r])"
    using find_key_eq [of tv_key t "(tid, n)"] by simp
  then show ?thesis
    unfolding get_version_def by (rule sql_engine.fetch_one_unique [OF eng])
qed

text \<open>A sequence of snapshot calls, some of which may fail.\<close>

definition snapshot_run ::
  "tag_version_row engine \<Rightarrow> (uuid \<times> timestamp \<times> uuid \<times> int \<times> json_dict) list
     \<Rightarrow> tag_version_row list \<Rightarrow> tag_version_row list" where
  "snapshot_run ex ops t = fold (\<lambda>(i, now, d, n, snap) u. snd (snapshot ex i now d n snap u)) ops t"

lemma snapshot_keeps:
  assumes eng: "sql_engine ex tv_fits (tvs_ok tags)" and ok: "tvs_ok tags t"
    and r: "table_map tv_key t k = Some r"
  shows "tvs_ok tags (snd (snapshot ex i now d n snap t))
    \<and> table_map tv_key (snd (snapshot ex i now d n snap t)) k = Some r"
proof (rule snapshot_cases [OF eng ok, of i now d n snap])
  let ?n = "\<lparr>tv_id = i, tv_tag_id = d, tv_version = n, tv_snapshot = snap, tv_created_at = now\<rparr>"
  fix t' assume run: "snapshot ex i now d n snap t = (Inr ?n, t')"
    and t': "mset t' = mset (t @ [?n])" and ok': "tvs_ok tags t'"
  have "r \<in> set t" "tv_key r = k"
    using r ok table_map_Some [of tv_key t k r] by (simp_all add: tvs_ok_def)
  moreover from this have "r \<in> set t'" using mset_eq_setD [OF t'] by simp
  ultimately have "table_map tv_key t' k = Some r"
    using ok' by (intro table_map_SomeI) (simp_all add: tvs_ok_def)
  then show ?thesis using run ok' by simp
qed (use ok r in simp_all)

lemma snapshot_run_keeps:
  assumes eng: "sql_engine ex tv_fits (tvs_ok tags)"
  shows "tvs_ok tags t \<Longrightarrow> table_map tv_key t k = Some r \<Longrightarrow>
    tvs_ok tags (snapshot_run ex ops t) \<and> table_map tv_key (snapshot_run ex ops t) k = Some r"
proof (induction ops arbitrary: t)
  case Nil
  then show ?case by (simp add: snapshot_run_def)
next
  case (Cons op ops)
  obtain i now d n snap where "op = (i, now, d, n, snap)" by (cases op)
  then have "snapshot_run ex (op # ops) t = snapshot_run ex ops (snd (snapshot ex i now d n snap t))"
    by (simp add: snapshot_run_def)
  then show ?case using Cons.IH snapshot_keeps [OF eng Cons.prems] by simp
qed

section \<open>Properties\<close>

definition sample_tag :: tag_values where
  "sample_tag =
     \<lparr>tc_slug = ''invoice'', tc_name = ''Invoice'', tc_description = [],
      tc_auto_approve_threshold = Some (9 / 10), tc_prompt_template = None, tc_llm_model = None,
      tc_classification_hints = None\<rparr>"

definition sample_field :: "string \<Rightarrow> int \<Rightarrow> tag_field_create" where
  "sample_field key pos =
     \<lparr>fc_key = key, fc_label = key, fc_field_type = STRING, fc_description = None,
      fc_is_required = True, fc_position = pos, fc_enum_values = None, fc_regex = None,
      fc_min_value = None, fc_max_value = None, fc_min_length = None, fc_max_length = None,
      fc_item_type = None, fc_object_schema = None\<rparr>"

text \<open>Folding the case of a character by lower-casing A to Z.\<close>

definition ascii_lower :: "string \<Rightarrow> string" where
  "ascii_lower s = map (\<lambda>c. if 65 \<le> (of_char c :: nat) \<and> (of_char c :: nat) \<le> 90
     then char_of (of_char c + (32 :: nat)) else c) s"

lemma sample_threshold: "numeric_4_3 (9 / 10) = 9 / 10"
  by (simp add: numeric_4_3_def floor_eq_iff)

lemma sample_tag_fits: "tag_fits (new_tag i now sample_tag)" "threshold_in_range (new_tag i now sample_tag)"
  by (simp_all add: tag_fits_def threshold_in_range_def new_tag_def sample_tag_def text_ok_def
      int4_def numeric_4_3_ok_def sample_threshold)

lemma sample_fields_writable:
  "fields_writable [21, 22] now 5 [sample_field ''total'' 2, sample_field ''date'' 1] []"
  by (simp add: fields_writable_def field_rows_def field_fits_def new_field_def sample_field_def
      text_ok_def int4_def)

text \<open>
  A tag created with values that fit, a fresh id, a slug no tag has under case folding and a
  threshold in range is found by every spelling of its slug, and its fields are listed exactly, in
  the order of their positions.
\<close>

theorem created_tag_is_found:
  assumes "sql_engine ex tag_fits (tags_ok fold_case)" and "tags_ok fold_case t"
    and "\<And>tags. sql_engine (exf tags) field_fits (fields_ok (tag_id ` set tags))"
    and "fields_ok (tag_id ` set t) ft"
    and "tag_fits (new_tag i now v)" and "threshold_in_range (new_tag i now v)"
    and "i \<notin> tag_id ` set t"
    and "fold_case (tc_slug v) \<notin> (\<lambda>r. fold_case (tag_slug r)) ` set t"
    and "fields_writable ids now i fs ft"
  shows "\<exists>t' ft'. create_tag ex exf i ids now v (Some fs) (t, ft) = (Inr (new_tag i now v), (t', ft'))
    \<and> tags_ok fold_case t' \<and> fields_ok (tag_id ` set t') ft'
    \<and> (\<forall>s. fold_case s = fold_case (tc_slug v) \<longrightarrow>
          get_by_slug ex fold_case s t' = (Inr (Some (new_tag i now v)), t'))
    \<and> list_fields (exf t') i ft' = (Inr (sort_key tf_position (field_rows ids now i fs)), ft')"
proof -
  let ?n = "new_tag i now v" and ?c = "slug_conflict (tc_slug v)"
  have ok1: "tags_ok fold_case (t @ [?n])" using assms(2,6-8) by (simp add: tags_ok_snoc)
  obtain t' where ins: "as_conflict ?c (ex (Insert [?n])) t = (Inr [], t')"
    and set': "set t' = insert ?n (set t)" and ok': "tags_ok fold_case t'"
    by (rule insert_tag_cases [OF assms(1,2), of ?c ?n]) (use assms(5) ok1 in auto)
  have ids: "tag_id ` set t \<subseteq> tag_id ` set t'" "i \<in> tag_id ` set t'" by (auto simp: set')
  have okf: "fields_ok (tag_id ` set t') ft" using assms(4) ids(1) by (rule fields_ok_mono)
  have none: "\<forall>r \<in> set ft. tf_tag_id r \<noteq> i" using assms(4,7) by (auto simp: fields_ok_def)
  obtain ft' where wr: "write_fields (exf t') ids now i fs ft = (Inr (), ft')"
    and okf': "fields_ok (tag_id ` set t') ft'"
    and lst: "list_fields (exf t') i ft' = (Inr (sort_key tf_position (field_rows ids now i fs)), ft')"
    by (rule write_fields_exec [OF assms(3) okf assms(9) none ids(2)])
  have ref: "refresh ex (\<lambda>r. tag_id r = i) t' = (Inr ?n, t')"
    using refresh_tag [OF assms(1) ok', of ?n] by (simp add: set')
  have slug: "get_by_slug ex fold_case s t' = (Inr (Some ?n), t')" if "fold_case s = fold_case (tc_slug v)" for s
    using ok' that by (simp add: get_by_slug_exec [OF assms(1) ok'] set' tags_ok_def table_map_SomeI)
  show ?thesis
  proof (cases "fs = []")
    case True
    then have rows: "field_rows ids now i fs = []" by (simp add: field_rows_def)
    have "filter (\<lambda>r. tf_tag_id r = i) ft = []" using none by (simp add: filter_empty_conv)
    then have "list_fields (exf t') i ft = (Inr (sort_key tf_position (field_rows ids now i fs)), ft)"
      by (simp add: list_fields_exec [OF assms(3) okf] rows)
    moreover have "create_tag ex exf i ids now v (Some fs) (t, ft) = (Inr ?n, (t', ft))"
      using ins ref True by (simp add: create_tag_def seqE_def on_fst_def)
    ultimately show ?thesis using ok' okf slug by blast
  next
    case False
    then have "create_tag ex exf i ids now v (Some fs) (t, ft) = (Inr ?n, (t', ft'))"
      using ins ref wr by (simp add: create_tag_def seqE_def on_fst_def on_snd_def)
    then show ?thesis using ok' okf' slug lst by blast
  qed
qed

lemma created_tag_is_found_witness:
  "\<exists>t' ft'. get_by_slug (pg_execute tag_fits (tags_ok ascii_lower)) ascii_lower ''INVOICE'' t'
      = (Inr (Some (new_tag 5 9 sample_tag)), t')
    \<and> list_fields (pg_execute field_fits (fields_ok (tag_id ` set t'))) 5 ft' =
      (Inr [new_field 22 9 5 (sample_field ''date'' 1), new_field 21 9 5 (sample_field ''total'' 2)], ft')"
proof -
  have fold: "ascii_lower ''INVOICE'' = ascii_lower (tc_slug sample_tag)"
    by (simp add: ascii_lower_def sample_tag_def char_of_def bit_0)
  have rows: "sort_key tf_position (field_rows [21, 22] 9 5 [sample_field ''total'' 2, sample_field ''date'' 1])
      = [new_field 22 9 5 (sample_field ''date'' 1), new_field 21 9 5 (sample_field ''total'' 2)]"
    by (simp add: field_rows_def sample_field_def)
  have "tags_ok ascii_lower []" "fields_ok (tag_id ` set []) []" by (simp_all add: tags_ok_def fields_ok_def)
  from created_tag_is_found [where exf = "\<lambda>tags. pg_execute field_fits (fields_ok (tag_id ` set tags))",
      OF tag_engine.sql_engine_axioms this(1) field_engine.sql_engine_axioms this(2)
        sample_tag_fits _ _ sample_fields_writable, of 9]
  show ?thesis unfolding rows using fold by auto
qed

text \<open>
  When a slug is taken in any spelling, creating the tag raises ConflictError with its message
  and changes nothing. A threshold outside [0, 1] that fits its column is reported with the very
  same message, though the slug is free.
\<close>

theorem create_tag_reports_conflict:
  assumes "sql_engine ex tag_fits (tags_ok fold_case)" and "tags_ok fold_case t"
    and "tag_fits (new_tag i now v)"
    and "(\<exists>r \<in> set t. fold_case (tag_slug r) = fold_case (tc_slug v)) \<or> \<not> threshold_in_range (new_tag i now v)"
  shows "\<exists>e. create_tag ex exf i ids now v new_fields (t, ft) = (Inl (IpaExn e), (t, ft))
    \<and> err_class e = ConflictError \<and> err_detail e = ''tag slug already exists: '' @ tc_slug v"
proof -
  let ?c = "slug_conflict (tc_slug v)"
  have "\<not> tags_ok fold_case (t @ [new_tag i now v])"
    using assms(4) by (auto simp: tags_ok_snoc intro: rev_image_eqI)
  then have "as_conflict ?c (ex (Insert [new_tag i now v])) t = (Inl (IpaExn ?c), t)"
    by (rule_tac insert_tag_cases [OF assms(1,2), of ?c "new_tag i now v"]) (use assms(3) in auto)
  moreover have "err_detail ?c = ''tag slug already exists: '' @ tc_slug v"
    by (simp add: slug_conflict_def make_error_def)
  ultimately show ?thesis
    by (simp add: create_tag_def seqE_def on_fst_def) (simp add: slug_conflict_def)
qed

lemma create_tag_reports_conflict_witness:
  "\<exists>e. create_tag (pg_execute tag_fits (tags_ok ascii_lower)) (\<lambda>_. pg_execute field_fits (fields_ok {}))
      5 [] 9 (sample_tag\<lparr>tc_auto_approve_threshold := Some 2\<rparr>) None ([], []) = (Inl (IpaExn e), ([], []))
    \<and> err_detail e = ''tag slug already exists: invoice''"
proof -
  let ?v = "sample_tag\<lparr>tc_auto_approve_threshold := Some 2\<rparr>"
  have two: "numeric_4_3 2 = 2" by (simp add: numeric_4_3_def floor_eq_iff)
  have "tag_fits (new_tag 5 9 ?v)" "\<not> threshold_in_range (new_tag 5 9 ?v)" "tags_ok ascii_lower []"
    by (simp_all add: tag_fits_def threshold_in_range_def tags_ok_def new_tag_def two)
      (simp_all add: sample_tag_def text_ok_def int4_def numeric_4_3_ok_def)
  then obtain e where "create_tag (pg_execute tag_fits (tags_ok ascii_lower))
      (\<lambda>_. pg_execute field_fits (fields_ok {})) 5 [] 9 ?v None ([], []) = (Inl (IpaExn e), ([], []))"
    and "err_detail e = ''tag slug already exists: '' @ tc_slug ?v"
    using create_tag_reports_conflict [OF tag_engine.sql_engine_axioms, of ascii_lower "[]" 5 9 ?v]
    by blast
  then show ?thesis by (auto simp: sample_tag_def)
qed

text \<open>
  Replacing a tag's fields by ones the tables take leaves exactly the new fields, listed in the
  order of their positions, even when they reuse keys or positions of the old ones, and does not
  touch the fields of any other tag.
\<close>

theorem replace_fields_replaces:
  assumes "sql_engine ex field_fits (fields_ok tags)" and "fields_ok tags t" and "tid \<in> tags"
    and "fields_writable ids now tid fs (filter (\<lambda>r. tf_tag_id r \<noteq> tid) t)"
  shows "\<exists>t'. replace_fields ex ids now tid fs t =
      (Inr (sort_key tf_position (field_rows ids now tid fs)), t')
    \<and> fields_ok tags t'
    \<and> (\<forall>other. other \<noteq> tid \<longrightarrow> list_fields ex other t' = (fst (list_fields ex other t), t'))"
proof -
  obtain t' where rep: "replace_fields ex ids now tid fs t =
      (Inr (sort_key tf_position (field_rows ids now tid fs)), t')"
    and t': "mset t' = mset (filter (\<lambda>r. tf_tag_id r \<noteq> tid) t @ field_rows ids now tid fs)"
    and ok': "fields_ok tags t'"
    by (rule replace_fields_exec [OF assms(1,2,4,3)])
  have "list_fields ex other t' = (fst (list_fields ex other t), t')" if other: "other \<noteq> tid" for other
  proof -
    let ?mine = "\<lambda>u. filter (\<lambda>r. tf_tag_id r = other) u"
    have len: "length ids = length fs" using assms(4) by (simp add: fields_writable_def)
    have none: "?mine (field_rows ids now tid fs) = []"
      using field_rows_columns(4) [OF len, of now tid] other by (auto simp: filter_empty_conv)
    have keep: "?mine (filter (\<lambda>r. tf_tag_id r \<noteq> tid) t) = ?mine t"
      using other by (auto intro: filter_cong)
    have "mset (?mine t') = filter_mset (\<lambda>r. tf_tag_id r = other)
        (mset (filter (\<lambda>r. tf_tag_id r \<noteq> tid) t @ field_rows ids now tid fs))"
      by (simp only: mset_filter t')
    also have "\<dots> = mset (?mine t)"
      unfolding mset_filter [symmetric] filter_append none keep by simp
    finally have same: "mset (?mine t') = mset (?mine t)" .
    have "distinct (map (\<lambda>r. (tf_tag_id r, tf_position r)) (?mine t))"
      using assms(2) by (intro distinct_map_filter) (simp add: fields_ok_def)
    then have "distinct (map tf_position (?mine t))"
      by (subst (asm) pair_key_distinct [of _ tf_tag_id other]) auto
    then have "sort_key tf_position (?mine t') = sort_key tf_position (?mine t)"
      using same by (intro sort_key_unique) (simp_all add: sorted_wrt_sort_key)
    then show ?thesis
      by (simp add: list_fields_exec [OF assms(1) ok'] list_fields_exec [OF assms(1,2)])
  qed
  with rep ok' show ?thesis by blast
qed

lemma replace_fields_replaces_witness:
  "\<exists>t'. replace_fields (pg_execute field_fits (fields_ok {5})) [21, 22] 9 5
        [sample_field ''total'' 2, sample_field ''date'' 1] [new_field 20 1 5 (sample_field ''date'' 2)]
      = (Inr [new_field 22 9 5 (sample_field ''date'' 1), new_field 21 9 5 (sample_field ''total'' 2)], t')"
proof -
  have rows: "sort_key tf_position (field_rows [21, 22] 9 5 [sample_field ''total'' 2, sample_field ''date'' 1])
      = [new_field 22 9 5 (sample_field ''date'' 1), new_field 21 9 5 (sample_field ''total'' 2)]"
    by (simp add: field_rows_def sample_field_def)
  have "fields_ok {5} [new_field 20 1 5 (sample_field ''date'' 2)]" by (simp add: fields_ok_def)
  from replace_fields_replaces [OF field_engine.sql_engine_axioms this, of 5 "[21, 22]" 9
      "[sample_field ''total'' 2, sample_field ''date'' 1]"]
  show ?thesis unfolding rows using sample_fields_writable by auto
qed

text \<open>
  C35. Snapshots are immutable: whatever snapshot calls follow, one that was recorded is still read
  back unchanged; recording the same version of a tag again raises ConflictError and changes
  nothing.
\<close>

theorem snapshots_are_immutable:
  assumes "sql_engine ex tv_fits (tvs_ok tags)" and "tvs_ok tags t"
    and "get_version ex tid version t = (Inr (Some r), t)"
    and "tv_fits \<lparr>tv_id = i, tv_tag_id = tid, tv_version = version, tv_snapshot = snap, tv_created_at = now\<rparr>"
  shows "get_version ex tid version (snapshot_run ex ops t) = (Inr (Some r), snapshot_run ex ops t)
    \<and> snapshot ex i now tid version snap t = (Inl (IpaExn (version_conflict tid version)), t)
    \<and> err_http_status (version_conflict tid version) = 409"
proof -
  have r: "table_map tv_key t (tid, version) = Some r"
    using assms(3) by (simp add: get_tag_version_exec [OF assms(1,2)])
  have "tvs_ok tags (snapshot_run ex ops t)"
    and "table_map tv_key (snapshot_run ex ops t) (tid, version) = Some r"
    using snapshot_run_keeps [OF assms(1,2) r] by blast+
  then have "get_version ex tid version (snapshot_run ex ops t) = (Inr (Some r), snapshot_run ex ops t)"
    by (simp add: get_tag_version_exec [OF assms(1)])
  moreover have "(tid, version) \<in> tv_key ` set t" using r table_map_None [of tv_key t] by (metis option.distinct(1))
  then have "snapshot ex i now tid version snap t = (Inl (IpaExn (version_conflict tid version)), t)"
    by (rule_tac snapshot_cases [OF assms(1,2), of i now tid version snap]) (use assms(4) in simp_all)
  ultimately show ?thesis by (simp add: version_conflict_def)
qed

lemma snapshots_are_immutable_witness:
  "\<exists>t. get_version (pg_execute tv_fits (tvs_ok {5})) 5 1 (snapshot_run (pg_execute tv_fits (tvs_ok {5}))
      [(32, 4, 5, 1, []), (33, 4, 5, 2, [])] t)
    = (Inr (Some \<lparr>tv_id = 31, tv_tag_id = 5, tv_version = 1, tv_snapshot = [], tv_created_at = 3\<rparr>),
       snapshot_run (pg_execute tv_fits (tvs_ok {5})) [(32, 4, 5, 1, []), (33, 4, 5, 2, [])] t)"
proof -
  let ?r = "\<lparr>tv_id = 31, tv_tag_id = 5, tv_version = 1, tv_snapshot = [], tv_created_at = 3\<rparr>"
  let ?ex = "pg_execute tv_fits (tvs_ok {5})"
  have ok: "tvs_ok {5} [?r]" by (simp add: tvs_ok_def)
  have get: "get_version ?ex 5 1 [?r] = (Inr (Some ?r), [?r])"
    by (simp add: get_tag_version_exec [OF tv_engine.sql_engine_axioms ok] table_map_def tv_key_def)
  have "tv_fits \<lparr>tv_id = 32, tv_tag_id = 5, tv_version = 1, tv_snapshot = [], tv_created_at = 4\<rparr>"
    by (simp add: tv_fits_def)
  from snapshots_are_immutable [OF tv_engine.sql_engine_axioms ok get this] show ?thesis by blast
qed

end
