(* ===== verification/Vectors.thy ===== *)
theory Vectors
  imports Documents Tags "HOL-Library.Sublist"
begin

text \<open>
  Models \<open>src/ipa/db/repositories/chunk.py\<close>, \<open>src/ipa/db/vector.py\<close> and the \<open>chunks\<close> table: storing
  embedded chunks, reciprocal rank fusion, the filters of a search, the search itself and the
  refresh of the denormalised metadata the filters read.

  The scores are floats. Their arithmetic is an argument: \<open>add\<close> for \<open>+\<close>, \<open>zero\<close> for \<open>0.0\<close> and
  \<open>recip n\<close> for \<open>1.0 / n\<close>; the locale \<open>score_arith\<close> states the order laws of IEEE doubles that the
  results rest on. Vector distances and full-text ranks are computed by PostgreSQL and its
  extensions, and are arguments too. The approximate index may leave rows out of a nearest
  neighbour query, so that query is an argument \<open>knn\<close>.
\<close>

section \<open>The table\<close>

type_synonym embedding = "rat list"

record chunk_row =
  ck_id :: uuid
  ck_document_id :: uuid
  ck_chunk_index :: int
  ck_text :: string
  ck_embedding :: embedding
  ck_embed_model :: string
  ck_embed_dim :: int
  ck_page_from :: "int option"
  ck_page_to :: "int option"
  ck_token_count :: "int option"
  ck_meta :: json_dict
  ck_created_at :: timestamp

definition ck_key :: "chunk_row \<Rightarrow> uuid \<times> int \<times> string" where
  "ck_key r = (ck_document_id r, ck_chunk_index r, ck_embed_model r)"

text \<open>\<open>vec_dim\<close> is the dimension of the vector column, \<open>EMBED_DIM\<close>.\<close>

definition chunk_fits :: "nat \<Rightarrow> chunk_row \<Rightarrow> bool" where
  "chunk_fits vec_dim r \<longleftrightarrow>
     int4 (ck_chunk_index r) \<and> text_ok (ck_text r) \<and> length (ck_embedding r) = vec_dim
     \<and> text_ok (ck_embed_model r) \<and> int4 (ck_embed_dim r) \<and> nullable int4 (ck_page_from r)
     \<and> nullable int4 (ck_page_to r) \<and> nullable int4 (ck_token_count r) \<and> json_dict_ok (ck_meta r)"

definition chunks_ok :: "uuid set \<Rightarrow> chunk_row list \<Rightarrow> bool" where
  "chunks_ok docs t \<longleftrightarrow>
     distinct (map ck_id t) \<and> distinct (map ck_key t) \<and> (\<forall>r \<in> set t. ck_document_id r \<in> docs)"

section \<open>The chunk repository\<close>

text \<open>The \<open>ChunkVector\<close> DTO; its \<open>embed_dim\<close> is the length of the embedding.\<close>

record chunk_vector =
  cv_document_id :: uuid
  cv_chunk_index :: int
  cv_text :: string
  cv_embedding :: embedding
  cv_embed_model :: string
  cv_page_from :: "int option"
  cv_page_to :: "int option"
  cv_metadata :: json_dict

definition embed_dim :: "chunk_vector \<Rightarrow> int" where
  "embed_dim c = int (length (cv_embedding c))"

definition new_chunk :: "uuid \<Rightarrow> timestamp \<Rightarrow> chunk_vector \<Rightarrow> chunk_row" where
  "new_chunk i now c =
     \<lparr>ck_id = i, ck_document_id = cv_document_id c, ck_chunk_index = cv_chunk_index c,
      ck_text = cv_text c, ck_embedding = cv_embedding c, ck_embed_model = cv_embed_model c,
      ck_embed_dim = embed_dim c, ck_page_from = cv_page_from c, ck_page_to = cv_page_to c,
      ck_token_count = None, ck_meta = cv_metadata c, ck_created_at = now\<rparr>"

text \<open>The \<open>set_\<close> clause: what a conflicting row takes over from the new one.\<close>

definition overwrite :: "chunk_row \<Rightarrow> chunk_row \<Rightarrow> chunk_row" where
  "overwrite old excluded =
     old\<lparr>ck_text := ck_text excluded, ck_embedding := ck_embedding excluded,
         ck_embed_dim := ck_embed_dim excluded, ck_page_from := ck_page_from excluded,
         ck_page_to := ck_page_to excluded, ck_meta := ck_meta excluded\<rparr>"

definition same_chunk :: "chunk_row \<Rightarrow> chunk_row \<Rightarrow> bool" where
  "same_chunk a b \<longleftrightarrow> ck_key a = ck_key b"

text \<open>\<open>ids\<close> are the row ids drawn with \<open>uuid4\<close>.\<close>

definition upsert ::
  "chunk_row engine \<Rightarrow> uuid list \<Rightarrow> timestamp \<Rightarrow> chunk_vector list
     \<Rightarrow> chunk_row list \<Rightarrow> (py_exn + unit) \<times> chunk_row list" where
  "upsert ex ids now chunks =
     (if chunks = [] then retE ()
      else seqE (ex (Upsert (map2 (\<lambda>i c. new_chunk i now c) ids chunks) same_chunk overwrite))
             (\<lambda>_. retE ()))"

definition delete_document ::
  "chunk_row engine \<Rightarrow> uuid \<Rightarrow> chunk_row list \<Rightarrow> (py_exn + unit) \<times> chunk_row list" where
  "delete_document ex document_id =
     seqE (ex (Delete (\<lambda>r. ck_document_id r = document_id))) (\<lambda>_. retE ())"

definition count :: "chunk_row engine \<Rightarrow> uuid \<Rightarrow> chunk_row list \<Rightarrow> (py_exn + int) \<times> chunk_row list" where
  "count ex document_id =
     seqE (ex (Select (\<lambda>r. ck_document_id r = document_id) no_order None 0))
       (\<lambda>rows. retE (int (length rows)))"

section \<open>Reciprocal rank fusion\<close>

definition RRF_K :: int where
  "RRF_K = 60"

text \<open>
  One occurrence of a row: its key's score grows by \<open>1.0 / (RRF_K + rank + 1)\<close>, starting from 0.0,
  and the row becomes the one kept for the key. Both dictionaries keep insertion order.
\<close>

definition fuse_row ::
  "('f \<Rightarrow> 'f \<Rightarrow> 'f) \<Rightarrow> 'f \<Rightarrow> (int \<Rightarrow> 'f) \<Rightarrow> ('r \<Rightarrow> 'k) \<Rightarrow> nat \<times> 'r
     \<Rightarrow> ('k \<times> 'f) list \<times> ('k \<times> 'r) list \<Rightarrow> ('k \<times> 'f) list \<times> ('k \<times> 'r) list" where
  "fuse_row add zero recip key = (\<lambda>(rank, row) (scores, rows_by_key).
     (dict_set (key row)
        (add (case map_of scores (key row) of None \<Rightarrow> zero | Some s \<Rightarrow> s) (recip (RRF_K + int rank + 1)))
        scores,
      dict_set (key row) row rows_by_key))"

definition fuse_all ::
  "('f \<Rightarrow> 'f \<Rightarrow> 'f) \<Rightarrow> 'f \<Rightarrow> (int \<Rightarrow> 'f) \<Rightarrow> ('r \<Rightarrow> 'k) \<Rightarrow> 'r list list
     \<Rightarrow> ('k \<times> 'f) list \<times> ('k \<times> 'r) list" where
  "fuse_all add zero recip key rankings =
     fold (fuse_row add zero recip key) (concat (map (enumerate 0) rankings)) ([], [])"

definition rrf_fuse ::
  "('f \<Rightarrow> 'f \<Rightarrow> 'f) \<Rightarrow> 'f::linorder \<Rightarrow> (int \<Rightarrow> 'f) \<Rightarrow> ('r \<Rightarrow> 'k) \<Rightarrow> 'r list list \<Rightarrow> int \<Rightarrow> ('r \<times> 'f) list" where
  "rrf_fuse add zero recip key rankings top_k =
     (case fuse_all add zero recip key rankings of (scores, rows_by_key) \<Rightarrow>
        (let ordered = sort_key_desc snd scores
         in [(the (map_of rows_by_key (fst item)), snd item). item \<leftarrow> py_take top_k ordered]))"

section \<open>Filters\<close>

record search_filters =
  sf_tag_ids :: "uuid list option"
  sf_document_ids :: "uuid list option"
  sf_statuses :: "document_status list option"
  sf_created_after :: "timestamp option"
  sf_created_before :: "timestamp option"

text \<open>
  \<open>meta ->> k\<close>. The text of a member that is no string never equals a UUID or a status, the only
  texts it is compared with, so it counts as absent here.
\<close>

definition meta_text :: "json_dict \<Rightarrow> string \<Rightarrow> string option" where
  "meta_text d k = (case map_of d k of Some (JStr s) \<Rightarrow> Some s | _ \<Rightarrow> None)"

definition filter_conditions :: "search_filters option \<Rightarrow> (chunk_row \<Rightarrow> bool) list" where
  "filter_conditions filters =
     (case filters of
        None \<Rightarrow> []
      | Some f \<Rightarrow>
          (case sf_tag_ids f of
             Some (i # is) \<Rightarrow> [\<lambda>r. meta_text (ck_meta r) ''tag_id'' \<in> Some ` str_uuid ` set (i # is)]
           | _ \<Rightarrow> [])
          @ (case sf_document_ids f of
               Some (i # is) \<Rightarrow> [\<lambda>r. ck_document_id r \<in> set (i # is)]
             | _ \<Rightarrow> [])
          @ (case sf_statuses f of
               Some (x # xs) \<Rightarrow>
                 [\<lambda>r. meta_text (ck_meta r) ''document_status'' \<in> Some ` document_status_value ` set (x # xs)]
             | _ \<Rightarrow> [])
          @ (case sf_created_after f of Some a \<Rightarrow> [\<lambda>r. a \<le> ck_created_at r] | None \<Rightarrow> [])
          @ (case sf_created_before f of Some b \<Rightarrow> [\<lambda>r. ck_created_at r \<le> b] | None \<Rightarrow> []))"

definition passes :: "search_filters option \<Rightarrow> chunk_row \<Rightarrow> bool" where
  "passes filters r \<longleftrightarrow> list_all (\<lambda>c. c r) (filter_conditions filters)"

section \<open>Search\<close>

record 'f chunk_hit =
  hit_document_id :: uuid
  hit_chunk_index :: int
  hit_text :: string
  hit_score :: 'f
  hit_page_from :: "int option"
  hit_page_to :: "int option"
  hit_document_title :: "string option"

definition make_hit :: "chunk_row \<Rightarrow> 'f \<Rightarrow> 'f chunk_hit" where
  "make_hit r score =
     \<lparr>hit_document_id = ck_document_id r, hit_chunk_index = ck_chunk_index r, hit_text = ck_text r,
      hit_score = score, hit_page_from = ck_page_from r, hit_page_to = ck_page_to r,
      hit_document_title = None\<rparr>"

text \<open>The identity key of a result row in the fusion.\<close>

definition hit_key :: "chunk_row \<Rightarrow> uuid \<times> int \<times> string" where
  "hit_key r = (ck_document_id r, ck_chunk_index r, ck_text r)"

definition fetch_size :: "int \<Rightarrow> int" where
  "fetch_size top_k = min (max (top_k * 10) 100) 500"

text \<open>
  What PostgreSQL computes for a query: the nearest neighbours that satisfy a condition, the
  distance of a row, whether a row matches the text query, and its rank.
\<close>

record 'f search_backend =
  knn :: "(chunk_row \<Rightarrow> bool) \<Rightarrow> embedding \<Rightarrow> int \<Rightarrow> chunk_row list \<Rightarrow> py_exn + chunk_row list"
  cosine_distance :: "embedding \<Rightarrow> embedding \<Rightarrow> 'f"
  ts_match :: "string \<Rightarrow> chunk_row \<Rightarrow> bool"
  ts_rank :: "string \<Rightarrow> chunk_row \<Rightarrow> 'f"

text \<open>\<open>sub_one d\<close> is \<open>1.0 - d\<close>.\<close>

definition search ::
  "('f::linorder) search_backend \<Rightarrow> chunk_row engine \<Rightarrow> ('f \<Rightarrow> 'f \<Rightarrow> 'f) \<Rightarrow> 'f \<Rightarrow> (int \<Rightarrow> 'f) \<Rightarrow> ('f \<Rightarrow> 'f)
     \<Rightarrow> embedding \<Rightarrow> string option \<Rightarrow> int \<Rightarrow> search_filters option
     \<Rightarrow> chunk_row list \<Rightarrow> (py_exn + 'f chunk_hit list) \<times> chunk_row list" where
  "search be ex add zero recip sub_one q query_text top_k filters =
     (let fetch = fetch_size top_k
      in seqE (\<lambda>t. (knn be (passes filters) q fetch t, t)) (\<lambda>vector_rows.
         seqE (case query_text of
                 None \<Rightarrow> retE []
               | Some text_query \<Rightarrow>
                   if text_query = [] then retE []
                   else ex (Select (\<lambda>r. passes filters r \<and> ts_match be text_query r)
                              (\<lambda>a b. ts_rank be text_query b \<le> ts_rank be text_query a) (Some fetch) 0))
           (\<lambda>text_rows.
             retE (if text_rows \<noteq> [] then
                     [make_hit row score. (row, score) \<leftarrow>
                        rrf_fuse add zero recip hit_key [vector_rows, text_rows] top_k]
                   else [make_hit row (sub_one (cosine_distance be (ck_embedding row) q)). row \<leftarrow>
                          py_take top_k vector_rows]))))"

section \<open>The store\<close>

text \<open>A session of its own per operation: committed on success, rolled back on an error.\<close>

definition in_session :: "('s \<Rightarrow> (py_exn + 'a) \<times> 's) \<Rightarrow> 's \<Rightarrow> (py_exn + 'a) \<times> 's" where
  "in_session m s = (case m s of (Inl e, _) \<Rightarrow> (Inl e, s) | (Inr a, s') \<Rightarrow> (Inr a, s'))"

definition store_upsert ::
  "chunk_row engine \<Rightarrow> uuid list \<Rightarrow> timestamp \<Rightarrow> chunk_vector list
     \<Rightarrow> chunk_row list \<Rightarrow> (py_exn + unit) \<times> chunk_row list" where
  "store_upsert ex ids now chunks = in_session (upsert ex ids now chunks)"

definition store_delete_document ::
  "chunk_row engine \<Rightarrow> uuid \<Rightarrow> chunk_row list \<Rightarrow> (py_exn + unit) \<times> chunk_row list" where
  "store_delete_document ex document_id = in_session (delete_document ex document_id)"

text \<open>The query of \<open>refresh_metadata\<close>: the document's tag and status, and the tag's slug.\<close>

definition document_join ::
  "document_row list \<Rightarrow> tag_row list \<Rightarrow> uuid \<Rightarrow> (uuid option \<times> document_status \<times> string option) option" where
  "document_join docs tags document_id =
     map_option (\<lambda>d. (doc_tag_id d, doc_status d,
         case doc_tag_id d of None \<Rightarrow> None | Some i \<Rightarrow> map_option tag_slug (table_map tag_id tags i)))
       (table_map doc_id docs document_id)"

definition denormalised :: "uuid option \<times> document_status \<times> string option \<Rightarrow> json_dict" where
  "denormalised = (\<lambda>(tag, status, slug).
     [(''tag_id'', case tag of None \<Rightarrow> JNull | Some i \<Rightarrow> JStr (str_uuid i)),
      (''tag_slug'', json_opt_str slug),
      (''document_status'', JStr (document_status_value status))])"

definition refresh_metadata ::
  "chunk_row engine \<Rightarrow> document_row list \<Rightarrow> tag_row list \<Rightarrow> uuid
     \<Rightarrow> chunk_row list \<Rightarrow> (py_exn + unit) \<times> chunk_row list" where
  "refresh_metadata ex docs tags document_id =
     in_session
       (case document_join docs tags document_id of
          None \<Rightarrow> retE ()
        | Some document \<Rightarrow>
            seqE (ex (Update (\<lambda>r. ck_document_id r = document_id)
                   (\<lambda>r. r\<lparr>ck_meta := dict_update (ck_meta r) (denormalised document)\<rparr>)))
              (\<lambda>_. retE ()))"

section \<open>Engines\<close>

lemma chunks_ok_perm: "mset t' = mset t \<Longrightarrow> chunks_ok docs t \<Longrightarrow> chunks_ok docs t'"
  unfolding chunks_ok_def using distinct_map_mset mset_eq_setD by metis

interpretation chunk_engine:
  sql_engine "pg_execute (chunk_fits vec_dim) (chunks_ok docs)" "chunk_fits vec_dim" "chunks_ok docs"
  for vec_dim docs
  by (rule pg_execute_sql_engine) (rule chunks_ok_perm)

lemma chunks_ok_key: "chunks_ok docs t \<Longrightarrow> distinct (map ck_key t)"
  by (simp add: chunks_ok_def)

lemma chunks_ok_filter: "chunks_ok docs t \<Longrightarrow> chunks_ok docs (filter p t)"
  by (simp add: chunks_ok_def distinct_map_filter)

section \<open>Scores\<close>

text \<open>
  What the fusion relies on of float arithmetic: addition is monotone, adding a reciprocal does
  not decrease a score, and reciprocals decrease. Rounding keeps all three.
\<close>

locale score_arith =
  fixes add :: "'f::linorder \<Rightarrow> 'f \<Rightarrow> 'f" and recip :: "int \<Rightarrow> 'f"
  assumes add_mono: "x \<le> y \<Longrightarrow> u \<le> v \<Longrightarrow> add x u \<le> add y v"
    and add_recip: "0 < n \<Longrightarrow> x \<le> add x (recip n)"
    and recip_antimono: "0 < m \<Longrightarrow> m \<le> n \<Longrightarrow> recip n \<le> recip m"

interpretation rat_scores: score_arith "(+) :: rat \<Rightarrow> rat \<Rightarrow> rat" "\<lambda>n. 1 / of_int n"
  by unfold_locales (auto simp: frac_le)

text \<open>
  The score of a key, by its definition: the sum of \<open>1 / (RRF_K + rank + 1)\<close> over the occurrences
  of the key, in the order of the rankings.
\<close>

definition add_occurrence ::
  "('f \<Rightarrow> 'f \<Rightarrow> 'f) \<Rightarrow> (int \<Rightarrow> 'f) \<Rightarrow> ('r \<Rightarrow> 'k) \<Rightarrow> 'k \<Rightarrow> nat \<times> 'r \<Rightarrow> 'f \<Rightarrow> 'f" where
  "add_occurrence add recip key k = (\<lambda>(rank, row) s.
     if key row = k then add s (recip (RRF_K + int rank + 1)) else s)"

definition rrf_score ::
  "('f \<Rightarrow> 'f \<Rightarrow> 'f) \<Rightarrow> 'f \<Rightarrow> (int \<Rightarrow> 'f) \<Rightarrow> ('r \<Rightarrow> 'k) \<Rightarrow> 'r list list \<Rightarrow> 'k \<Rightarrow> 'f" where
  "rrf_score add zero recip key rankings k =
     fold (add_occurrence add recip key k) (concat (map (enumerate 0) rankings)) zero"

text \<open>The keys in the order of their first occurrence.\<close>

fun first_keys :: "'k list \<Rightarrow> 'k list \<Rightarrow> 'k list" where
  "first_keys seen [] = seen"
| "first_keys seen (k # ks) = first_keys (if k \<in> set seen then seen else seen @ [k]) ks"

lemma set_first_keys: "set (first_keys seen ks) = set seen \<union> set ks"
  by (induction seen ks rule: first_keys.induct) auto

lemma distinct_first_keys: "distinct seen \<Longrightarrow> distinct (first_keys seen ks)"
  by (induction seen ks rule: first_keys.induct) auto

lemma fuse_row_step:
  "fuse_row add zero recip key (rank, row) (scores, rows) =
    (dict_set (key row)
       (add (case map_of scores (key row) of None \<Rightarrow> zero | Some s \<Rightarrow> s) (recip (RRF_K + int rank + 1)))
       scores,
     dict_set (key row) row rows)"
  by (simp add: fuse_row_def)

lemma fst_set_dict_set [simp]: "fst ` set (dict_set k v d) = insert k (fst ` set d)"
  using arg_cong [OF map_fst_dict_set [of k v d], of set] by auto

lemma fuse_keys:
  "map fst (fst (fold (fuse_row add zero recip key) occs (scores, rows))) =
     first_keys (map fst scores) (map (key \<circ> snd) occs)"
proof (induction occs arbitrary: scores rows)
  case Nil
  then show ?case by simp
next
  case (Cons occ occs)
  then show ?case by (cases occ) (simp add: fuse_row_step map_fst_dict_set)
qed

lemma fuse_scores:
  "map_of (fst (fold (fuse_row add zero recip key) occs (scores, rows))) k =
     (if k \<in> fst ` set scores \<union> key ` snd ` set occs
      then Some (fold (add_occurrence add recip key k) occs
             (case map_of scores k of None \<Rightarrow> zero | Some s \<Rightarrow> s))
      else None)"
proof (induction occs arbitrary: scores rows)
  case Nil
  then show ?case by (auto simp: map_of_eq_None_iff split: option.splits)
next
  case (Cons occ occs)
  then show ?case
    by (cases occ) (auto simp: fuse_row_step add_occurrence_def split: option.splits)
qed

text \<open>Every scored key has a row of that key, taken from the rankings.\<close>

definition rows_match :: "('r \<Rightarrow> 'k) \<Rightarrow> 'r set \<Rightarrow> ('k \<times> 'f) list \<times> ('k \<times> 'r) list \<Rightarrow> bool" where
  "rows_match key R = (\<lambda>(scores, rows).
     fst ` set scores = fst ` set rows \<and> (\<forall>k r. map_of rows k = Some r \<longrightarrow> key r = k \<and> r \<in> R))"

lemma fuse_rows_match:
  "rows_match key R st \<Longrightarrow> snd ` set occs \<subseteq> R
     \<Longrightarrow> rows_match key R (fold (fuse_row add zero recip key) occs st)"
proof (induction occs arbitrary: st)
  case Nil
  then show ?case by simp
next
  case (Cons occ occs)
  obtain rank row where [simp]: "occ = (rank, row)" by (cases occ)
  obtain scores rows where [simp]: "st = (scores, rows)" by (cases st)
  have "rows_match key R (fuse_row add zero recip key occ st)"
    using Cons.prems by (auto simp: rows_match_def fuse_row_step)
  with Cons show ?case by simp
qed

text \<open>The occurrences of a list of rankings.\<close>

abbreviation occurrences :: "'r list list \<Rightarrow> (nat \<times> 'r) list" where
  "occurrences rankings \<equiv> concat (map (enumerate 0) rankings)"

lemma map_snd_occurrences: "map snd (occurrences rankings) = concat rankings"
  by (induction rankings) auto

lemma occurrences_keys [simp]: "map (key \<circ> snd) (occurrences rankings) = map key (concat rankings)"
  by (simp only: map_map [symmetric] map_snd_occurrences)

lemma occurrences_rows [simp]: "snd ` set (occurrences rankings) = set (concat rankings)"
  by (simp only: set_map [symmetric] map_snd_occurrences)

lemma occurrences_row_keys [simp]: "key ` snd ` set (occurrences rankings) = key ` set (concat rankings)"
  by (simp only: occurrences_rows)

lemma fuse_all_facts:
  assumes "fuse_all add zero recip key rankings = (scores, rows)"
  shows "map fst scores = first_keys [] (map key (concat rankings))"
    and "distinct (map fst scores)"
    and "(k, s) \<in> set scores \<longleftrightarrow> k \<in> key ` set (concat rankings) \<and> s = rrf_score add zero recip key rankings k"
    and "rows_match key (set (concat rankings)) (scores, rows)"
proof -
  let ?f = "fold (fuse_row add zero recip key) (occurrences rankings) ([], [])"
  have f: "?f = (scores, rows)" using assms by (simp add: fuse_all_def)
  show keys: "map fst scores = first_keys [] (map key (concat rankings))"
    using fuse_keys [of add zero recip key "occurrences rankings" "[]" "[]"] unfolding f by simp
  show d: "distinct (map fst scores)" unfolding keys by (simp add: distinct_first_keys)
  have "map_of scores k = (if k \<in> key ` set (concat rankings)
      then Some (rrf_score add zero recip key rankings k) else None)"
    using fuse_scores [of add zero recip key "occurrences rankings" "[]" "[]" k] unfolding f
    by (simp only: rrf_score_def occurrences_row_keys Un_empty_left list.set image_empty map_of.simps option.case fst_conv)
  then show "(k, s) \<in> set scores \<longleftrightarrow> k \<in> key ` set (concat rankings) \<and> s = rrf_score add zero recip key rankings k"
    unfolding map_of_eq_Some_iff [OF d, symmetric] by (simp del: set_concat) auto
  have "rows_match key (set (concat rankings)) ([], [])" by (simp add: rows_match_def)
  from fuse_rows_match [OF this, of "occurrences rankings" add zero recip]
  show "rows_match key (set (concat rankings)) (scores, rows)"
    unfolding f occurrences_rows by (simp only: subset_refl)
qed

lemma rows_match_row:
  assumes "rows_match key R (scores, rows)" and "k \<in> fst ` set scores"
  shows "key (the (map_of rows k)) = k" "the (map_of rows k) \<in> R"
proof -
  have "k \<in> dom (map_of rows)" using assms by (simp add: rows_match_def dom_map_of_conv_image_fst)
  then show "key (the (map_of rows k)) = k" "the (map_of rows k) \<in> R"
    using assms(1) by (auto simp: rows_match_def)
qed

text \<open>The fused list, as the first \<open>top_k\<close> of the sorted scores.\<close>

lemma rrf_fuse_eq:
  obtains ordered where
    "map (\<lambda>(row, s). (key row, s)) (rrf_fuse add zero recip key rankings top_k) = py_take top_k ordered"
    "ordered = sort_key_desc snd (fst (fuse_all add zero recip key rankings))"
    "distinct (map fst ordered)"
    "\<forall>k s. (k, s) \<in> set ordered \<longleftrightarrow>
       k \<in> key ` set (concat rankings) \<and> s = rrf_score add zero recip key rankings k"
    "fst ` set (rrf_fuse add zero recip key rankings top_k) \<subseteq> set (concat rankings)"
proof -
  obtain scores rows where f: "fuse_all add zero recip key rankings = (scores, rows)"
    by (cases "fuse_all add zero recip key rankings")
  note facts = fuse_all_facts [OF f]
  let ?ordered = "sort_key_desc snd scores"
  let ?row = "\<lambda>item. the (map_of rows (fst item))"
  have res: "rrf_fuse add zero recip key rankings top_k = map (\<lambda>item. (?row item, snd item)) (py_take top_k ?ordered)"
    by (simp add: rrf_fuse_def f Let_def)
  have row: "key (?row item) = fst item \<and> ?row item \<in> set (concat rankings)"
    if "item \<in> set (py_take top_k ?ordered)" for item
  proof -
    have "item \<in> set scores" using that set_py_take [of top_k ?ordered] by auto
    then show ?thesis using rows_match_row [OF facts(4), of "fst item"] by blast
  qed
  show thesis
  proof
    show "map (\<lambda>(row, s). (key row, s)) (rrf_fuse add zero recip key rankings top_k) = py_take top_k ?ordered"
      using row by (auto simp: res comp_def intro: map_idI)
    show "distinct (map fst ?ordered)" using facts(2) by (metis distinct_map_mset mset_sort_key_desc)
    show "fst ` set (rrf_fuse add zero recip key rankings top_k) \<subseteq> set (concat rankings)"
      using row by (auto simp: res simp del: set_concat)
  qed (use facts(3) f in \<open>auto simp del: set_concat\<close>)
qed

section \<open>Order in the fused list\<close>

lemma fold_enumerate_score:
  "distinct (map key ranking) \<Longrightarrow>
     fold (add_occurrence add recip key k) (enumerate n ranking) s =
       (case py_index k (map key ranking) of
          None \<Rightarrow> s
        | Some i \<Rightarrow> add s (recip (RRF_K + int (n + i) + 1)))"
proof (induction ranking arbitrary: n s)
  case Nil
  then show ?case by simp
next
  case (Cons row ranking)
  show ?case
  proof (cases "key row = k")
    case True
    then have "k \<notin> set (map key ranking)" using Cons.prems by auto
    then have "py_index k (map key ranking) = None"
      by (metis not_None_eq nth_mem py_index_Some)
    with True Cons show ?thesis by (simp add: add_occurrence_def)
  next
    case False
    with Cons show ?thesis
      by (simp add: add_occurrence_def split: option.splits)
  qed
qed

text \<open>Key \<open>a\<close> ranks above \<open>b\<close>: wherever \<open>b\<close> occurs, \<open>a\<close> occurs earlier.\<close>

definition ranks_above :: "'k \<Rightarrow> 'k \<Rightarrow> 'k list \<Rightarrow> bool" where
  "ranks_above a b ks \<longleftrightarrow>
     (case py_index b ks of
        None \<Rightarrow> True
      | Some j \<Rightarrow> (case py_index a ks of None \<Rightarrow> False | Some i \<Rightarrow> i < j))"

context score_arith begin

lemma score_above:
  assumes "\<forall>r \<in> set rankings. distinct (map key r) \<and> ranks_above a b (map key r)" and "sb \<le> sa"
  shows "fold (add_occurrence add recip key b) (occurrences rankings) sb
    \<le> fold (add_occurrence add recip key a) (occurrences rankings) sa"
  using assms
proof (induction rankings arbitrary: sa sb)
  case Nil
  then show ?case by simp
next
  case (Cons r rankings)
  let ?step = "\<lambda>k s. fold (add_occurrence add recip key k) (enumerate 0 r) s"
  have r: "distinct (map key r)" "ranks_above a b (map key r)" using Cons.prems by auto
  have "?step b sb \<le> ?step a sa"
  proof (cases "py_index b (map key r)")
    case None
    then show ?thesis
      using r(1) Cons.prems(2)
      by (auto simp: fold_enumerate_score RRF_K_def split: option.splits
          intro: order_trans [OF _ add_recip])
  next
    case (Some j)
    then obtain i where "py_index a (map key r) = Some i" "i < j"
      using r(2) by (auto simp: ranks_above_def split: option.splits)
    with Some show ?thesis
      using r(1) add_mono [OF Cons.prems(2) recip_antimono [of "RRF_K + int i + 1" "RRF_K + int j + 1"]]
      by (simp add: fold_enumerate_score RRF_K_def)
  qed
  with Cons show ?case by simp
qed

lemma rrf_score_above:
  assumes "\<forall>r \<in> set rankings. distinct (map key r) \<and> ranks_above a b (map key r)"
  shows "rrf_score add zero recip key rankings b \<le> rrf_score add zero recip key rankings a"
  unfolding rrf_score_def using assms by (rule score_above) simp

end

lemma first_keys_extends: "\<exists>zs. first_keys seen ks = seen @ zs"
proof (induction seen ks rule: first_keys.induct)
  case (1 seen)
  then show ?case by simp
next
  case (2 seen k ks)
  then show ?case by (cases "k \<in> set seen") auto
qed

lemma subseq_pairI: "a \<in> set us \<Longrightarrow> subseq [a, b] (us @ b # vs)"
  by (auto simp: in_set_conv_decomp intro!: list_emb_append_mono [of "(=)" "[a]" _ "[b]", simplified])

lemma first_keys_order:
  "a \<in> set (seen @ us) \<Longrightarrow> b \<notin> set (seen @ us) \<Longrightarrow> subseq [a, b] (first_keys seen (us @ b # vs))"
proof (induction us arbitrary: seen)
  case Nil
  obtain zs where "first_keys (seen @ [b]) vs = (seen @ [b]) @ zs"
    using first_keys_extends by blast
  with Nil show ?case using subseq_pairI [of a seen b zs] by simp
next
  case (Cons u us)
  then show ?case by (cases "u \<in> set seen") auto
qed

lemma ranks_above_split:
  assumes "ranks_above a b ks" and "b \<in> set ks"
  shows "\<exists>us vs. ks = us @ b # vs \<and> b \<notin> set us \<and> a \<in> set us"
  using assms
proof (induction ks)
  case Nil
  then show ?case by simp
next
  case (Cons k ks)
  show ?case
  proof (cases "k = b")
    case True
    with Cons.prems show ?thesis by (simp add: ranks_above_def split: option.splits)
  next
    case nb: False
    then have b: "b \<in> set ks" using Cons.prems by simp
    show ?thesis
    proof (cases "k = a")
      case True
      obtain us vs where "ks = us @ b # vs" "b \<notin> set us" using split_list_first [OF b] by blast
      with True nb show ?thesis by (intro exI [of _ "k # us"] exI [of _ vs]) simp
    next
      case False
      then have "ranks_above a b ks"
        using nb Cons.prems(1) by (auto simp: ranks_above_def split: option.splits)
      from Cons.IH [OF this b] obtain us vs where "ks = us @ b # vs" "b \<notin> set us" "a \<in> set us"
        by blast
      with nb show ?thesis by (intro exI [of _ "k # us"] exI [of _ vs]) simp
    qed
  qed
qed

lemma concat_above_split:
  assumes "\<forall>ks \<in> set kss. ranks_above a b ks" and "b \<in> set (concat kss)"
  shows "\<exists>us vs. concat kss = us @ b # vs \<and> b \<notin> set us \<and> a \<in> set us"
  using assms
proof (induction kss)
  case Nil
  then show ?case by simp
next
  case (Cons ks kss)
  show ?case
  proof (cases "b \<in> set ks")
    case True
    then obtain us vs where "ks = us @ b # vs" "b \<notin> set us" "a \<in> set us"
      using ranks_above_split [of a b ks] Cons.prems by auto
    then show ?thesis by (intro exI [of _ us] exI [of _ "vs @ concat kss"]) simp
  next
    case False
    then obtain us vs where "concat kss = us @ b # vs" "b \<notin> set us" "a \<in> set us"
      using Cons by auto
    with False show ?thesis by (intro exI [of _ "ks @ us"] exI [of _ vs]) simp
  qed
qed

text \<open>A stable descending sort, and a prefix, keep an item before another that scores no better.\<close>

lemma subseq_elems: "subseq xs ys \<Longrightarrow> x \<in> set xs \<Longrightarrow> x \<in> set ys"
  by (auto simp: subseq_conv_nths dest: in_set_nthsD)

lemma subseq_pair_sorted: "sorted_wrt R xs \<Longrightarrow> subseq [x, y] xs \<Longrightarrow> R x y"
  by (induction xs) (auto simp: subseq_singleton_left split: if_splits)

lemma subseq_pair_total:
  assumes "x \<in> set xs" and "y \<in> set xs" and "x \<noteq> y"
  shows "subseq [x, y] xs \<or> subseq [y, x] xs"
proof -
  obtain us vs where xs: "xs = us @ y # vs" using split_list [OF assms(2)] by blast
  then consider "x \<in> set us" | "x \<in> set vs" using assms by auto
  then show ?thesis
  proof cases
    case 1
    then show ?thesis by (simp add: xs subseq_pairI)
  next
    case 2
    then have "subseq [y, x] (y # vs)" by (simp add: subseq_singleton_left)
    then show ?thesis unfolding xs by (simp only: subseq_drop_many simp_thms)
  qed
qed

lemma sort_key_desc_order:
  assumes "subseq [x, y] xs" and "x \<noteq> y" and "f y \<le> f x"
  shows "subseq [x, y] (sort_key_desc f xs)"
proof (cases "f y = f x")
  case True
  have "subseq [x, y] (filter (\<lambda>z. f z = f x) xs)"
    using subseq_filter [OF assms(1), of "\<lambda>z. f z = f x"] True by simp
  then have "subseq [x, y] (filter (\<lambda>z. f z = f x) (sort_key_desc f xs))"
    by (simp only: sort_key_desc_stable)
  then show ?thesis using subseq_filter_left subseq_order.order_trans by blast
next
  case False
  have "x \<in> set xs" "y \<in> set xs" using assms(1) by (auto dest: subseq_elems)
  then have "subseq [x, y] (sort_key_desc f xs) \<or> subseq [y, x] (sort_key_desc f xs)"
    using assms(2) by (intro subseq_pair_total) simp_all
  then show ?thesis
    using subseq_pair_sorted [OF sorted_sort_key_desc, of y x f xs] assms(3) False by auto
qed

lemma subseq_pair_prefix:
  assumes "subseq [x, y] (us @ vs)" and "distinct (us @ vs)" and "y \<in> set us"
  shows "subseq [x, y] us"
proof -
  obtain ps qs where "[x, y] = ps @ qs" "subseq ps us" "subseq qs vs"
    using assms(1) by (auto simp: subseq_append_iff)
  moreover have "qs = []"
  proof (rule ccontr)
    assume "qs \<noteq> []"
    then have "y \<in> set qs" using \<open>[x, y] = ps @ qs\<close> by (metis last.simps last_appendR last_in_set list.distinct(1))
    then have "y \<in> set vs" using \<open>subseq qs vs\<close> by (auto dest: subseq_elems)
    with assms(2,3) show False by auto
  qed
  ultimately show ?thesis by simp
qed

lemma py_take_prefix: "\<exists>zs. xs = py_take k xs @ zs"
  unfolding py_take_def by (metis append_take_drop_id)

section \<open>Storing chunks\<close>

lemma overwrite_simps [simp]:
  "ck_key (overwrite r n) = ck_key r" "ck_id (overwrite r n) = ck_id r"
  "ck_document_id (overwrite r n) = ck_document_id r"
  "chunk_fits vec_dim r \<Longrightarrow> chunk_fits vec_dim n \<Longrightarrow> chunk_fits vec_dim (overwrite r n)"
  by (simp_all add: overwrite_def ck_key_def chunk_fits_def)

lemma new_chunk_simps [simp]:
  "ck_key (new_chunk i now c) = (cv_document_id c, cv_chunk_index c, cv_embed_model c)"
  "ck_id (new_chunk i now c) = i" "ck_document_id (new_chunk i now c) = cv_document_id c"
  "overwrite (overwrite r (new_chunk i now c)) (new_chunk j now' c) = overwrite r (new_chunk i now c)"
  "overwrite (new_chunk i now c) (new_chunk j now' c) = new_chunk i now c"
  by (simp_all add: new_chunk_def ck_key_def overwrite_def)

lemma batch_conflict_key: "batch_conflict (\<lambda>a b. key a = key b) new \<longleftrightarrow> \<not> distinct (map key new)"
  unfolding batch_conflict_def by (induction new) (auto simp: image_iff)

text \<open>The rows of a batch, and the conditions under which the upsert succeeds.\<close>

abbreviation chunk_rows :: "uuid list \<Rightarrow> timestamp \<Rightarrow> chunk_vector list \<Rightarrow> chunk_row list" where
  "chunk_rows ids now chunks \<equiv> map2 (\<lambda>i c. new_chunk i now c) ids chunks"

definition batch_ok ::
  "nat \<Rightarrow> uuid set \<Rightarrow> uuid list \<Rightarrow> timestamp \<Rightarrow> chunk_vector list \<Rightarrow> chunk_row list \<Rightarrow> bool" where
  "batch_ok vec_dim docs ids now chunks t \<longleftrightarrow>
     length ids = length chunks \<and> distinct (ids @ map ck_id t)
     \<and> distinct (map ck_key (chunk_rows ids now chunks))
     \<and> list_all (\<lambda>r. chunk_fits vec_dim r \<and> ck_document_id r \<in> docs) (chunk_rows ids now chunks)
     \<and> list_all (chunk_fits vec_dim) t"

lemma upsert_rows_row:
  assumes "r \<in> set (upsert_rows conf f new t)"
  obtains "r \<in> set t" | "r \<in> set new" | old n where "old \<in> set t" "n \<in> set new" "r = f old n"
proof -
  consider old where "old \<in> set t" "r = (case find (conf old) new of None \<Rightarrow> old | Some n \<Rightarrow> f old n)"
    | "r \<in> set new"
    using assms by (auto simp: upsert_rows_def)
  then show thesis
  proof cases
    case (1 old)
    show ?thesis
    proof (cases "find (conf old) new")
      case None
      with 1 that(1) show ?thesis by simp
    next
      case (Some n)
      then have "n \<in> set new" by (auto simp: find_Some_iff)
      with Some 1 that(3) [of old n] show ?thesis by simp
    qed
  qed (rule that(2))
qed

lemma set_map_filter: "set (map f (filter p xs)) \<subseteq> set (map f xs)"
  by auto

lemma distinct_append_part:
  "distinct (us @ xs) \<Longrightarrow> set ys \<subseteq> set us \<Longrightarrow> distinct ys \<Longrightarrow> distinct (xs @ ys)"
  "distinct (us @ xs) \<Longrightarrow> set ys \<subseteq> set us \<Longrightarrow> set (xs @ ys) \<subseteq> set us \<union> set xs"
  by auto

lemma store_upsert_exec:
  assumes eng: "sql_engine ex (chunk_fits vec_dim) (chunks_ok docs)" and ok: "chunks_ok docs t"
    and batch: "batch_ok vec_dim docs ids now chunks t"
  obtains t' where "store_upsert ex ids now chunks t = (Inr (), t')" "chunks_ok docs t'"
    "list_all (chunk_fits vec_dim) t'" "set (map ck_id t') \<subseteq> set ids \<union> set (map ck_id t)"
    "\<And>k. table_map ck_key t' k =
       (case table_map ck_key (chunk_rows ids now chunks) k of
          None \<Rightarrow> table_map ck_key t k
        | Some n \<Rightarrow> Some (case table_map ck_key t k of None \<Rightarrow> n | Some r \<Rightarrow> overwrite r n))"
proof (cases "chunks = []")
  case True
  then show thesis
    using that [of t] ok batch by (simp add: store_upsert_def in_session_def upsert_def batch_ok_def table_map_def)
next
  case False
  let ?new = "chunk_rows ids now chunks"
  let ?u = "upsert_rows same_chunk overwrite ?new t"
  have conf: "same_chunk = (\<lambda>a b. ck_key a = ck_key b)" by (simp add: same_chunk_def fun_eq_iff)
  have len: "length ids = length chunks" and new: "distinct (map ck_key ?new)"
    and rows: "\<forall>r \<in> set ?new. chunk_fits vec_dim r \<and> ck_document_id r \<in> docs"
    and old: "\<forall>r \<in> set t. chunk_fits vec_dim r" and ids: "distinct (ids @ map ck_id t)"
    using batch by (auto simp: batch_ok_def list_all_iff)
  have new_ids: "map ck_id ?new = ids" using len by (simp add: comp_def split_def map_fst_zip)
  note u = upsert_rows_key [where f = overwrite, OF new chunks_ok_key [OF ok] overwrite_simps(1), folded conf]
  have keep: "map ck_id ?u = map ck_id t @ map ck_id (filter (\<lambda>n. \<not> list_ex (\<lambda>r. same_chunk r n) t) ?new)"
    by (auto simp: upsert_rows_def split: option.splits)
  have "set (map ck_id (filter (\<lambda>n. \<not> list_ex (\<lambda>r. same_chunk r n) t) ?new)) \<subseteq> set (map ck_id ?new)"
    by (rule set_map_filter)
  then have "set (map ck_id (filter (\<lambda>n. \<not> list_ex (\<lambda>r. same_chunk r n) t) ?new)) \<subseteq> set ids"
    by (simp only: new_ids)
  moreover have "distinct (map ck_id (filter (\<lambda>n. \<not> list_ex (\<lambda>r. same_chunk r n) t) ?new))"
    using ids new_ids by (intro distinct_map_filter) simp
  ultimately have u_ids: "distinct (map ck_id ?u)" "set (map ck_id ?u) \<subseteq> set ids \<union> set (map ck_id t)"
    unfolding keep using distinct_append_part [OF ids] by blast+
  have "chunk_fits vec_dim r \<and> ck_document_id r \<in> docs" if "r \<in> set ?u" for r
    using that by (rule upsert_rows_row) (use rows old ok in \<open>auto simp: chunks_ok_def\<close>)
  then have u_fits: "list_all (chunk_fits vec_dim) ?u" and u_ok: "chunks_ok docs ?u"
    using u_ids u(1) by (auto simp: chunks_ok_def list_all_iff)
  have "\<not> batch_conflict same_chunk ?new" using new by (simp add: conf batch_conflict_key)
  then obtain t' where ex: "ex (Upsert ?new same_chunk overwrite) t = (Inr [], t')"
    and t': "mset t' = mset ?u"
    using sql_engine.upsert [OF eng ok u_fits _ u_ok] by blast
  have "store_upsert ex ids now chunks t = (Inr (), t')"
    using False ex by (simp add: store_upsert_def in_session_def upsert_def seqE_def)
  moreover have "chunks_ok docs t'" using t' u_ok by (rule chunks_ok_perm)
  moreover have "list_all (chunk_fits vec_dim) t'" "set (map ck_id t') \<subseteq> set ids \<union> set (map ck_id t)"
    using u_fits u_ids(2) mset_eq_setD [OF t'] by (simp_all add: list_all_iff)
  moreover have "table_map ck_key t' k =
       (case table_map ck_key ?new k of
          None \<Rightarrow> table_map ck_key t k
        | Some n \<Rightarrow> Some (case table_map ck_key t k of None \<Rightarrow> n | Some r \<Rightarrow> overwrite r n))" for k
    unfolding table_map_perm [OF u(1) t'] by (rule u(2))
  ultimately show thesis by (rule that)
qed

text \<open>The rows of the same batch under other ids.\<close>

lemma chunk_rows_map: "length ids = length chunks \<Longrightarrow>
  table_map ck_key (chunk_rows ids now chunks) k =
    map_option (\<lambda>(i, c). new_chunk i now c)
      (find (\<lambda>(i, c). (cv_document_id c, cv_chunk_index c, cv_embed_model c) = k) (zip ids chunks))"
  by (induction ids chunks rule: list_induct2) (auto simp: table_map_def)

lemma find_zip_same:
  assumes "length ids = length chunks" and "length ids' = length chunks"
  shows "(find (\<lambda>(i, c). q c) (zip ids chunks) = None \<and> find (\<lambda>(i, c). q c) (zip ids' chunks) = None)
    \<or> (\<exists>i j c. find (\<lambda>(i, c). q c) (zip ids chunks) = Some (i, c)
         \<and> find (\<lambda>(i, c). q c) (zip ids' chunks) = Some (j, c))"
proof -
  have "length ids = length ids'" using assms by simp
  then show ?thesis using assms(2) by (induction ids ids' chunks rule: list_induct3) auto
qed

lemma chunk_rows_cases:
  assumes "length ids = length chunks" and "length ids' = length chunks"
  obtains "table_map ck_key (chunk_rows ids now chunks) k = None"
      "table_map ck_key (chunk_rows ids' now' chunks) k = None"
  | i j c where "table_map ck_key (chunk_rows ids now chunks) k = Some (new_chunk i now c)"
      "table_map ck_key (chunk_rows ids' now' chunks) k = Some (new_chunk j now' c)"
  using find_zip_same [OF assms, of "\<lambda>c. (cv_document_id c, cv_chunk_index c, cv_embed_model c) = k"]
  by (auto simp: chunk_rows_map [OF assms(1)] chunk_rows_map [OF assms(2)])

lemma chunk_row_of_batch:
  assumes "length ids = length chunks"
  shows "map ck_key (chunk_rows ids now chunks) =
      map (\<lambda>c. (cv_document_id c, cv_chunk_index c, cv_embed_model c)) chunks"
    and "list_all (\<lambda>r. chunk_fits vec_dim r \<and> ck_document_id r \<in> docs) (chunk_rows ids now chunks)
      \<longleftrightarrow> list_all (\<lambda>c. chunk_fits vec_dim (new_chunk 0 0 c) \<and> cv_document_id c \<in> docs) chunks"
  using assms
  by (induction ids chunks rule: list_induct2) (simp_all add: chunk_fits_def new_chunk_def ck_key_def)

lemma batch_ok_again:
  assumes "batch_ok vec_dim docs ids now chunks t"
    and "chunks_ok docs t'" and "list_all (chunk_fits vec_dim) t'"
    and "set (map ck_id t') \<subseteq> set ids \<union> set (map ck_id t)"
    and "length ids' = length chunks" and "distinct (ids' @ ids @ map ck_id t)"
  shows "batch_ok vec_dim docs ids' now' chunks t'"
proof -
  have "length ids = length chunks" using assms(1) by (simp add: batch_ok_def)
  moreover have "distinct (ids' @ map ck_id t')"
    using assms(2,6) subsetD [OF assms(4)] by (fastforce simp: chunks_ok_def)
  ultimately show ?thesis
    using assms(1,3,5) by (simp add: batch_ok_def chunk_row_of_batch del: map_map)
qed

section \<open>The nearest neighbour query\<close>

text \<open>
  What pgvector promises of a nearest neighbour query with a vector of the column's dimension: at
  most the asked number of rows of the table, each satisfying the condition, nearest first. The
  index is approximate, so rows may be missing.
\<close>

locale nn_index =
  fixes be :: "('f::linorder) search_backend" and vec_dim :: nat
  assumes knn: "length q = vec_dim \<Longrightarrow> \<exists>rows. knn be p q n t = Inr rows
    \<and> length rows \<le> nat n \<and> mset rows \<subseteq># mset (filter p t)
    \<and> sorted_wrt (\<lambda>a b. cosine_distance be (ck_embedding a) q \<le> cosine_distance be (ck_embedding b) q) rows"

text \<open>An index that computes every distance.\<close>

definition exact_backend ::
  "nat \<Rightarrow> (embedding \<Rightarrow> embedding \<Rightarrow> 'f) \<Rightarrow> (string \<Rightarrow> chunk_row \<Rightarrow> bool) \<Rightarrow> (string \<Rightarrow> chunk_row \<Rightarrow> 'f)
     \<Rightarrow> ('f::linorder) search_backend" where
  "exact_backend vec_dim distance match rank =
     \<lparr>knn = (\<lambda>p q n t.
        if length q = vec_dim then
          Inr (take (nat n)
            (sort_by (\<lambda>a b. distance (ck_embedding a) q \<le> distance (ck_embedding b) q) (filter p t)))
        else Inl range_error),
      cosine_distance = distance, ts_match = match, ts_rank = rank\<rparr>"

interpretation exact_index: nn_index "exact_backend vec_dim distance match rank" vec_dim
  for vec_dim distance match rank
proof
  fix p :: "chunk_row \<Rightarrow> bool" and q n t assume "length (q :: embedding) = vec_dim"
  let ?le = "\<lambda>a b. distance (ck_embedding a) q \<le> distance (ck_embedding b) q"
  let ?s = "sort_by ?le (filter p t)"
  have "sorted_wrt ?le ?s" by (rule sorted_sort_by) (auto simp: transp_def)
  then have "sorted_wrt ?le (take (nat n) ?s)" by (metis append_take_drop_id sorted_wrt_append)
  moreover have "mset (take (nat n) ?s) \<subseteq># mset ?s"
    by (metis append_take_drop_id mset_append mset_subset_eq_add_left)
  ultimately show "\<exists>rows. knn (exact_backend vec_dim distance match rank) p q n t = Inr rows
      \<and> length rows \<le> nat n \<and> mset rows \<subseteq># mset (filter p t)
      \<and> sorted_wrt (\<lambda>a b. cosine_distance (exact_backend vec_dim distance match rank) (ck_embedding a) q
           \<le> cosine_distance (exact_backend vec_dim distance match rank) (ck_embedding b) q) rows"
    using \<open>length q = vec_dim\<close> by (simp add: exact_backend_def)
qed

text \<open>The arithmetic of a search: \<open>1.0 - d\<close> decreases with the distance.\<close>

locale search_arith = score_arith add recip
  for add :: "'f::linorder \<Rightarrow> 'f \<Rightarrow> 'f" and recip :: "int \<Rightarrow> 'f" +
  fixes sub_one :: "'f \<Rightarrow> 'f"
  assumes sub_one_antimono: "x \<le> y \<Longrightarrow> sub_one y \<le> sub_one x"

interpretation rat_search: search_arith "(+) :: rat \<Rightarrow> rat \<Rightarrow> rat" "\<lambda>n. 1 / of_int n" "\<lambda>d. 1 - d"
  by unfold_locales simp

lemma fetch_size_window: "window_ok (Some (fetch_size top_k)) 0"
  by (auto simp: window_ok_def fetch_size_def int8_def min_def max_def)

lemma set_rrf_fuse: "fst ` set (rrf_fuse add zero recip key rankings top_k) \<subseteq> set (concat rankings)"
  by (rule rrf_fuse_eq [where add = add and zero = zero and recip = recip and key = key
        and rankings = rankings and top_k = top_k])

lemma sorted_py_take: "sorted_wrt R xs \<Longrightarrow> sorted_wrt R (py_take k xs)"
  using py_take_prefix [of xs k] by (metis sorted_wrt_append)

lemma rrf_fuse_sorted: "sorted_wrt (\<lambda>a b. snd b \<le> snd a) (rrf_fuse add zero recip key rankings top_k)"
proof -
  obtain scores rows where f: "fuse_all add zero recip key rankings = (scores, rows)"
    by (cases "fuse_all add zero recip key rankings")
  have "sorted_wrt (\<lambda>a b. snd b \<le> snd a) (py_take top_k (sort_key_desc snd scores))"
    by (intro sorted_py_take sorted_sort_key_desc)
  then show ?thesis by (simp add: rrf_fuse_def f sorted_wrt_map)
qed

lemma length_rrf_fuse:
  assumes "0 \<le> top_k"
  shows "length (rrf_fuse add zero recip key rankings top_k) =
    min (nat top_k) (card (key ` set (concat rankings)))"
proof -
  obtain scores rows where f: "fuse_all add zero recip key rankings = (scores, rows)"
    by (cases "fuse_all add zero recip key rankings")
  have "length scores = card (set (map fst scores))"
    using distinct_card [OF fuse_all_facts(2) [OF f]] by simp
  also have "set (map fst scores) = key ` set (concat rankings)"
    unfolding fuse_all_facts(1) [OF f] set_first_keys by simp
  finally show ?thesis using assms by (simp add: rrf_fuse_def f del: set_concat)
qed

text \<open>The fused hits, and those of a pure vector search.\<close>

lemma fused_hits:
  assumes "set vector_rows \<subseteq> R" and "set text_rows \<subseteq> R" and "0 \<le> top_k"
    and hits_def: "hits = [make_hit row score. (row, score) \<leftarrow>
      rrf_fuse add zero recip hit_key [vector_rows, text_rows] top_k]"
  shows "int (length hits) \<le> top_k \<and> sorted_wrt (\<lambda>a b. hit_score b \<le> hit_score a) hits
    \<and> (\<forall>h \<in> set hits. \<exists>r \<in> R. h = make_hit r (hit_score h))"
proof -
  let ?fused = "rrf_fuse add zero recip hit_key [vector_rows, text_rows] top_k"
  have hits: "hits = map (\<lambda>(row, score). make_hit row score) ?fused"
    by (simp add: hits_def)
  have "int (length hits) \<le> top_k" using assms(3) by (simp add: hits length_rrf_fuse)
  moreover have "sorted_wrt (\<lambda>a b. hit_score b \<le> hit_score a) hits"
    using rrf_fuse_sorted [of add zero recip hit_key "[vector_rows, text_rows]" top_k]
    by (simp add: hits sorted_wrt_map split_def make_hit_def)
  moreover have "\<exists>r \<in> R. h = make_hit r (hit_score h)" if h: "h \<in> set hits" for h
  proof -
    obtain row s where "(row, s) \<in> set ?fused" "h = make_hit row s" using h hits by auto
    moreover from this(1) have "row \<in> R"
      using set_rrf_fuse [of add zero recip hit_key "[vector_rows, text_rows]" top_k] assms(1,2) by force
    ultimately show ?thesis by (auto simp: make_hit_def)
  qed
  ultimately show ?thesis by blast
qed

lemma vector_hits:
  assumes "set vector_rows \<subseteq> R" and "0 \<le> top_k" and "\<And>x y. x \<le> y \<Longrightarrow> sub_one y \<le> sub_one x"
    and "sorted_wrt (\<lambda>a b. d a \<le> d b) vector_rows"
    and hits_def: "hits = [make_hit row (sub_one (d row)). row \<leftarrow> py_take top_k vector_rows]"
  shows "int (length hits) \<le> top_k \<and> sorted_wrt (\<lambda>a b. hit_score b \<le> hit_score a) hits
    \<and> (\<forall>h \<in> set hits. \<exists>r \<in> R. h = make_hit r (hit_score h))"
proof -
  have "sorted_wrt (\<lambda>a b. d a \<le> d b) (py_take top_k vector_rows)"
    using assms(4) by (rule sorted_py_take)
  then have "sorted_wrt (\<lambda>a b. hit_score b \<le> hit_score a) hits"
    unfolding hits_def sorted_wrt_map
    by (rule sorted_wrt_mono_rel [rotated]) (simp add: make_hit_def assms(3))
  then show ?thesis
    using assms(1,2) by (auto simp: hits_def make_hit_def dest: in_set_takeD)
qed

text \<open>What the filters ask of a document, for chunks whose metadata is in step with it.\<close>

definition document_passes :: "search_filters \<Rightarrow> document_row \<Rightarrow> timestamp \<Rightarrow> bool" where
  "document_passes f d created \<longleftrightarrow>
     (\<forall>ids. sf_tag_ids f = Some ids \<and> ids \<noteq> [] \<longrightarrow> (\<exists>i \<in> set ids. doc_tag_id d = Some i))
     \<and> (\<forall>ids. sf_document_ids f = Some ids \<and> ids \<noteq> [] \<longrightarrow> doc_id d \<in> set ids)
     \<and> (\<forall>xs. sf_statuses f = Some xs \<and> xs \<noteq> [] \<longrightarrow> doc_status d \<in> set xs)
     \<and> (\<forall>a. sf_created_after f = Some a \<longrightarrow> a \<le> created)
     \<and> (\<forall>b. sf_created_before f = Some b \<longrightarrow> created \<le> b)"

lemma passes_refreshed:
  assumes "ck_document_id r = doc_id d"
    and "map_of (ck_meta r) ''tag_id'' = Some (case doc_tag_id d of None \<Rightarrow> JNull | Some i \<Rightarrow> JStr (str_uuid i))"
    and "map_of (ck_meta r) ''document_status'' = Some (JStr (document_status_value (doc_status d)))"
  shows "passes (Some f) r \<longleftrightarrow> document_passes f d (ck_created_at r)"
  using assms
  by (auto simp: passes_def filter_conditions_def document_passes_def meta_text_def image_iff
      document_status_value_inj neq_Nil_conv split: option.splits list.splits)

text \<open>What \<open>search\<close> returns without a query text, and with one.\<close>

lemma search_vector_only:
  assumes "knn be (passes filters) q (fetch_size top_k) t = Inr vector_rows"
    and "query_text = None \<or> query_text = Some []"
  shows "search be ex add zero recip sub_one q query_text top_k filters t =
    (Inr [make_hit row (sub_one (cosine_distance be (ck_embedding row) q)). row \<leftarrow>
       py_take top_k vector_rows], t)"
  using assms by (auto simp: search_def seqE_def Let_def)

lemma search_both:
  assumes "knn be (passes filters) q (fetch_size top_k) t = Inr vector_rows"
    and "query_text = Some text_query" and "text_query \<noteq> []"
    and "ex (Select (\<lambda>r. passes filters r \<and> ts_match be text_query r)
          (\<lambda>a b. ts_rank be text_query b \<le> ts_rank be text_query a) (Some (fetch_size top_k)) 0) t = (Inr text_rows, t)"
  shows "search be ex add zero recip sub_one q query_text top_k filters t =
    (Inr (if text_rows \<noteq> [] then
         [make_hit row score. (row, score) \<leftarrow>
           rrf_fuse add zero recip hit_key [vector_rows, text_rows] top_k]
       else [make_hit row (sub_one (cosine_distance be (ck_embedding row) q)). row \<leftarrow>
         py_take top_k vector_rows]), t)"
  using assms by (simp add: search_def seqE_def Let_def)

section \<open>Properties\<close>

text \<open>
  C5. \<open>rrf_fuse\<close> computes reciprocal rank fusion: it returns the first \<open>top_k\<close> keys (all when
  there are fewer), each once, with a row of that key from the rankings and the key's score, which
  is the sum of \<open>1 / (60 + rank + 1)\<close> over its occurrences; scores descend, and no key left out
  scores better than one returned.
\<close>

theorem rrf_fuse_ranks:
  assumes "0 \<le> top_k"
  shows "let fused = rrf_fuse add zero recip key rankings top_k;
             score = rrf_score add zero recip key rankings
         in length fused = min (nat top_k) (card (key ` set (concat rankings)))
          \<and> distinct (map (key \<circ> fst) fused)
          \<and> sorted_wrt (\<lambda>a b. snd b \<le> snd a) fused
          \<and> (\<forall>(row, s) \<in> set fused. row \<in> set (concat rankings) \<and> s = score (key row))
          \<and> (\<forall>row \<in> set (concat rankings). \<forall>(_, s) \<in> set fused.
               key row \<notin> (key \<circ> fst) ` set fused \<longrightarrow> score (key row) \<le> s)"
proof -
  let ?fused = "rrf_fuse add zero recip key rankings top_k"
  let ?score = "rrf_score add zero recip key rankings"
  obtain ordered where
    res: "map (\<lambda>(row, s). (key row, s)) ?fused = py_take top_k ordered"
    and ord: "ordered = sort_key_desc snd (fst (fuse_all add zero recip key rankings))"
    and dist: "distinct (map fst ordered)"
    and mem: "\<forall>k s. (k, s) \<in> set ordered \<longleftrightarrow> k \<in> key ` set (concat rankings) \<and> s = ?score k"
    and rows: "fst ` set ?fused \<subseteq> set (concat rankings)"
    by (rule rrf_fuse_eq)
  obtain rest where split: "ordered = py_take top_k ordered @ rest" using py_take_prefix by blast
  have keys: "map (key \<circ> fst) ?fused = map fst (py_take top_k ordered)"
    unfolding res [symmetric] by (auto simp: comp_def split_def)
  have in_take: "(key row, s) \<in> set (py_take top_k ordered)" if "(row, s) \<in> set ?fused" for row s
    unfolding res [symmetric] using that by force
  have "distinct (map (key \<circ> fst) ?fused)"
    unfolding keys using dist by (subst (asm) split) simp
  moreover have "row \<in> set (concat rankings) \<and> s = ?score (key row)" if "(row, s) \<in> set ?fused" for row s
    using that rows in_take [OF that] set_py_take [of top_k ordered] mem by force
  moreover have "?score (key row) \<le> s"
    if row: "row \<in> set (concat rankings)" "key row \<notin> (key \<circ> fst) ` set ?fused" and s: "(row', s) \<in> set ?fused"
    for row row' s
  proof -
    have "(key row, ?score (key row)) \<in> set ordered" using mem row(1) by blast
    moreover have "key row \<notin> fst ` set (py_take top_k ordered)"
      using row(2) arg_cong [OF keys, of set] by (metis list.set_map)
    ultimately have "(key row, ?score (key row)) \<in> set rest" by (subst (asm) split) force
    moreover have "sorted_wrt (\<lambda>a b. snd b \<le> snd a) (py_take top_k ordered @ rest)"
      using split sorted_sort_key_desc ord by metis
    ultimately show ?thesis using in_take [OF s] by (force simp: sorted_wrt_append)
  qed
  ultimately show ?thesis
    unfolding Let_def using length_rrf_fuse [OF assms] rrf_fuse_sorted
    by (auto simp del: set_concat)
qed

text \<open>The rankings of the witnesses: three rows, the second found by both queries.\<close>

definition sample_rankings :: "nat list list" where
  "sample_rankings = [[1, 2, 3], [2]]"

lemma rrf_fuse_ranks_witness:
  "length (rrf_fuse (+) (0::rat) (\<lambda>n. 1 / of_int n) id sample_rankings 2) = 2"
  using conjunct1 [OF rrf_fuse_ranks [unfolded Let_def, where top_k = 2 and add = "(+)" and zero = "0::rat"
      and recip = "\<lambda>n. 1 / of_int n" and key = id and rankings = sample_rankings]]
  by (simp add: sample_rankings_def card_insert_if)

text \<open>
  Fusion respects agreement: when no ranking repeats a key and, wherever \<open>b\<close> occurs, \<open>a\<close>
  occurs earlier, then \<open>a\<close> scores no worse and, if \<open>b\<close> is returned, \<open>a\<close> is returned before it,
  ties included. It holds for every arithmetic that satisfies the float laws.
\<close>

theorem rrf_fuse_respects_agreement:
  assumes "score_arith add recip" and "a \<noteq> b"
    and "\<forall>r \<in> set rankings. distinct (map key r) \<and> ranks_above a b (map key r)"
    and "b \<in> set (map (key \<circ> fst) (rrf_fuse add zero recip key rankings top_k))"
  shows "rrf_score add zero recip key rankings b \<le> rrf_score add zero recip key rankings a
    \<and> subseq [a, b] (map (key \<circ> fst) (rrf_fuse add zero recip key rankings top_k))"
proof -
  let ?fused = "rrf_fuse add zero recip key rankings top_k"
  let ?item = "\<lambda>k. (k, rrf_score add zero recip key rankings k)"
  obtain scores rows where f: "fuse_all add zero recip key rankings = (scores, rows)"
    by (cases "fuse_all add zero recip key rankings")
  obtain ordered where
    res: "map (\<lambda>(row, s). (key row, s)) ?fused = py_take top_k ordered"
    and ord: "ordered = sort_key_desc snd scores"
    and dist: "distinct (map fst ordered)"
    and mem: "\<forall>k s. (k, s) \<in> set ordered \<longleftrightarrow> k \<in> key ` set (concat rankings)
          \<and> s = rrf_score add zero recip key rankings k"
    using f by (auto intro: rrf_fuse_eq [of key add zero recip rankings top_k])
  have keys: "map (key \<circ> fst) ?fused = map fst (py_take top_k ordered)"
    unfolding res [symmetric] by (auto simp: comp_def split_def)
  have score: "rrf_score add zero recip key rankings b \<le> rrf_score add zero recip key rankings a"
    using score_arith.rrf_score_above [OF assms(1,3)] .
  obtain s where b: "(b, s) \<in> set (py_take top_k ordered)" using assms(4) unfolding keys by auto
  then have b_in: "?item b \<in> set (py_take top_k ordered)" "b \<in> set (map key (concat rankings))"
    using mem set_py_take [of top_k ordered] by auto
  have "\<forall>ks \<in> set (map (map key) rankings). ranks_above a b ks" using assms(3) by auto
  then obtain us vs where "map key (concat rankings) = us @ b # vs" "b \<notin> set us" "a \<in> set us"
    using concat_above_split [of "map (map key) rankings" a b] b_in(2) by (auto simp: map_concat)
  then have "subseq [a, b] (map fst scores)"
    unfolding fuse_all_facts(1) [OF f] using first_keys_order [of a "[]" us b vs] by simp
  then have "subseq (map ?item [a, b]) (map ?item (map fst scores))" by (rule subseq_map)
  moreover have "map ?item (map fst scores) = scores"
    using fuse_all_facts(3) [OF f] by (auto simp: comp_def intro: map_idI)
  ultimately have "subseq [?item a, ?item b] scores" by simp
  then have "subseq [?item a, ?item b] ordered"
    unfolding ord using assms(2) score by (intro sort_key_desc_order) simp_all
  moreover obtain rest where "ordered = py_take top_k ordered @ rest" using py_take_prefix by blast
  ultimately have "subseq [?item a, ?item b] (py_take top_k ordered)"
    using subseq_pair_prefix b_in(1) distinct_map dist by metis
  then have "subseq (map fst [?item a, ?item b]) (map fst (py_take top_k ordered))" by (rule subseq_map)
  with score show ?thesis unfolding keys by simp
qed

lemma rrf_fuse_respects_agreement_witness:
  "subseq [2, 3] (map (id \<circ> fst) (rrf_fuse (+) (0::rat) (\<lambda>n. 1 / of_int n) id sample_rankings 3))"
proof -
  have "3 \<in> set (map (id \<circ> fst) (rrf_fuse (+) (0::rat) (\<lambda>n. 1 / of_int n) id sample_rankings 3))"
    by (simp add: rrf_fuse_def fuse_all_def fuse_row_def RRF_K_def sample_rankings_def sort_key_desc_def)
  then show ?thesis
    using rrf_fuse_respects_agreement [OF rat_scores.score_arith_axioms, where a = 2 and b = 3
      and rankings = sample_rankings and key = id and zero = 0 and top_k = 3]
    by (simp add: sample_rankings_def ranks_above_def)
qed

text \<open>A search with the index and the arithmetic it relies on.\<close>

lemma search_hits_exec:
  assumes "sql_engine ex (chunk_fits vec_dim) (chunks_ok docs)" and "nn_index be vec_dim"
    and "search_arith add recip sub_one" and "length q = vec_dim" and "0 \<le> top_k"
  shows "\<exists>hits. search be ex add zero recip sub_one q query_text top_k filters t = (Inr hits, t)
    \<and> int (length hits) \<le> top_k \<and> sorted_wrt (\<lambda>a b. hit_score b \<le> hit_score a) hits
    \<and> (\<forall>h \<in> set hits. \<exists>r \<in> {r \<in> set t. passes filters r}. h = make_hit r (hit_score h))"
proof -
  let ?R = "{r \<in> set t. passes filters r}"
  obtain vector_rows where v: "knn be (passes filters) q (fetch_size top_k) t = Inr vector_rows"
    and sub: "mset vector_rows \<subseteq># mset (filter (passes filters) t)"
    and sorted: "sorted_wrt (\<lambda>a b. cosine_distance be (ck_embedding a) q
        \<le> cosine_distance be (ck_embedding b) q) vector_rows"
    using nn_index.knn [OF assms(2,4)] by blast
  have vr: "set vector_rows \<subseteq> ?R" using set_mset_mono [OF sub] by auto
  note fused = fused_hits [OF vr _ assms(5) refl]
  note alone = vector_hits [where sub_one = sub_one
      and d = "\<lambda>r. cosine_distance be (ck_embedding r) q", OF vr assms(5) _ sorted refl,
      OF search_arith.sub_one_antimono [OF assms(3)]]
  show ?thesis
  proof (cases "query_text = None \<or> query_text = Some []")
    case True
    with alone show ?thesis unfolding search_vector_only [OF v True] by blast
  next
    case False
    then obtain text_query where tq: "query_text = Some text_query" "text_query \<noteq> []" by auto
    let ?p = "\<lambda>r. passes filters r \<and> ts_match be text_query r"
    obtain s where sel: "ex (Select ?p (\<lambda>a b. ts_rank be text_query b \<le> ts_rank be text_query a)
          (Some (fetch_size top_k)) 0) t = (Inr (window (Some (fetch_size top_k)) 0 s), t)"
      and s: "mset s = mset (filter ?p t)"
      using sql_engine.select_by_desc [OF assms(1) fetch_size_window] by blast
    let ?text_rows = "window (Some (fetch_size top_k)) 0 s"
    have "set ?text_rows \<subseteq> set s" by (auto simp: window_def dest: in_set_takeD)
    then have "set ?text_rows \<subseteq> ?R" using mset_eq_setD [OF s] by auto
    note fused = fused [OF this]
    note run = search_both [where ex = ex and text_query = text_query and text_rows = ?text_rows, OF v tq sel]
    show ?thesis
    proof (cases "?text_rows = []")
      case True
      with alone show ?thesis unfolding run by (simp only: simp_thms if_False prod.inject sum.inject) blast
    next
      case False
      with fused show ?thesis unfolding run by (simp only: simp_thms if_True prod.inject sum.inject) blast
    qed
  qed
qed

text \<open>
  C8. A search returns at most \<open>top_k\<close> hits, best first, and every hit is a chunk of the table that
  passes the filters, whether the two rankings were fused or the vector ranking stood alone; it
  changes nothing.
\<close>

theorem search_hits_pass_filters:
  assumes "sql_engine ex (chunk_fits vec_dim) (chunks_ok docs)" and "nn_index be vec_dim"
    and "search_arith add recip sub_one" and "length q = vec_dim" and "0 \<le> top_k"
  shows "\<exists>hits. search be ex add zero recip sub_one q query_text top_k filters t = (Inr hits, t)
    \<and> int (length hits) \<le> top_k \<and> sorted_wrt (\<lambda>a b. hit_score b \<le> hit_score a) hits
    \<and> (\<forall>h \<in> set hits. \<exists>r \<in> {r \<in> set t. passes filters r}. h = make_hit r (hit_score h))"
  by (rule search_hits_exec [OF assms])


text \<open>A chunk of one document, and the batch the witnesses store.\<close>

definition sample_chunk :: "int \<Rightarrow> string \<Rightarrow> chunk_vector" where
  "sample_chunk n body =
     \<lparr>cv_document_id = 1, cv_chunk_index = n, cv_text = body, cv_embedding = [1, 0],
      cv_embed_model = ''embed-v1'', cv_page_from = Some 1, cv_page_to = None, cv_metadata = []\<rparr>"

definition sample_chunks :: "chunk_row list" where
  "sample_chunks = [new_chunk 10 0 (sample_chunk 0 ''invoice'')]"

lemma sample_chunks_ok: "chunks_ok {1} sample_chunks"
  by (simp add: chunks_ok_def sample_chunks_def sample_chunk_def)

lemma sample_chunk_fits: "text_ok body \<Longrightarrow> int4 n \<Longrightarrow> chunk_fits 2 (new_chunk i now (sample_chunk n body))"
  by (simp add: chunk_fits_def new_chunk_def sample_chunk_def embed_dim_def text_ok_def)


lemma search_hits_pass_filters_witness:
  "\<exists>hits. search (exact_backend 2 (\<lambda>a b. if a = b then 0 else 1 :: rat) (\<lambda>q r. True) (\<lambda>q r. 1))
      (pg_execute (chunk_fits 2) (chunks_ok {1})) (+) 0 (\<lambda>n. 1 / of_int n) (\<lambda>d. 1 - d)
      [1, 0] (Some ''invoice'') 3 None sample_chunks = (Inr hits, sample_chunks) \<and> length hits \<le> 3"
  using search_hits_pass_filters [OF chunk_engine.sql_engine_axioms exact_index.nn_index_axioms
      rat_search.search_arith_axioms,
      of "[1, 0]" 2 3 "\<lambda>a b. if a = b then 0 else 1" "\<lambda>q r. True" "\<lambda>q r. 1" "{1}" 0
        "Some ''invoice''" None sample_chunks]
  by (simp only: list.size) fastforce

section \<open>Refreshing the metadata\<close>

lemma text_ok_simps [simp]:
  "text_ok []" "text_ok (c # s) \<longleftrightarrow> c \<noteq> CHR 0x00 \<and> text_ok s" "text_ok (s @ u) \<longleftrightarrow> text_ok s \<and> text_ok u"
  by (simp_all add: text_ok_def)

lemma json_dict_ok_Cons [simp]: "json_dict_ok ((k, v) # d) \<longleftrightarrow> text_ok k \<and> json_ok v \<and> json_dict_ok d"
  by (simp add: json_dict_ok_def)

lemma json_dict_ok_set: "json_dict_ok d \<Longrightarrow> text_ok k \<Longrightarrow> json_ok v \<Longrightarrow> json_dict_ok (dict_set k v d)"
  by (induction k v d rule: dict_set.induct) auto

lemma json_dict_ok_update: "json_dict_ok d \<Longrightarrow> json_dict_ok e \<Longrightarrow> json_dict_ok (dict_update d e)"
  by (induction d e rule: dict_update.induct) (simp_all add: json_dict_ok_set)

lemma digit_char_not_null: "d < 16 \<Longrightarrow> digit_char d \<noteq> CHR 0x00"
  by (auto simp: digit_char_def of_char_of dest: arg_cong [of _ _ "of_char :: char \<Rightarrow> nat"])

lemma text_ok_uuid [simp]: "text_ok (str_uuid u)"
proof -
  have "CHR 0x00 \<notin> set (uuid_hex u)"
    using digit_char_not_null [OF digits_less [of 16]] by (force simp: uuid_hex_def)
  then have "text_ok (uuid_hex u)" by (auto simp: text_ok_def list_all_iff)
  moreover have "text_ok (take n s)" "text_ok (drop n s)" if "text_ok s" for n s
    using that by (auto simp: text_ok_def list_all_iff dest: in_set_takeD in_set_dropD)
  ultimately show ?thesis by (simp add: str_uuid_def Let_def)
qed

lemma text_ok_status [simp]: "text_ok (document_status_value x)"
  by (cases x) simp_all

lemma denormalised_ok: "nullable text_ok slug \<Longrightarrow> json_dict_ok (denormalised (tag, status, slug))"
  by (cases tag; cases slug) (simp_all add: denormalised_def json_opt_str_def)

lemma map_of_denormalised:
  "map_of (dict_update d (denormalised (tag, status, slug))) ''tag_id'' =
     Some (case tag of None \<Rightarrow> JNull | Some i \<Rightarrow> JStr (str_uuid i))"
  "map_of (dict_update d (denormalised (tag, status, slug))) ''document_status'' =
     Some (JStr (document_status_value status))"
  "map_of (dict_update d (denormalised (tag, status, slug))) ''tag_slug'' = Some (json_opt_str slug)"
  by (simp_all add: denormalised_def)

text \<open>What \<open>refresh_metadata\<close> does to the chunks of a document that exists.\<close>

lemma refresh_metadata_exec:
  assumes "sql_engine ex (chunk_fits vec_dim) (chunks_ok docs)" and "chunks_ok docs t"
    and "list_all (chunk_fits vec_dim) t" and "list_all tag_fits tags"
    and "documents_map dt document_id = Some d"
  obtains slug t' where "refresh_metadata ex dt tags document_id t = (Inr (), t')" and "chunks_ok docs t'"
    and "mset t' = mset (apply_update (\<lambda>r. ck_document_id r = document_id)
      (\<lambda>r. r\<lparr>ck_meta := dict_update (ck_meta r) (denormalised (doc_tag_id d, doc_status d, slug))\<rparr>) t)"
proof -
  define slug where "slug = (case doc_tag_id d of None \<Rightarrow> None | Some i \<Rightarrow> map_option tag_slug (table_map tag_id tags i))"
  let ?den = "denormalised (doc_tag_id d, doc_status d, slug)"
  let ?p = "\<lambda>r. ck_document_id r = document_id"
  let ?f = "\<lambda>r :: chunk_row. r\<lparr>ck_meta := dict_update (ck_meta r) ?den\<rparr>"
  let ?u = "apply_update ?p ?f t"
  have "text_ok (tag_slug r)" if "table_map tag_id tags i = Some r" for i r
    using table_map_mem [OF that] assms(4) by (simp add: list_all_iff tag_fits_def)
  then have "nullable text_ok slug"
    by (auto simp: slug_def nullable_def split: option.splits)
  then have "json_dict_ok ?den" by (rule denormalised_ok)
  then have fits: "list_all (chunk_fits vec_dim) (map ?f (filter ?p t))"
    using assms(3) by (auto simp: list_all_iff chunk_fits_def json_dict_ok_update)
  have keep: "map ck_id ?u = map ck_id t" "map ck_key ?u = map ck_key t"
    by (simp_all add: map_key_update ck_key_def)
  have "\<forall>r \<in> set ?u. ck_document_id r \<in> docs"
    using assms(2) by (auto simp: chunks_ok_def apply_update_def)
  then have "chunks_ok docs ?u"
    using assms(2) unfolding chunks_ok_def keep by blast
  then obtain rs t' where ex: "ex (Update ?p ?f) t = (Inr rs, t')" and t': "mset t' = mset ?u"
    using sql_engine.update [OF assms(1,2) fits] by blast
  have "document_join dt tags document_id = Some (doc_tag_id d, doc_status d, slug)"
    using assms(5) by (simp add: document_join_def slug_def)
  then have run: "refresh_metadata ex dt tags document_id t = (Inr (), t')"
    using ex by (simp add: refresh_metadata_def in_session_def seqE_def)
  have ok': "chunks_ok docs t'" using t' \<open>chunks_ok docs ?u\<close> by (rule chunks_ok_perm)
  show thesis by (rule that [OF run ok' t'])
qed

text \<open>
  C24. After a refresh, the metadata filters of a search agree with the document: for every chunk
  of the document, the chunk passes a filter just when the document's tag, id and status and the
  chunk's creation time do. The chunks of other documents are untouched, and no chunk is lost.
\<close>

theorem refreshed_chunks_filter_like_document:
  assumes "sql_engine ex (chunk_fits vec_dim) (chunks_ok docs)" and "chunks_ok docs t"
    and "list_all (chunk_fits vec_dim) t" and "list_all tag_fits tags"
    and "documents_map dt document_id = Some d"
  shows "\<exists>t'. refresh_metadata ex dt tags document_id t = (Inr (), t') \<and> chunks_ok docs t'
    \<and> (\<forall>r \<in> set t'. ck_document_id r = document_id \<longrightarrow>
          (\<forall>f. passes (Some f) r \<longleftrightarrow> document_passes f d (ck_created_at r)))
    \<and> (\<forall>k. map_option (\<lambda>r. r\<lparr>ck_meta := []\<rparr>) (table_map ck_key t' k) =
            map_option (\<lambda>r. r\<lparr>ck_meta := []\<rparr>) (table_map ck_key t k))
    \<and> (\<forall>r. ck_document_id r \<noteq> document_id \<longrightarrow> r \<in> set t' \<longleftrightarrow> r \<in> set t)"
proof -
  obtain slug t' where run: "refresh_metadata ex dt tags document_id t = (Inr (), t')" and ok': "chunks_ok docs t'"
    and t': "mset t' = mset (apply_update (\<lambda>r. ck_document_id r = document_id)
      (\<lambda>r. r\<lparr>ck_meta := dict_update (ck_meta r) (denormalised (doc_tag_id d, doc_status d, slug))\<rparr>) t)"
    by (rule refresh_metadata_exec [OF assms])
  let ?den = "denormalised (doc_tag_id d, doc_status d, slug)"
  let ?p = "\<lambda>r. ck_document_id r = document_id"
  let ?f = "\<lambda>r :: chunk_row. r\<lparr>ck_meta := dict_update (ck_meta r) ?den\<rparr>"
  have id: "doc_id d = document_id"
    using table_map_mem [OF assms(5)] by simp
  have set': "set t' = (\<lambda>r. if ?p r then ?f r else r) ` set t"
    using mset_eq_setD [OF t'] by (simp add: apply_update_def)
  have "passes (Some f) r \<longleftrightarrow> document_passes f d (ck_created_at r)"
    if r: "r \<in> set t'" "ck_document_id r = document_id" for r f
  proof -
    obtain r0 where r0: "r = (if ?p r0 then ?f r0 else r0)" using r(1) unfolding set' by blast
    have "r = ?f r0" using r(2) r0 by (cases "?p r0") simp_all
    then have "ck_meta r = dict_update (ck_meta r0) ?den" by simp
    then show ?thesis using r(2) id by (intro passes_refreshed) (simp_all only: map_of_denormalised)
  qed
  moreover have m: "table_map ck_key t' k = map_option (\<lambda>r. if ?p r then ?f r else r) (table_map ck_key t k)" for k
    using table_map_perm [OF _ t', of ck_key] table_map_update [of ?p ck_key ?f t k]
      chunks_ok_key [OF assms(2)] by (simp add: map_key_update ck_key_def)
  have "map_option (\<lambda>r. r\<lparr>ck_meta := []\<rparr>) (table_map ck_key t' k) =
      map_option (\<lambda>r. r\<lparr>ck_meta := []\<rparr>) (table_map ck_key t k)" for k
    unfolding m by (cases "table_map ck_key t k") simp_all
  moreover have "r \<in> set t' \<longleftrightarrow> r \<in> set t" if "ck_document_id r \<noteq> document_id" for r
    using that by (force simp: set')
  ultimately show ?thesis
    using run ok' by blast
qed

lemma refreshed_chunks_filter_like_document_witness:
  "\<exists>t'. refresh_metadata (pg_execute (chunk_fits 2) (chunks_ok {1})) sample_documents [] 1 sample_chunks = (Inr (), t')
    \<and> chunks_ok {1} t'"
proof -
  have "list_all (chunk_fits 2) sample_chunks"
    by (simp add: sample_chunks_def sample_chunk_fits)
  moreover have "documents_map sample_documents 1 = Some (new_document 1 0 (sample_values (replicate 64 CHR ''a'')))"
    by (simp add: sample_documents_def table_map_def)
  ultimately show ?thesis
    using refreshed_chunks_filter_like_document [OF chunk_engine.sql_engine_axioms sample_chunks_ok,
        of 2 "[]"] by fastforce
qed

end
