(* ===== verification/Blob.thy ===== *)
theory Blob
  imports Errors Config
begin

text \<open>
  Models \<open>src/ipa/storage/blob.py\<close>: the blob store over MinIO, or any object store that speaks S3.

  The SDK's client is an argument \<open>cl\<close>, bound to the store's bucket: it executes the calls of
  \<open>s3_cmd\<close> on its own state, each call returning a reply or raising. The locale \<open>s3_server\<close> states
  what S3 documents of them through the objects of the bucket and the bodies of the responses that
  are open; \<open>minio\<close> is a client that satisfies it and fails as its plan says.

  A call that an SDK thread runs is one step: \<open>asyncio.to_thread\<close> adds no state. \<open>get_stream\<close> reads
  until an empty chunk arrives, a loop the code does not bound, so it is a \<open>partial_function\<close>
  whose termination is proved. An asynchronous iterator that feeds \<open>put_stream\<close> is the list of the
  chunks it yields and the exception it ends with, if any; the spool file holds what was written.
\<close>

section \<open>The client\<close>

type_synonym bytes = "8 word list"

type_synonym object_map = "string \<Rightarrow> (bytes \<times> string) option"

text \<open>\<open>Release h\<close> is \<open>response.close(); response.release_conn()\<close>.\<close>

datatype s3_cmd =
    BucketExists
  | MakeBucket
  | StatObject string
  | PutObject string bytes string
  | GetObject string
  | ReadResponse nat int
  | Release nat
  | RemoveObject string

datatype s3_reply = SDone | SBool bool | SHandle nat | SBytes bytes

type_synonym 's s3_client = "s3_cmd \<Rightarrow> 's \<Rightarrow> (py_exn + s3_reply) \<times> 's"

section \<open>Errors\<close>

definition RETRYABLE_S3_CODES :: "string list" where
  "RETRYABLE_S3_CODES = [''InternalError'', ''ServiceUnavailable'', ''SlowDown'', ''RequestTimeout'']"

definition blob_error :: "string \<Rightarrow> py_exn \<Rightarrow> ipa_error" where
  "blob_error operation exc =
     (let error = make_error IpaError
            (Some (''MinIO '' @ operation @ '' failed: '' @ exn_str exc)) (Some ''blob_store_error'') None None
      in case exc of
           S3Error code _ \<Rightarrow>
             if code \<in> set RETRYABLE_S3_CODES then error\<lparr>err_retryable := True\<rparr> else error
         | _ \<Rightarrow> error)"

text \<open>\<open>except Exception as exc: raise _blob_error(operation, exc) from exc\<close>.\<close>

definition wrapping :: "string \<Rightarrow> ('s \<Rightarrow> (py_exn + 'a) \<times> 's) \<Rightarrow> 's \<Rightarrow> (py_exn + 'a) \<times> 's" where
  "wrapping operation m = catchE m (\<lambda>e. raiseE (IpaExn (blob_error operation e)))"

text \<open>\<open>exc.code == "NoSuchKey"\<close> on an S3 error.\<close>

fun no_such_key :: "py_exn \<Rightarrow> bool" where
  "no_such_key (S3Error code m) \<longleftrightarrow> code = ''NoSuchKey''"
| "no_such_key _ \<longleftrightarrow> False"

section \<open>The clients of a store\<close>

definition host_of :: "string \<Rightarrow> string" where
  "host_of endpoint = removeprefix (removeprefix endpoint ''https://'') ''http://''"

record client_config =
  cc_host :: string
  cc_access_key :: string
  cc_secret_key :: string
  cc_secure :: bool
  cc_region :: string

text \<open>The client \<open>__init__\<close> builds when none is passed, and the one that signs URLs.\<close>

definition primary_client :: "s3_settings \<Rightarrow> string \<Rightarrow> client_config" where
  "primary_client st region =
     \<lparr>cc_host = host st, cc_access_key = s3_access_key st, cc_secret_key = s3_secret_key st,
      cc_secure = s3_secure st, cc_region = region\<rparr>"

definition presign_client :: "s3_settings \<Rightarrow> string \<Rightarrow> client_config" where
  "presign_client st region =
     (if s3_public_endpoint st \<noteq> [] then
        \<lparr>cc_host = host_of (s3_public_endpoint st), cc_access_key = s3_access_key st,
         cc_secret_key = s3_secret_key st, cc_secure = startswith (s3_public_endpoint st) ''https://'',
         cc_region = region\<rparr>
      else primary_client st region)"

section \<open>The store\<close>

definition ensure_bucket :: "'s s3_client \<Rightarrow> 's \<Rightarrow> (py_exn + unit) \<times> 's" where
  "ensure_bucket cl =
     wrapping ''ensure_bucket''
       (seqE (cl BucketExists) (\<lambda>present.
          if present = SBool True then retE () else seqE (cl MakeBucket) (\<lambda>_. retE ())))"

definition bucket_exists :: "'s s3_client \<Rightarrow> 's \<Rightarrow> (py_exn + bool) \<times> 's" where
  "bucket_exists cl =
     wrapping ''bucket_exists'' (seqE (cl BucketExists) (\<lambda>present. retE (present = SBool True)))"

definition exists :: "'s s3_client \<Rightarrow> string \<Rightarrow> 's \<Rightarrow> (py_exn + bool) \<times> 's" where
  "exists cl key =
     catchE (seqE (cl (StatObject key)) (\<lambda>_. retE True))
       (\<lambda>e. if no_such_key e then retE False else raiseE (IpaExn (blob_error ''exists'' e)))"

definition put :: "'s s3_client \<Rightarrow> string \<Rightarrow> bytes \<Rightarrow> string \<Rightarrow> 's \<Rightarrow> (py_exn + string) \<times> 's" where
  "put cl key data content_type =
     seqE (exists cl key) (\<lambda>present.
       if present then retE key
       else seqE (wrapping ''put'' (cl (PutObject key data content_type))) (\<lambda>_. retE key))"

definition size_mismatch :: "string \<Rightarrow> nat \<Rightarrow> int \<Rightarrow> ipa_error" where
  "size_mismatch key written declared =
     make_error IpaError
       (Some (''Streamed '' @ str_nat written @ '' bytes for '' @ key @ '' but caller declared ''
              @ str_int declared @ ''.''))
       (Some ''blob_store_error'') None None"

text \<open>An \<open>IpaError\<close> passes through the handler of \<open>put_stream\<close>; any other exception is wrapped.\<close>

fun stream_fault :: "py_exn \<Rightarrow> py_exn" where
  "stream_fault (IpaExn e) = IpaExn e"
| "stream_fault e = IpaExn (blob_error ''put_stream'' e)"

definition put_stream ::
  "'s s3_client \<Rightarrow> string \<Rightarrow> bytes list \<times> py_exn option \<Rightarrow> string \<Rightarrow> int option
     \<Rightarrow> 's \<Rightarrow> (py_exn + string) \<times> 's" where
  "put_stream cl key reader content_type declared =
     seqE (exists cl key) (\<lambda>present.
       if present then retE key
       else
         seqE (catchE
           (case reader of (chunks, fault) \<Rightarrow>
              (case fault of
                 Some e \<Rightarrow> raiseE e
               | None \<Rightarrow>
                   (let spool = concat chunks; written = length spool
                    in case declared of
                         Some n \<Rightarrow>
                           if n \<noteq> int written then raiseE (IpaExn (size_mismatch key written n))
                           else cl (PutObject key spool content_type)
                       | None \<Rightarrow> cl (PutObject key spool content_type))))
           (\<lambda>e. raiseE (stream_fault e)))
         (\<lambda>_. retE key))"

text \<open>
  The loop of \<open>get_stream\<close>: the chunks it yields and the exception that ends it, if any. A reply
  that is not bytes cannot be yielded.
\<close>

partial_function (option) read_chunks ::
  "'s s3_client \<Rightarrow> nat \<Rightarrow> int \<Rightarrow> 's \<Rightarrow> ((bytes list \<times> py_exn option) \<times> 's) option" where
  "read_chunks cl h chunk_size s =
     (case cl (ReadResponse h chunk_size) s of
        (Inl e, s') \<Rightarrow> Some (([], Some e), s')
      | (Inr (SBytes chunk), s') \<Rightarrow>
          if chunk = [] then Some (([], None), s')
          else Option.bind (read_chunks cl h chunk_size s')
                 (\<lambda>((chunks, fault), s''). Some ((chunk # chunks, fault), s''))
      | (Inr _, s') \<Rightarrow> Some (([], Some (TypeError ''a bytes-like object is required'')), s'))"

definition get_fault :: "string \<Rightarrow> py_exn \<Rightarrow> py_exn" where
  "get_fault key e =
     (if no_such_key e then IpaExn (raise_error NotFoundError (''Blob '' @ key @ '' does not exist.''))
      else IpaExn (blob_error ''get_stream'' e))"

text \<open>The response is closed and its connection released in \<open>finally\<close>.\<close>

definition get_stream ::
  "'s s3_client \<Rightarrow> string \<Rightarrow> int \<Rightarrow> 's \<Rightarrow> ((bytes list \<times> py_exn option) \<times> 's) option" where
  "get_stream cl key chunk_size s =
     (case cl (GetObject key) s of
        (Inl e, s') \<Rightarrow> Some (([], Some (get_fault key e)), s')
      | (Inr (SHandle h), s') \<Rightarrow>
          Option.bind (read_chunks cl h chunk_size s')
            (\<lambda>((chunks, fault), s''). Some ((chunks, map_option (get_fault key) fault), snd (cl (Release h) s'')))
      | (Inr _, s') \<Rightarrow> Some (([], Some (get_fault key (TypeError ''response''))), s'))"

definition GET_CHUNK_SIZE :: int where
  "GET_CHUNK_SIZE = 1024 * 1024"

definition get :: "'s s3_client \<Rightarrow> string \<Rightarrow> 's \<Rightarrow> ((py_exn + bytes) \<times> 's) option" where
  "get cl key s =
     Option.bind (get_stream cl key GET_CHUNK_SIZE s)
       (\<lambda>((chunks, fault), s'). Some (case fault of None \<Rightarrow> Inr (concat chunks) | Some e \<Rightarrow> Inl e, s'))"

text \<open>\<open>sign\<close> is \<open>presigned_get_object\<close> of the signing client, on the key and the lifetime in seconds.\<close>

definition presigned_url :: "(string \<Rightarrow> int \<Rightarrow> py_exn + string) \<Rightarrow> string \<Rightarrow> int \<Rightarrow> py_exn + string" where
  "presigned_url sign key expires_s =
     (case sign key expires_s of Inl e \<Rightarrow> Inl (IpaExn (blob_error ''presigned_url'' e)) | Inr url \<Rightarrow> Inr url)"

definition delete_blob :: "'s s3_client \<Rightarrow> string \<Rightarrow> 's \<Rightarrow> (py_exn + unit) \<times> 's" where
  "delete_blob cl key =
     catchE (seqE (cl (RemoveObject key)) (\<lambda>_. retE ()))
       (\<lambda>e. if no_such_key e then retE () else raiseE (IpaExn (blob_error ''delete'' e)))"

section \<open>What S3 promises\<close>

text \<open>
  A write that raises may or may not have taken effect; a read or a stat changes no object, and
  reports NoSuchKey only for a key that is absent. A response yields the rest of its object in
  non-empty chunks of at most the asked size, and an empty one at its end.
\<close>

locale s3_server =
  fixes cl :: "'s s3_client" and objects :: "'s \<Rightarrow> object_map" and bodies :: "'s \<Rightarrow> nat \<Rightarrow> bytes option"
  assumes stat: "cl (StatObject k) s = (r, s') \<Longrightarrow> objects s' = objects s \<and> bodies s' = bodies s
      \<and> (case r of Inr reply \<Rightarrow> objects s k \<noteq> None | Inl e \<Rightarrow> no_such_key e \<longrightarrow> objects s k = None)"
    and put_object: "cl (PutObject k d c) s = (r, s') \<Longrightarrow> bodies s' = bodies s
      \<and> (objects s' = (objects s)(k \<mapsto> (d, c)) \<or> (\<exists>e. r = Inl e) \<and> objects s' = objects s)"
    and get_object: "cl (GetObject k) s = (r, s') \<Longrightarrow> objects s' = objects s
      \<and> (case r of
           Inr reply \<Rightarrow> (\<exists>h d c. reply = SHandle h \<and> objects s k = Some (d, c) \<and> bodies s h = None
               \<and> bodies s' = (bodies s)(h \<mapsto> d))
         | Inl e \<Rightarrow> bodies s' = bodies s \<and> (no_such_key e \<longrightarrow> objects s k = None))"
    and read_response: "0 < n \<Longrightarrow> bodies s h = Some d \<Longrightarrow> cl (ReadResponse h n) s = (r, s') \<Longrightarrow>
      objects s' = objects s
      \<and> (case r of
           Inr reply \<Rightarrow> (\<exists>chunk rest. reply = SBytes chunk \<and> d = chunk @ rest \<and> int (length chunk) \<le> n
               \<and> (chunk = [] \<longrightarrow> rest = []) \<and> bodies s' = (bodies s)(h \<mapsto> rest))
         | Inl e \<Rightarrow> \<not> no_such_key e \<and> (\<exists>rest. bodies s' = (bodies s)(h \<mapsto> rest)))"
    and release: "bodies s h = Some d \<Longrightarrow> objects (snd (cl (Release h) s)) = objects s
      \<and> bodies (snd (cl (Release h) s)) = (bodies s)(h := None)"
    and remove_object: "cl (RemoveObject k) s = (r, s') \<Longrightarrow> bodies s' = bodies s
      \<and> (objects s' = (objects s)(k := None) \<or> (\<exists>e. r = Inl e) \<and> objects s' = objects s)"

section \<open>A client\<close>

text \<open>Its plan gives the calls that fail, with the exception each raises.\<close>

record minio_state =
  ms_bucket :: bool
  ms_objects :: object_map
  ms_bodies :: "(nat \<times> bytes) list"
  ms_plan :: "py_exn option list"

definition fresh_handle :: "(nat \<times> bytes) list \<Rightarrow> nat" where
  "fresh_handle b = Suc (sum_list (map fst b))"

fun minio_call :: "s3_cmd \<Rightarrow> minio_state \<Rightarrow> (py_exn + s3_reply) \<times> minio_state" where
  "minio_call BucketExists s = (Inr (SBool (ms_bucket s)), s)"
| "minio_call MakeBucket s = (Inr SDone, s\<lparr>ms_bucket := True\<rparr>)"
| "minio_call (StatObject k) s =
     (if ms_objects s k = None then (Inl (S3Error ''NoSuchKey'' ''Object does not exist''), s) else (Inr SDone, s))"
| "minio_call (PutObject k d c) s = (Inr SDone, s\<lparr>ms_objects := (ms_objects s)(k \<mapsto> (d, c))\<rparr>)"
| "minio_call (GetObject k) s =
     (case ms_objects s k of
        None \<Rightarrow> (Inl (S3Error ''NoSuchKey'' ''The specified key does not exist''), s)
      | Some (d, c) \<Rightarrow>
          (Inr (SHandle (fresh_handle (ms_bodies s))),
           s\<lparr>ms_bodies := (fresh_handle (ms_bodies s), d) # ms_bodies s\<rparr>))"
| "minio_call (ReadResponse h n) s =
     (case map_of (ms_bodies s) h of
        None \<Rightarrow> (Inl (ValueError ''I/O operation on closed file''), s)
      | Some d \<Rightarrow>
          (Inr (SBytes (take (nat n) d)), s\<lparr>ms_bodies := (h, drop (nat n) d) # ms_bodies s\<rparr>))"
| "minio_call (Release h) s = (Inr SDone, s\<lparr>ms_bodies := filter (\<lambda>b. fst b \<noteq> h) (ms_bodies s)\<rparr>)"
| "minio_call (RemoveObject k) s = (Inr SDone, s\<lparr>ms_objects := (ms_objects s)(k := None)\<rparr>)"

fun releasing :: "s3_cmd \<Rightarrow> bool" where
  "releasing (Release h) \<longleftrightarrow> True"
| "releasing _ \<longleftrightarrow> False"

definition minio :: "minio_state s3_client" where
  "minio c s =
     (case ms_plan s of
        [] \<Rightarrow> minio_call c s
      | p # ps \<Rightarrow>
          (case p of
             Some e \<Rightarrow> if releasing c \<or> no_such_key e then minio_call c (s\<lparr>ms_plan := ps\<rparr>)
                       else (Inl e, s\<lparr>ms_plan := ps\<rparr>)
           | None \<Rightarrow> minio_call c (s\<lparr>ms_plan := ps\<rparr>)))"

lemma member_le_sum_list: "n \<in> set ns \<Longrightarrow> n \<le> sum_list (ns :: nat list)"
  by (induction ns) auto

lemma fresh_handle_unused: "map_of b (fresh_handle b) = None"
proof -
  have "fresh_handle b \<notin> fst ` set b"
    using member_le_sum_list [of "fresh_handle b" "map fst b"] by (auto simp: fresh_handle_def)
  then show ?thesis by (simp add: map_of_eq_None_iff)
qed

lemma map_of_filter_key: "map_of (filter (\<lambda>b. fst b \<noteq> h) xs) = (map_of xs)(h := None)"
  by (induction xs) (auto simp: fun_eq_iff)

lemma minio_cases:
  obtains (called) s0 where "minio c s = minio_call c s0" "ms_objects s0 = ms_objects s"
    "ms_bodies s0 = ms_bodies s"
  | (failed) e s0 where "minio c s = (Inl e, s0)" "\<not> no_such_key e" "\<not> releasing c"
    "ms_objects s0 = ms_objects s" "ms_bodies s0 = ms_bodies s"
proof (cases "ms_plan s")
  case Nil
  then show thesis using called [of s] by (simp add: minio_def)
next
  case (Cons p ps)
  let ?s0 = "s\<lparr>ms_plan := ps\<rparr>"
  show thesis
  proof (cases "\<exists>e. p = Some e \<and> \<not> releasing c \<and> \<not> no_such_key e")
    case True
    with Cons show ?thesis using failed [of _ ?s0] by (auto simp: minio_def)
  next
    case False
    with Cons have "minio c s = minio_call c ?s0" by (auto simp: minio_def split: option.splits)
    then show ?thesis using called [of ?s0] by simp
  qed
qed

interpretation minio: s3_server minio ms_objects "\<lambda>s. map_of (ms_bodies s)"
proof
  show "ms_objects s' = ms_objects s \<and> map_of (ms_bodies s') = map_of (ms_bodies s)
      \<and> (case r of Inr reply \<Rightarrow> ms_objects s k \<noteq> None | Inl e \<Rightarrow> no_such_key e \<longrightarrow> ms_objects s k = None)"
    if "minio (StatObject k) s = (r, s')" for k s r s'
    by (rule minio_cases [of "StatObject k" s]) (use that in \<open>auto split: if_splits\<close>)
  show "map_of (ms_bodies s') = map_of (ms_bodies s)
      \<and> (ms_objects s' = (ms_objects s)(k \<mapsto> (d, c)) \<or> (\<exists>e. r = Inl e) \<and> ms_objects s' = ms_objects s)"
    if "minio (PutObject k d c) s = (r, s')" for k d c s r s'
    by (rule minio_cases [of "PutObject k d c" s]) (use that in auto)
  show "ms_objects s' = ms_objects s
      \<and> (case r of
           Inr reply \<Rightarrow> (\<exists>h d c. reply = SHandle h \<and> ms_objects s k = Some (d, c)
               \<and> map_of (ms_bodies s) h = None \<and> map_of (ms_bodies s') = (map_of (ms_bodies s))(h \<mapsto> d))
         | Inl e \<Rightarrow> map_of (ms_bodies s') = map_of (ms_bodies s) \<and> (no_such_key e \<longrightarrow> ms_objects s k = None))"
    if "minio (GetObject k) s = (r, s')" for k s r s'
    by (rule minio_cases [of "GetObject k" s]; use that in \<open>cases "ms_objects s k"\<close>)
       (auto simp: fresh_handle_unused)
  show "ms_objects s' = ms_objects s
      \<and> (case r of
           Inr reply \<Rightarrow> (\<exists>chunk rest. reply = SBytes chunk \<and> d = chunk @ rest \<and> int (length chunk) \<le> n
               \<and> (chunk = [] \<longrightarrow> rest = []) \<and> map_of (ms_bodies s') = (map_of (ms_bodies s))(h \<mapsto> rest))
         | Inl e \<Rightarrow> \<not> no_such_key e \<and> (\<exists>rest. map_of (ms_bodies s') = (map_of (ms_bodies s))(h \<mapsto> rest)))"
    if "0 < n" "map_of (ms_bodies s) h = Some d" "minio (ReadResponse h n) s = (r, s')" for n s h d r s'
  proof (rule minio_cases [of "ReadResponse h n" s])
    fix s0 assume "minio (ReadResponse h n) s = minio_call (ReadResponse h n) s0"
      "ms_objects s0 = ms_objects s" "ms_bodies s0 = ms_bodies s"
    then show ?thesis using that by (auto intro!: exI [of _ "drop (nat n) d"])
  next
    fix e s0 assume "minio (ReadResponse h n) s = (Inl e, s0)" "\<not> no_such_key e"
      "ms_objects s0 = ms_objects s" "ms_bodies s0 = ms_bodies s"
    moreover have "map_of (ms_bodies s) = (map_of (ms_bodies s))(h \<mapsto> d)"
      using that(2) by (simp add: fun_upd_idem)
    ultimately show ?thesis using that by (auto intro: exI [of _ d])
  qed
  show "ms_objects (snd (minio (Release h) s)) = ms_objects s
      \<and> map_of (ms_bodies (snd (minio (Release h) s))) = (map_of (ms_bodies s))(h := None)"
    if "map_of (ms_bodies s) h = Some d" for s h d
    by (rule minio_cases [of "Release h" s]) (auto simp: map_of_filter_key)
  show "map_of (ms_bodies s') = map_of (ms_bodies s)
      \<and> (ms_objects s' = (ms_objects s)(k := None) \<or> (\<exists>e. r = Inl e) \<and> ms_objects s' = ms_objects s)"
    if "minio (RemoveObject k) s = (r, s')" for k s r s'
    by (rule minio_cases [of "RemoveObject k" s]) (use that in auto)
qed

section \<open>What the operations do\<close>

lemma blob_error_simps [simp]:
  "err_class (blob_error op e) = IpaError" "err_code (blob_error op e) = ''blob_store_error''"
  "err_http_status (blob_error op e) = 500"
  by (auto simp: blob_error_def make_error_def Let_def split: py_exn.splits)

lemma blob_error_retryable:
  "err_retryable (blob_error op e) \<longleftrightarrow> (\<exists>code m. e = S3Error code m \<and> code \<in> set RETRYABLE_S3_CODES)"
  by (auto simp: blob_error_def Let_def split: py_exn.splits)

lemma NoSuchKey_not_retryable: "no_such_key e \<Longrightarrow> \<not> err_retryable (blob_error op e)"
  by (cases e) (auto simp: blob_error_retryable RETRYABLE_S3_CODES_def)

lemma get_fault_class: "\<exists>x. get_fault k e = IpaExn x \<and> (err_class x = NotFoundError \<longleftrightarrow> no_such_key e)"
  by (simp add: get_fault_def)

context s3_server
begin

lemma exists_cases:
  obtains (present) s' where "exists cl k s = (Inr True, s')" "objects s' = objects s" "bodies s' = bodies s"
    "objects s k \<noteq> None"
  | (absent) s' where "exists cl k s = (Inr False, s')" "objects s' = objects s" "bodies s' = bodies s"
    "objects s k = None"
  | (fails) e s' where "exists cl k s = (Inl (IpaExn (blob_error ''exists'' e)), s')"
    "objects s' = objects s" "bodies s' = bodies s"
proof -
  obtain r s' where run: "cl (StatObject k) s = (r, s')" by fastforce
  note law = stat [OF this]
  show thesis
  proof (cases r)
    case (Inr reply)
    with run law present [of s'] show ?thesis by (simp add: exists_def exec_simps)
  next
    case (Inl e)
    with run law absent [of s'] fails [of e s'] show ?thesis
      by (cases "no_such_key e") (simp_all add: exists_def exec_simps)
  qed
qed

lemma put_object_cases:
  obtains (wrote) reply s' where "cl (PutObject k d c) s = (Inr reply, s')"
    "objects s' = (objects s)(k \<mapsto> (d, c))" "bodies s' = bodies s"
  | (fails) e s' where "cl (PutObject k d c) s = (Inl e, s')" "bodies s' = bodies s"
    "objects s' = objects s \<or> objects s' = (objects s)(k \<mapsto> (d, c))"
proof -
  obtain r s' where run: "cl (PutObject k d c) s = (r, s')" by fastforce
  with put_object [OF run] show thesis by (cases r) (auto intro: that)
qed

lemma put_cases:
  obtains (stored) s' where "put cl k d c s = (Inr k, s')" "bodies s' = bodies s"
    "objects s' = (if objects s k = None then (objects s)(k \<mapsto> (d, c)) else objects s)"
  | (fails) e s' where "put cl k d c s = (Inl (IpaExn e), s')" "bodies s' = bodies s"
    "objects s' = objects s \<or> objects s k = None \<and> objects s' = (objects s)(k \<mapsto> (d, c))"
proof (cases rule: exists_cases [of k s])
  case (present s')
  then show ?thesis by (intro stored [of s']) (auto simp: put_def exec_simps)
next
  case (fails e s')
  then show ?thesis by (intro that(2) [of "blob_error ''exists'' e" s']) (simp_all add: put_def exec_simps)
next
  case (absent s1)
  show ?thesis
  proof (cases rule: put_object_cases [of k d c s1])
    case (wrote reply s')
    with absent show ?thesis
      by (intro stored [of s']) (simp_all add: put_def wrapping_def seqE_def catchE_def)
  next
    case (fails e s')
    with absent show ?thesis
      by (intro that(2) [of "blob_error ''put'' e" s']) (simp_all add: put_def wrapping_def seqE_def catchE_def)
  qed
qed

lemma read_chunks_run:
  assumes "0 < n" and "bodies s h = Some d"
  shows "\<exists>chunks fault s' rest tl. read_chunks cl h n s = Some ((chunks, fault), s')
    \<and> objects s' = objects s \<and> bodies s' = (bodies s)(h \<mapsto> rest) \<and> d = concat chunks @ tl
    \<and> (\<forall>c \<in> set chunks. c \<noteq> [] \<and> int (length c) \<le> n)
    \<and> (case fault of None \<Rightarrow> tl = [] | Some e \<Rightarrow> \<not> no_such_key e)"
  using assms(2)
proof (induction "length d" arbitrary: d s rule: less_induct)
  case less
  obtain r s1 where run: "cl (ReadResponse h n) s = (r, s1)" by fastforce
  note law = read_response [OF assms(1) less.prems run]
  show ?case
  proof (cases r)
    case (Inl e)
    with law obtain rest where "\<not> no_such_key e" "bodies s1 = (bodies s)(h \<mapsto> rest)" by auto
    with Inl law run show ?thesis
      by (subst read_chunks.simps) (auto intro!: exI [of _ d] exI [of _ rest])
  next
    case (Inr reply)
    with law obtain chunk rest where reply: "reply = SBytes chunk" and d: "d = chunk @ rest"
      and len: "int (length chunk) \<le> n" and empty: "chunk = [] \<longrightarrow> rest = []"
      and b: "bodies s1 = (bodies s)(h \<mapsto> rest)"
      by auto
    show ?thesis
    proof (cases "chunk = []")
      case True
      with Inr reply run law b d empty show ?thesis
        by (subst read_chunks.simps) (auto intro!: exI [of _ rest])
    next
      case False
      then have "length rest < length d" by (simp add: d)
      from less.hyps [OF this, of s1] b obtain chunks fault s' rest' tl
        where ih: "read_chunks cl h n s1 = Some ((chunks, fault), s')" "objects s' = objects s1"
          "bodies s' = (bodies s1)(h \<mapsto> rest')" "rest = concat chunks @ tl"
          "\<forall>c \<in> set chunks. c \<noteq> [] \<and> int (length c) \<le> n"
          "case fault of None \<Rightarrow> tl = [] | Some e \<Rightarrow> \<not> no_such_key e"
        by auto
      have "read_chunks cl h n s = Some ((chunk # chunks, fault), s')"
        using Inr reply run False ih(1) by (subst read_chunks.simps) simp
      with ih law False b d len show ?thesis
        by (intro exI [of _ "chunk # chunks"] exI [of _ fault] exI [of _ s'] exI [of _ rest'] exI [of _ tl]) simp
    qed
  qed
qed

lemma get_stream_run:
  assumes "0 < n"
  obtains chunks fault s' tl where "get_stream cl k n s = Some ((chunks, fault), s')"
    "objects s' = objects s" "bodies s' = bodies s"
    "\<forall>c \<in> set chunks. c \<noteq> [] \<and> int (length c) \<le> n"
    "case objects s k of None \<Rightarrow> chunks = [] \<and> fault \<noteq> None | Some (d, _) \<Rightarrow> d = concat chunks @ tl"
    "fault = None \<longrightarrow> tl = []"
    "\<forall>e. fault = Some e \<longrightarrow> (\<exists>x. e = IpaExn x \<and> (err_class x = NotFoundError \<longrightarrow> objects s k = None))"
proof -
  obtain r s1 where run: "cl (GetObject k) s = (r, s1)" by fastforce
  note law = get_object [OF this]
  show thesis
  proof (cases r)
    case (Inl e)
    have "get_stream cl k n s = Some (([], Some (get_fault k e)), s1)"
      by (simp add: get_stream_def run Inl)
    then show ?thesis
      by (rule that [where tl = "case objects s k of None \<Rightarrow> [] | Some (d, _) \<Rightarrow> d"])
        (use law Inl get_fault_class [of k e] in \<open>auto split: option.splits\<close>)
  next
    case (Inr reply)
    with law obtain h d c where reply: "reply = SHandle h" and d: "objects s k = Some (d, c)"
      and h: "bodies s h = None" "bodies s1 = (bodies s)(h \<mapsto> d)" and o1: "objects s1 = objects s"
      by auto
    have "bodies s1 h = Some d" by (simp add: h)
    from read_chunks_run [OF assms this] obtain chunks fault s2 rest tl
      where rd: "read_chunks cl h n s1 = Some ((chunks, fault), s2)" "objects s2 = objects s1"
        "bodies s2 = (bodies s1)(h \<mapsto> rest)" "d = concat chunks @ tl"
        "\<forall>c \<in> set chunks. c \<noteq> [] \<and> int (length c) \<le> n"
        "case fault of None \<Rightarrow> tl = [] | Some e \<Rightarrow> \<not> no_such_key e"
      by blast
    let ?s' = "snd (cl (Release h) s2)"
    have "bodies s2 h = Some rest" by (simp add: rd)
    from release [OF this] have rel: "objects ?s' = objects s" "bodies ?s' = bodies s"
      using h o1 rd by (auto simp: fun_eq_iff)
    have "get_stream cl k n s = Some ((chunks, map_option (get_fault k) fault), ?s')"
      by (simp add: get_stream_def run Inr reply rd(1))
    then show ?thesis using rel rd(5)
      by (rule that [where tl = tl])
        (use d rd(4,6) get_fault_class [of k] in \<open>fastforce split: option.splits\<close>)+
  qed
qed

end

lemma stream_fault_ipa: "\<exists>x. stream_fault e = IpaExn x"
  by (cases e) simp_all

text \<open>A stream that ended without an error, of the declared length when one was declared.\<close>

definition stream_complete :: "bytes list \<Rightarrow> py_exn option \<Rightarrow> int option \<Rightarrow> bool" where
  "stream_complete chunks fault declared \<longleftrightarrow>
     fault = None \<and> (case declared of None \<Rightarrow> True | Some n \<Rightarrow> n = int (length (concat chunks)))"

section \<open>Properties\<close>

text \<open>
  C3. What was stored is read back. After a \<open>put\<close> that returned, reading the key always ends: with
  the stored bytes (those of the object already there when the key existed), or with an error that
  is no NotFoundError; other keys keep their objects, the read changes none, and no response stays
  open.
\<close>

theorem stored_blob_is_read_back:
  assumes "s3_server cl objects bodies" and "put cl key data content_type s = (Inr key', s1)"
  shows "key' = key
    \<and> objects s1 = (if objects s key = None then (objects s)(key \<mapsto> (data, content_type)) else objects s)
    \<and> (\<exists>r s2. get cl key s1 = Some (r, s2) \<and> objects s2 = objects s1 \<and> bodies s2 = bodies s
         \<and> (case r of
              Inr bs \<Rightarrow> bs = (case objects s key of None \<Rightarrow> data | Some (old, _) \<Rightarrow> old)
            | Inl e \<Rightarrow> (\<exists>x. e = IpaExn x \<and> err_class x \<noteq> NotFoundError)))"
proof (cases rule: s3_server.put_cases [OF assms(1), of key data content_type s])
  case (1 s')
  with assms(2) have s': "s' = s1" "key' = key" by simp_all
  obtain d c where old: "objects s1 key = Some (d, c)"
    "d = (case objects s key of None \<Rightarrow> data | Some (old, _) \<Rightarrow> old)"
    using 1(3) s' by (cases "objects s key") auto
  obtain chunks fault s2 tl where
    "get_stream cl key GET_CHUNK_SIZE s1 = Some ((chunks, fault), s2)"
    "objects s2 = objects s1" "bodies s2 = bodies s1" "d = concat chunks @ tl"
    "fault = None \<longrightarrow> tl = []"
    "\<forall>e. fault = Some e \<longrightarrow> (\<exists>x. e = IpaExn x \<and> err_class x \<noteq> NotFoundError)"
  proof (rule s3_server.get_stream_run [OF assms(1), of GET_CHUNK_SIZE key s1])
    show "0 < GET_CHUNK_SIZE" by (simp add: GET_CHUNK_SIZE_def)
  qed (use old(1) that in simp)
  then show ?thesis
    using 1 s' old(2) by (cases fault) (auto simp: get_def)
next
  case (2 e s')
  with assms(2) show ?thesis by simp
qed

definition sample_store :: minio_state where
  "sample_store = \<lparr>ms_bucket = True, ms_objects = Map.empty, ms_bodies = [], ms_plan = []\<rparr>"

lemma stored_blob_is_read_back_witness:
  "\<exists>s1. put minio ''originals/ab'' [1, 2, 3] ''application/pdf'' sample_store = (Inr ''originals/ab'', s1)
    \<and> (\<exists>r s2. get minio ''originals/ab'' s1 = Some (r, s2))"
proof -
  obtain s1 where "put minio ''originals/ab'' [1, 2, 3] ''application/pdf'' sample_store = (Inr ''originals/ab'', s1)"
    by (simp add: put_def exists_def wrapping_def seqE_def catchE_def minio_def sample_store_def)
  with stored_blob_is_read_back [OF minio.s3_server_axioms this] show ?thesis by blast
qed

text \<open>
  C13. \<open>get_stream\<close> terminates: whatever the server does, it yields finitely many chunks, none
  empty or longer than asked, whose concatenation is the object when no error ends the stream and
  a prefix of it otherwise; it changes no object, ends with a NotFoundError only for an absent key,
  and leaves no response open.
\<close>

theorem get_stream_terminates:
  assumes "s3_server cl objects bodies" and "0 < chunk_size"
  shows "\<exists>chunks fault s'. get_stream cl key chunk_size s = Some ((chunks, fault), s')
    \<and> (\<forall>c \<in> set chunks. c \<noteq> [] \<and> int (length c) \<le> chunk_size)
    \<and> (case objects s key of
         None \<Rightarrow> chunks = [] \<and> fault \<noteq> None
       | Some (d, _) \<Rightarrow> (\<exists>tl. d = concat chunks @ tl \<and> (fault = None \<longrightarrow> tl = [])))
    \<and> (\<forall>e. fault = Some e \<longrightarrow> (\<exists>x. e = IpaExn x \<and> (err_class x = NotFoundError \<longrightarrow> objects s key = None)))
    \<and> objects s' = objects s \<and> bodies s' = bodies s"
proof (rule s3_server.get_stream_run [OF assms, of key s])
  fix chunks fault s' tl
  assume run: "get_stream cl key chunk_size s = Some ((chunks, fault), s')"
    and same: "objects s' = objects s" "bodies s' = bodies s"
    and "\<forall>c \<in> set chunks. c \<noteq> [] \<and> int (length c) \<le> chunk_size"
    and body: "case objects s key of None \<Rightarrow> chunks = [] \<and> fault \<noteq> None | Some (d, _) \<Rightarrow> d = concat chunks @ tl"
      "fault = None \<longrightarrow> tl = []"
    and "\<forall>e. fault = Some e \<longrightarrow> (\<exists>x. e = IpaExn x \<and> (err_class x = NotFoundError \<longrightarrow> objects s key = None))"
  moreover have "case objects s key of None \<Rightarrow> chunks = [] \<and> fault \<noteq> None
      | Some (d, _) \<Rightarrow> (\<exists>tl. d = concat chunks @ tl \<and> (fault = None \<longrightarrow> tl = []))"
    using body by (cases "objects s key") auto
  ultimately show ?thesis by blast
qed

lemma get_stream_terminates_witness:
  "\<exists>chunks fault s'. get_stream minio ''absent'' 2 sample_store = Some ((chunks, fault), s')"
  using get_stream_terminates [OF minio.s3_server_axioms, of 2 "''absent''" sample_store] by auto

text \<open>
  C6. \<open>put_stream\<close> stores all or nothing: the objects change only when the key was absent, the
  stream ended without an error and its length is the declared one, and then the key holds the
  concatenation of the chunks; it returns only when the key is there, and a wrong length or a
  failed stream of a new key is reported.
\<close>

theorem put_stream_stores_all_or_nothing:
  assumes "s3_server cl objects bodies"
    and "put_stream cl key (chunks, fault) content_type declared s = (r, s1)"
  shows "(objects s1 = objects s
      \<or> objects s key = None \<and> stream_complete chunks fault declared
        \<and> objects s1 = (objects s)(key \<mapsto> (concat chunks, content_type)))
    \<and> bodies s1 = bodies s
    \<and> (case r of Inr key' \<Rightarrow> key' = key \<and> objects s1 key \<noteq> None | Inl e \<Rightarrow> (\<exists>x. e = IpaExn x))
    \<and> (objects s key = None \<longrightarrow> \<not> stream_complete chunks fault declared \<longrightarrow> (\<exists>e. r = Inl e))"
proof (cases rule: s3_server.exists_cases [OF assms(1), of key s])
  case (1 s')
  then show ?thesis using assms(2) by (auto simp: put_stream_def exec_simps)
next
  case (3 e s')
  then show ?thesis using assms(2) by (auto simp: put_stream_def exec_simps)
next
  case absent: (2 s0)
  show ?thesis
  proof (cases "stream_complete chunks fault declared")
    case False
    define e where "e = (case fault of
        Some e \<Rightarrow> e
      | None \<Rightarrow> IpaExn (size_mismatch key (length (concat chunks)) (the declared)))"
    have "r = Inl (stream_fault e)" "s1 = s0"
      using False absent assms(2)
      by (auto simp: put_stream_def seqE_def stream_complete_def Let_def catchE_def e_def
          split: option.splits if_splits)
    with absent show ?thesis using stream_fault_ipa [of e] by auto
  next
    case True
    then have run: "put_stream cl key (chunks, fault) content_type declared s =
        seqE (catchE (cl (PutObject key (concat chunks) content_type)) (\<lambda>e. raiseE (stream_fault e)))
          (\<lambda>_. retE key) s0"
      using absent by (auto simp: put_stream_def seqE_def stream_complete_def Let_def split: option.splits)
    show ?thesis
    proof (cases rule: s3_server.put_object_cases [OF assms(1), of key "concat chunks" content_type s0])
      case (1 reply s')
      with run assms(2) absent True show ?thesis by (auto simp: exec_simps)
    next
      case (2 e s')
      with run assms(2) absent True stream_fault_ipa [of e] show ?thesis by (auto simp: exec_simps)
    qed
  qed
qed

lemma put_stream_stores_all_or_nothing_witness:
  "\<exists>s1. put_stream minio ''k'' ([[1], [2, 3]], None) ''image/png'' (Some 4) sample_store =
      (Inl (IpaExn (size_mismatch ''k'' (length [1 :: 8 word, 2, 3]) 4)), s1) \<and> ms_objects s1 = ms_objects sample_store"
proof -
  obtain s1 where run: "put_stream minio ''k'' ([[1], [2, 3]], None) ''image/png'' (Some 4) sample_store =
      (Inl (IpaExn (size_mismatch ''k'' (length [1 :: 8 word, 2, 3]) 4)), s1)"
    by (simp add: put_stream_def exists_def seqE_def catchE_def minio_def sample_store_def)
  with put_stream_stores_all_or_nothing [OF minio.s3_server_axioms run] show ?thesis
    by (simp add: stream_complete_def)
qed

end
