(* ===== verification/Content.thy ===== *)
theory Content
  imports Errors Enums Ids
begin

text \<open>
  Models \<open>src/ipa/storage/content.py\<close>, the content store over MongoDB, and the DTOs of
  \<open>src/ipa/contracts/models.py\<close> it stores: page texts, extraction versions and raw responses.

  A collection is an argument of type \<open>mongo\<close>, which executes the driver calls of \<open>mongo_cmd\<close> on its
  own state. The locale \<open>mongo_collection\<close> states what MongoDB documents of them for a collection
  with the unique index that \<open>ensure_indexes\<close> creates, through the map from the index key to the
  stored document; \<open>mongod\<close> satisfies it. Any call may raise, and a write that raises may have taken
  effect. \<open>stored\<close> is what BSON keeps of a document: datetimes lose their microseconds.

  \<open>asyncio.gather\<close> runs its coroutines in an order the event loop picks; each coroutine here is one
  driver call, so the order of a batch is an argument. When one raises, the others still run, and
  the state returned is the one after all of them.
\<close>

section \<open>The DTOs\<close>

datatype text_source = TextLayer | Vlm | Tesseract

record page_text =
  pt_page :: int
  pt_text :: string
  pt_source :: text_source
  pt_confidence :: "rat option"
  pt_char_count :: int

definition unit_range :: "rat \<Rightarrow> bool" where
  "unit_range x \<longleftrightarrow> 0 \<le> x \<and> x \<le> 1"

text \<open>The constraints pydantic checks when a DTO is built.\<close>

definition page_text_valid :: "page_text \<Rightarrow> bool" where
  "page_text_valid p \<longleftrightarrow>
     1 \<le> pt_page p \<and> (case pt_confidence p of None \<Rightarrow> True | Some x \<Rightarrow> unit_range x) \<and> 0 \<le> pt_char_count p"

record extracted_field =
  ef_key :: string
  ef_value :: json
  ef_confidence :: rat
  ef_page :: "int option"
  ef_evidence :: "string option"
  ef_valid :: bool
  ef_validation_errors :: "string list"

definition extracted_field_valid :: "extracted_field \<Rightarrow> bool" where
  "extracted_field_valid f \<longleftrightarrow>
     unit_range (ef_confidence f) \<and> (case ef_page f of None \<Rightarrow> True | Some p \<Rightarrow> 1 \<le> p)"

record extraction_record =
  er_document_id :: uuid
  er_version :: int
  er_tag_id :: uuid
  er_tag_version :: int
  er_source :: extraction_source
  er_model :: "string option"
  er_prompt_hash :: "string option"
  er_fields :: "extracted_field list"
  er_document_confidence :: rat
  er_created_at :: timestamp
  er_created_by :: "string option"

definition extraction_record_valid :: "extraction_record \<Rightarrow> bool" where
  "extraction_record_valid r \<longleftrightarrow>
     1 \<le> er_version r \<and> 1 \<le> er_tag_version r \<and> list_all extracted_field_valid (er_fields r)
     \<and> unit_range (er_document_confidence r)"

section \<open>The stored documents\<close>

record page_doc =
  pd_document_id :: string
  pd_page :: int
  pd_text :: string
  pd_source :: text_source
  pd_confidence :: "rat option"
  pd_char_count :: int
  pd_created_at :: timestamp

record extraction_doc =
  ed_document_id :: string
  ed_version :: int
  ed_tag_id :: string
  ed_tag_version :: int
  ed_source :: extraction_source
  ed_model :: "string option"
  ed_prompt_hash :: "string option"
  ed_fields :: "json_dict list"
  ed_document_confidence :: rat
  ed_created_at :: timestamp
  ed_created_by :: "string option"

record raw_doc =
  rd_document_id :: string
  rd_step :: string
  rd_model :: string
  rd_request_summary :: "string option"
  rd_response_text :: string
  rd_created_at :: timestamp

text \<open>The keys of the unique indexes.\<close>

definition page_key_of :: "page_doc \<Rightarrow> string \<times> int" where
  "page_key_of d = (pd_document_id d, pd_page d)"

definition extraction_key_of :: "extraction_doc \<Rightarrow> string \<times> int" where
  "extraction_key_of d = (ed_document_id d, ed_version d)"

text \<open>A BSON datetime counts milliseconds.\<close>

definition bson_datetime :: "timestamp \<Rightarrow> timestamp" where
  "bson_datetime t = t div 1000 * 1000"

definition stored_page :: "page_doc \<Rightarrow> page_doc" where
  "stored_page d = d\<lparr>pd_created_at := bson_datetime (pd_created_at d)\<rparr>"

definition stored_extraction :: "extraction_doc \<Rightarrow> extraction_doc" where
  "stored_extraction d = d\<lparr>ed_created_at := bson_datetime (ed_created_at d)\<rparr>"

section \<open>Fields as dictionaries\<close>

text \<open>\<open>field.model_dump()\<close>, and \<open>ExtractedField(**field)\<close> on such a dictionary.\<close>

definition json_opt_int :: "int option \<Rightarrow> json" where
  "json_opt_int x = (case x of None \<Rightarrow> JNull | Some n \<Rightarrow> JInt n)"

definition dump_field :: "extracted_field \<Rightarrow> json_dict" where
  "dump_field f =
     [(''key'', JStr (ef_key f)), (''value'', ef_value f), (''confidence'', JFloat (ef_confidence f)),
      (''page'', json_opt_int (ef_page f)), (''evidence'', json_opt_str (ef_evidence f)),
      (''valid'', JBool (ef_valid f)), (''validation_errors'', JArr (map JStr (ef_validation_errors f)))]"

fun load_opt_int :: "json \<Rightarrow> int option option" where
  "load_opt_int JNull = Some None"
| "load_opt_int (JInt n) = Some (Some n)"
| "load_opt_int _ = None"

fun load_opt_str :: "json \<Rightarrow> string option option" where
  "load_opt_str JNull = Some None"
| "load_opt_str (JStr s) = Some (Some s)"
| "load_opt_str _ = None"

fun load_strs :: "json list \<Rightarrow> string list option" where
  "load_strs [] = Some []"
| "load_strs (JStr s # xs) = map_option ((#) s) (load_strs xs)"
| "load_strs (_ # xs) = None"

fun load_number :: "json \<Rightarrow> rat option" where
  "load_number (JFloat x) = Some x"
| "load_number (JInt n) = Some (of_int n)"
| "load_number _ = None"

definition field_members :: "string list" where
  "field_members = [''key'', ''value'', ''confidence'', ''page'', ''evidence'', ''valid'', ''validation_errors'']"

text \<open>A member of the dictionary, or its default.\<close>

definition member_or :: "json_dict \<Rightarrow> string \<Rightarrow> json \<Rightarrow> json" where
  "member_or d k dflt = (case map_of d k of None \<Rightarrow> dflt | Some v \<Rightarrow> v)"

definition load_field :: "json_dict \<Rightarrow> extracted_field option" where
  "load_field d =
     (case (map_of d ''key'', Option.bind (map_of d ''confidence'') load_number,
            load_opt_int (member_or d ''page'' JNull), load_opt_str (member_or d ''evidence'' JNull),
            member_or d ''valid'' (JBool True), member_or d ''validation_errors'' (JArr [])) of
        (Some (JStr key), Some c, Some page, Some evidence, JBool valid, JArr xs) \<Rightarrow>
          (case load_strs xs of
             None \<Rightarrow> None
           | Some errors \<Rightarrow>
               (let f = \<lparr>ef_key = key, ef_value = member_or d ''value'' JNull, ef_confidence = c,
                         ef_page = page, ef_evidence = evidence, ef_valid = valid,
                         ef_validation_errors = errors\<rparr>
                in if list_all (\<lambda>kv. fst kv \<in> set field_members) d \<and> extracted_field_valid f
                   then Some f else None))
      | _ \<Rightarrow> None)"

fun load_fields :: "json_dict list \<Rightarrow> extracted_field list option" where
  "load_fields [] = Some []"
| "load_fields (d # ds) =
     (case load_field d of None \<Rightarrow> None | Some f \<Rightarrow> map_option ((#) f) (load_fields ds))"

text \<open>
  \<open>UUID(s)\<close> on the canonical text the store writes, hyphens aside; \<open>None\<close> is the ValueError.
\<close>

definition uuid_of_str :: "string \<Rightarrow> uuid option" where
  "uuid_of_str s =
     (let h = unhyphen s
      in if length s = 36 \<and> length h = 32 \<and> list_all (\<lambda>c. char_digit c < 16) h
         then Some (of_nat (undigits 16 (map char_digit h))) else None)"

text \<open>\<open>PageText(..)\<close> of a stored page; \<open>None\<close> is the ValidationError.\<close>

definition page_of_doc :: "page_doc \<Rightarrow> page_text option" where
  "page_of_doc d =
     (let p = \<lparr>pt_page = pd_page d, pt_text = pd_text d, pt_source = pd_source d,
               pt_confidence = pd_confidence d, pt_char_count = pd_char_count d\<rparr>
      in if page_text_valid p then Some p else None)"

text \<open>\<open>_record_from_doc\<close>.\<close>

definition record_from_doc :: "extraction_doc \<Rightarrow> extraction_record option" where
  "record_from_doc d =
     (case (uuid_of_str (ed_document_id d), uuid_of_str (ed_tag_id d), load_fields (ed_fields d)) of
        (Some document_id, Some tag_id, Some fs) \<Rightarrow>
          (let r = \<lparr>er_document_id = document_id, er_version = ed_version d, er_tag_id = tag_id,
                    er_tag_version = ed_tag_version d, er_source = ed_source d, er_model = ed_model d,
                    er_prompt_hash = ed_prompt_hash d, er_fields = fs,
                    er_document_confidence = ed_document_confidence d,
                    er_created_at = ed_created_at d, er_created_by = ed_created_by d\<rparr>
           in if extraction_record_valid r then Some r else None)
      | _ \<Rightarrow> None)"

definition doc_of_record :: "extraction_record \<Rightarrow> extraction_doc" where
  "doc_of_record r =
     \<lparr>ed_document_id = str_uuid (er_document_id r), ed_version = er_version r,
      ed_tag_id = str_uuid (er_tag_id r), ed_tag_version = er_tag_version r, ed_source = er_source r,
      ed_model = er_model r, ed_prompt_hash = er_prompt_hash r, ed_fields = map dump_field (er_fields r),
      ed_document_confidence = er_document_confidence r, ed_created_at = er_created_at r,
      ed_created_by = er_created_by r\<rparr>"

lemma load_strs_map [simp]: "load_strs (map JStr xs) = Some xs"
  by (induction xs) auto

lemma load_json_opt [simp]:
  "load_opt_int (json_opt_int x) = Some x" "load_opt_str (json_opt_str y) = Some y"
  by (cases x; simp add: json_opt_int_def) (cases y; simp add: json_opt_str_def)

lemma load_dump_field: "extracted_field_valid f \<Longrightarrow> load_field (dump_field f) = Some f"
  by (simp add: load_field_def dump_field_def member_or_def field_members_def Let_def
      extracted_field_valid_def)

lemma load_dump_fields: "list_all extracted_field_valid fs \<Longrightarrow> load_fields (map dump_field fs) = Some fs"
  by (induction fs) (simp_all add: load_dump_field)

lemma uuid_of_str_uuid [simp]: "uuid_of_str (str_uuid u) = Some u"
proof -
  have ds: "\<forall>d \<in> set (digits 16 32 (unat u)). d < 16" using digits_less [of 16] by auto
  then have "list_all (\<lambda>c. char_digit c < 16) (uuid_hex u)"
    by (auto simp: uuid_hex_def list_all_iff char_digit_char)
  moreover have "undigits 16 (map char_digit (uuid_hex u)) = unat u"
    unfolding map_char_uuid_hex using unsigned_less [of u, where ?'a = nat] by (simp add: undigits_digits)
  ultimately show ?thesis by (simp add: uuid_of_str_def Let_def unhyphen_str_uuid)
qed

text \<open>A record survives the store but for the microseconds of its creation time.\<close>

lemma record_of_stored:
  assumes "extraction_record_valid r"
  shows "record_from_doc (stored_extraction (doc_of_record r)) =
    Some (r\<lparr>er_created_at := bson_datetime (er_created_at r)\<rparr>)"
  using assms
  by (simp add: record_from_doc_def stored_extraction_def doc_of_record_def Let_def load_dump_fields
      extraction_record_valid_def)

section \<open>The driver\<close>

text \<open>
  \<open>ReplaceOne k d\<close> is \<open>replace_one\<close> with \<open>upsert=True\<close> on the fields of the unique index;
  \<open>FindOne p f\<close> sorts by \<open>f\<close> descending; \<open>Find p f desc\<close> sorts by \<open>f\<close>.
\<close>

datatype ('k, 'd) mongo_cmd =
    ReplaceOne 'k 'd
  | InsertOne 'd
  | FindOne "'d \<Rightarrow> bool" "'d \<Rightarrow> int"
  | Find "'d \<Rightarrow> bool" "'d \<Rightarrow> int" bool
  | DeleteMany "'d \<Rightarrow> bool"

datatype 'd mongo_reply = MDone | MInserted string | MDocs "'d list"

type_synonym ('s, 'k, 'd) mongo = "('k, 'd) mongo_cmd \<Rightarrow> 's \<Rightarrow> (py_exn + 'd mongo_reply) \<times> 's"

section \<open>The store\<close>

definition content_error :: "string \<Rightarrow> py_exn \<Rightarrow> ipa_error" where
  "content_error operation exc =
     make_error IpaError (Some (''MongoDB '' @ operation @ '' failed: '' @ exn_str exc))
       (Some ''content_store_error'') None None"

definition wrapping_content :: "string \<Rightarrow> ('s \<Rightarrow> (py_exn + 'a) \<times> 's) \<Rightarrow> 's \<Rightarrow> (py_exn + 'a) \<times> 's" where
  "wrapping_content operation m = catchE m (\<lambda>e. raiseE (IpaExn (content_error operation e)))"

definition RAW_RESPONSE_TTL_S :: int where
  "RAW_RESPONSE_TTL_S = 30 * 24 * 60 * 60"

definition UPSERT_BATCH_SIZE :: nat where
  "UPSERT_BATCH_SIZE = 50"

text \<open>The indexes: collection, keys, uniqueness, TTL in seconds and name.\<close>

record index_spec =
  ix_collection :: string
  ix_keys :: "string list"
  ix_unique :: bool
  ix_ttl :: "int option"
  ix_name :: string

definition content_indexes :: "index_spec list" where
  "content_indexes =
     [\<lparr>ix_collection = ''pages'', ix_keys = [''document_id'', ''page''], ix_unique = True, ix_ttl = None,
       ix_name = ''uniq_document_page''\<rparr>,
      \<lparr>ix_collection = ''extractions'', ix_keys = [''document_id'', ''version''], ix_unique = True,
       ix_ttl = None, ix_name = ''uniq_document_version''\<rparr>,
      \<lparr>ix_collection = ''extractions'', ix_keys = [''document_id''], ix_unique = False, ix_ttl = None,
       ix_name = ''idx_document_id''\<rparr>,
      \<lparr>ix_collection = ''raw_responses'', ix_keys = [''document_id'', ''step''], ix_unique = False,
       ix_ttl = None, ix_name = ''idx_document_step''\<rparr>,
      \<lparr>ix_collection = ''raw_responses'', ix_keys = [''created_at''], ix_unique = False,
       ix_ttl = Some RAW_RESPONSE_TTL_S, ix_name = ''ttl_30d''\<rparr>]"

fun run_all :: "('s \<Rightarrow> (py_exn + unit) \<times> 's) list \<Rightarrow> 's \<Rightarrow> (py_exn + unit) \<times> 's" where
  "run_all [] = retE ()"
| "run_all (m # ms) = seqE m (\<lambda>_. run_all ms)"

definition ensure_indexes :: "(index_spec \<Rightarrow> 's \<Rightarrow> (py_exn + unit) \<times> 's) \<Rightarrow> 's \<Rightarrow> (py_exn + unit) \<times> 's" where
  "ensure_indexes create_index =
     wrapping_content ''ensure_indexes'' (run_all (map create_index content_indexes))"

text \<open>\<open>asyncio.gather\<close>: every coroutine runs; the result is the first exception, if any.\<close>

fun gather :: "('s \<Rightarrow> (py_exn + unit) \<times> 's) list \<Rightarrow> 's \<Rightarrow> (py_exn + unit) \<times> 's" where
  "gather [] s = (Inr (), s)"
| "gather (m # ms) s =
     (case m s of (r, s1) \<Rightarrow>
        (case gather ms s1 of (rs, s2) \<Rightarrow> (case r of Inl e \<Rightarrow> Inl e | Inr _ \<Rightarrow> rs, s2)))"

text \<open>The slices \<open>pages[start : start + n]\<close> for \<open>start\<close> in \<open>range(0, len(pages), n)\<close>.\<close>

function batches :: "nat \<Rightarrow> 'a list \<Rightarrow> 'a list list" where
  "batches n xs = (if n = 0 \<or> xs = [] then [] else take n xs # batches n (drop n xs))"
  by pat_completeness auto
termination
  by (relation "measure (\<lambda>(n, xs). length xs)") auto

declare batches.simps [simp del]

definition page_document :: "timestamp \<Rightarrow> string \<Rightarrow> page_text \<Rightarrow> page_doc" where
  "page_document now document p =
     \<lparr>pd_document_id = document, pd_page = pt_page p, pd_text = pt_text p, pd_source = pt_source p,
      pd_confidence = pt_confidence p, pd_char_count = pt_char_count p, pd_created_at = now\<rparr>"

definition upsert_page ::
  "('s, string \<times> int, page_doc) mongo \<Rightarrow> timestamp \<Rightarrow> string \<Rightarrow> page_text \<Rightarrow> 's \<Rightarrow> (py_exn + unit) \<times> 's" where
  "upsert_page pages now document p =
     seqE (pages (ReplaceOne (document, pt_page p) (page_document now document p))) (\<lambda>_. retE ())"

text \<open>\<open>schedule\<close> is the order in which the event loop runs the coroutines of a batch.\<close>

definition put_pages ::
  "('s, string \<times> int, page_doc) mongo \<Rightarrow> (page_text list \<Rightarrow> page_text list) \<Rightarrow> timestamp \<Rightarrow> uuid
     \<Rightarrow> page_text list \<Rightarrow> 's \<Rightarrow> (py_exn + unit) \<times> 's" where
  "put_pages pages schedule now document_id ps =
     (if ps = [] then retE ()
      else wrapping_content ''put_pages''
        (run_all (map (\<lambda>batch. gather (map (upsert_page pages now (str_uuid document_id)) (schedule batch)))
           (batches UPSERT_BATCH_SIZE ps))))"

text \<open>The DTOs of a cursor's documents; one that does not validate raises.\<close>

fun collect :: "('d \<Rightarrow> 'a option) \<Rightarrow> 'd list \<Rightarrow> 'a list option" where
  "collect f [] = Some []"
| "collect f (d # ds) = (case f d of None \<Rightarrow> None | Some x \<Rightarrow> map_option ((#) x) (collect f ds))"

definition invalid_document :: py_exn where
  "invalid_document = ValueError ''validation error''"

definition load_docs :: "('d \<Rightarrow> 'a option) \<Rightarrow> 'd mongo_reply \<Rightarrow> 's \<Rightarrow> (py_exn + 'a list) \<times> 's" where
  "load_docs f reply =
     (case reply of
        MDocs ds \<Rightarrow> (case collect f ds of None \<Rightarrow> raiseE invalid_document | Some xs \<Rightarrow> retE xs)
      | _ \<Rightarrow> raiseE invalid_document)"

definition get_pages ::
  "('s, string \<times> int, page_doc) mongo \<Rightarrow> uuid \<Rightarrow> 's \<Rightarrow> (py_exn + page_text list) \<times> 's" where
  "get_pages pages document_id =
     wrapping_content ''get_pages''
       (seqE (pages (Find (\<lambda>d. pd_document_id d = str_uuid document_id) pd_page False)) (load_docs page_of_doc))"

definition version_exists :: "extraction_record \<Rightarrow> ipa_error" where
  "version_exists r =
     raise_error ConflictError
       (''Extraction version '' @ str_int (er_version r) @ '' already exists for document ''
        @ str_uuid (er_document_id r) @ ''.'')"

text \<open>
  \<open>put_extraction\<close> in its two steps: the check, and the insert that another writer can precede.
\<close>

fun extraction_fault :: "extraction_record \<Rightarrow> py_exn \<Rightarrow> ipa_error" where
  "extraction_fault r (DuplicateKeyError m) = version_exists r"
| "extraction_fault r (IpaExn x) =
     (if err_class x = ConflictError then x else content_error ''put_extraction'' (IpaExn x))"
| "extraction_fault r e = content_error ''put_extraction'' e"

definition version_free ::
  "('s, string \<times> int, extraction_doc) mongo \<Rightarrow> extraction_record \<Rightarrow> 's \<Rightarrow> (py_exn + unit) \<times> 's" where
  "version_free extractions r =
     catchE (seqE (extractions (FindOne (\<lambda>d. ed_document_id d = str_uuid (er_document_id r)
                                           \<and> ed_version d = er_version r) ed_version))
               (\<lambda>existing. if existing = MDocs [] then retE () else raiseE (IpaExn (version_exists r))))
       (\<lambda>e. raiseE (IpaExn (extraction_fault r e)))"

definition insert_extraction ::
  "('s, string \<times> int, extraction_doc) mongo \<Rightarrow> extraction_record \<Rightarrow> 's \<Rightarrow> (py_exn + string) \<times> 's" where
  "insert_extraction extractions r =
     catchE (seqE (extractions (InsertOne (doc_of_record r)))
               (\<lambda>reply. case reply of MInserted i \<Rightarrow> retE i | _ \<Rightarrow> raiseE invalid_document))
       (\<lambda>e. raiseE (IpaExn (extraction_fault r e)))"

definition put_extraction ::
  "('s, string \<times> int, extraction_doc) mongo \<Rightarrow> extraction_record \<Rightarrow> 's \<Rightarrow> (py_exn + string) \<times> 's" where
  "put_extraction extractions r = seqE (version_free extractions r) (\<lambda>_. insert_extraction extractions r)"

definition get_extraction ::
  "('s, string \<times> int, extraction_doc) mongo \<Rightarrow> uuid \<Rightarrow> int option
     \<Rightarrow> 's \<Rightarrow> (py_exn + extraction_record option) \<times> 's" where
  "get_extraction extractions document_id version =
     wrapping_content ''get_extraction''
       (seqE (extractions (FindOne (\<lambda>d. ed_document_id d = str_uuid document_id
                 \<and> (case version of None \<Rightarrow> True | Some v \<Rightarrow> ed_version d = v)) ed_version))
         (\<lambda>reply. if reply = MDocs [] then retE None
                   else seqE (load_docs record_from_doc reply) (\<lambda>rs. retE (Some (hd rs)))))"

definition list_extractions ::
  "('s, string \<times> int, extraction_doc) mongo \<Rightarrow> uuid \<Rightarrow> 's \<Rightarrow> (py_exn + extraction_record list) \<times> 's" where
  "list_extractions extractions document_id =
     wrapping_content ''list_extractions''
       (seqE (extractions (Find (\<lambda>d. ed_document_id d = str_uuid document_id) ed_version True))
         (load_docs record_from_doc))"

definition put_raw_response ::
  "('s, 'k, raw_doc) mongo \<Rightarrow> timestamp \<Rightarrow> uuid \<Rightarrow> string \<Rightarrow> string \<Rightarrow> string \<Rightarrow> string option
     \<Rightarrow> 's \<Rightarrow> (py_exn + unit) \<times> 's" where
  "put_raw_response raw now document_id step model response_text request_summary =
     wrapping_content ''put_raw_response''
       (seqE (raw (InsertOne
          \<lparr>rd_document_id = str_uuid document_id, rd_step = step, rd_model = model,
           rd_request_summary = request_summary, rd_response_text = response_text, rd_created_at = now\<rparr>))
        (\<lambda>_. retE ()))"

text \<open>The three deletions, on the states of the three collections.\<close>

definition delete_document ::
  "('p, string \<times> int, page_doc) mongo \<Rightarrow> ('e, string \<times> int, extraction_doc) mongo
     \<Rightarrow> ('w, 'k, raw_doc) mongo \<Rightarrow> uuid \<Rightarrow> 'p \<times> 'e \<times> 'w \<Rightarrow> (py_exn + unit) \<times> ('p \<times> 'e \<times> 'w)" where
  "delete_document pages extractions raw document_id =
     (let document = str_uuid document_id
      in wrapping_content ''delete_document''
        (seqE (\<lambda>(p, e, w). case pages (DeleteMany (\<lambda>d. pd_document_id d = document)) p of
                 (r, p') \<Rightarrow> (map_sum id (\<lambda>_. ()) r, (p', e, w))) (\<lambda>_.
         seqE (\<lambda>(p, e, w). case extractions (DeleteMany (\<lambda>d. ed_document_id d = document)) e of
                 (r, e') \<Rightarrow> (map_sum id (\<lambda>_. ()) r, (p, e', w))) (\<lambda>_.
           (\<lambda>(p, e, w). case raw (DeleteMany (\<lambda>d. rd_document_id d = document)) w of
                 (r, w') \<Rightarrow> (map_sum id (\<lambda>_. ()) r, (p, e, w')))))))"

section \<open>What the driver promises\<close>

definition by_sort :: "('d \<Rightarrow> int) \<Rightarrow> bool \<Rightarrow> 'd \<Rightarrow> 'd \<Rightarrow> bool" where
  "by_sort f desc a b \<longleftrightarrow> (if desc then f b \<le> f a else f a \<le> f b)"

definition without :: "('d \<Rightarrow> bool) \<Rightarrow> ('k \<Rightarrow> 'd option) \<Rightarrow> 'k \<Rightarrow> 'd option" where
  "without p m k = (case m k of Some d \<Rightarrow> if p d then None else Some d | None \<Rightarrow> None)"

text \<open>Reads and deletions, on any collection: \<open>contents\<close> maps a document's identity to it.\<close>

locale mongo_reads =
  fixes run :: "('s, 'k, 'd) mongo" and contents :: "'s \<Rightarrow> 'k \<Rightarrow> 'd option"
  assumes driver_error: "run c s = (Inl e, s') \<Longrightarrow> e \<noteq> IpaExn x"
    and find_one: "run (FindOne p f) s = (r, s') \<Longrightarrow> contents s' = contents s
      \<and> (case r of Inl e \<Rightarrow> True | Inr reply \<Rightarrow>
           reply = MDocs [] \<and> (\<forall>d \<in> ran (contents s). \<not> p d)
           \<or> (\<exists>d. reply = MDocs [d] \<and> d \<in> ran (contents s) \<and> p d \<and> (\<forall>d' \<in> ran (contents s). p d' \<longrightarrow> f d' \<le> f d)))"
    and find_docs: "run (Find p f desc) s = (r, s') \<Longrightarrow> contents s' = contents s
      \<and> (case r of Inl e \<Rightarrow> True | Inr reply \<Rightarrow>
           (\<exists>ds. reply = MDocs ds \<and> distinct ds \<and> set ds = {d \<in> ran (contents s). p d}
              \<and> sorted_wrt (by_sort f desc) ds))"
    and delete_many: "run (DeleteMany p) s = (r, s') \<Longrightarrow>
      (case r of
         Inr reply \<Rightarrow> contents s' = without p (contents s)
       | Inl e \<Rightarrow> (\<forall>k. contents s' k \<in> {contents s k, without p (contents s) k}))"

text \<open>A collection with a unique index.\<close>

locale mongo_collection = mongo_reads run contents
  for run :: "('s, 'k, 'd) mongo" and contents :: "'s \<Rightarrow> 'k \<Rightarrow> 'd option" +
  fixes key :: "'d \<Rightarrow> 'k" and stored :: "'d \<Rightarrow> 'd"
  assumes keyed: "contents s k = Some d \<Longrightarrow> key d = k"
    and replace_one: "run (ReplaceOne (key d) d) s = (r, s') \<Longrightarrow>
      contents s' = (contents s)(key d \<mapsto> stored d) \<or> (\<exists>e. r = Inl e) \<and> contents s' = contents s"
    and insert_one: "run (InsertOne d) s = (r, s') \<Longrightarrow>
      (case r of
         Inr reply \<Rightarrow> (\<exists>i. reply = MInserted i) \<and> contents s (key d) = None
           \<and> contents s' = (contents s)(key d \<mapsto> stored d)
       | Inl e \<Rightarrow> (contents s' = contents s
             \<or> contents s (key d) = None \<and> contents s' = (contents s)(key d \<mapsto> stored d))
           \<and> ((\<exists>m. e = DuplicateKeyError m) \<longrightarrow> contents s (key d) \<noteq> None))"
    and insert_duplicate: "contents s (key d) \<noteq> None \<Longrightarrow> run (InsertOne d) s = (r, s') \<Longrightarrow>
      \<exists>e. r = Inl e \<and> contents s' = contents s"

lemma by_sort_simps: "by_sort f True = (\<lambda>a b. f b \<le> f a)" "by_sort f False = (\<lambda>a b. f a \<le> f b)"
  by (simp_all add: by_sort_def fun_eq_iff)

section \<open>A server\<close>

text \<open>The documents, the visible ones first by key, and the calls that lose their connection.\<close>

type_synonym 'd mongod_state = "bool list \<times> 'd list"

definition visible :: "('d \<Rightarrow> 'k) \<Rightarrow> 'd list \<Rightarrow> 'd list" where
  "visible key ds = filter (\<lambda>d. map_of (map (\<lambda>d. (key d, d)) ds) (key d) = Some d) (remdups ds)"

definition docs_map :: "('d \<Rightarrow> 'k) \<Rightarrow> 'd mongod_state \<Rightarrow> 'k \<Rightarrow> 'd option" where
  "docs_map key st = map_of (map (\<lambda>d. (key d, d)) (snd st))"

fun mongod_call :: "('d \<Rightarrow> 'k) \<Rightarrow> ('d \<Rightarrow> 'd) \<Rightarrow> ('k, 'd) mongo_cmd \<Rightarrow> 'd list \<Rightarrow> (py_exn + 'd mongo_reply) \<times> 'd list"
where
  "mongod_call key stored (ReplaceOne k d) ds = (Inr MDone, stored d # filter (\<lambda>x. key x \<noteq> k) ds)"
| "mongod_call key stored (InsertOne d) ds =
     (if list_ex (\<lambda>x. key x = key d) ds then (Inl (DuplicateKeyError ''E11000 duplicate key error''), ds)
      else (Inr (MInserted ''oid''), stored d # ds))"
| "mongod_call key stored (FindOne p f) ds =
     (Inr (MDocs (take 1 (rev (sort_key f (filter p (visible key ds)))))), ds)"
| "mongod_call key stored (Find p f desc) ds =
     (Inr (MDocs (let xs = sort_key f (filter p (visible key ds)) in if desc then rev xs else xs)), ds)"
| "mongod_call key stored (DeleteMany p) ds = (Inr MDone, filter (\<lambda>d. \<not> p d) (visible key ds))"

definition mongod :: "('d \<Rightarrow> 'k) \<Rightarrow> ('d \<Rightarrow> 'd) \<Rightarrow> ('d mongod_state, 'k, 'd) mongo" where
  "mongod key stored c st =
     (case st of (plan, ds) \<Rightarrow>
        if plan \<noteq> [] \<and> \<not> hd plan then (Inl (OtherException ''AutoReconnect'' ''connection closed''), (tl plan, ds))
        else (case mongod_call key stored c ds of (r, ds') \<Rightarrow> (r, (tl plan, ds'))))"

lemma map_of_key_mem: "map_of (map (\<lambda>d. (key d, d)) ds) k = Some d \<Longrightarrow> d \<in> set ds \<and> key d = k"
  by (auto dest!: map_of_SomeD)

lemma visible_ran: "set (visible key ds) = ran (map_of (map (\<lambda>d. (key d, d)) ds))"
  by (auto simp: visible_def ran_def dest: map_of_key_mem)

lemma visible_mem: "d \<in> set (visible key ds) \<longleftrightarrow> map_of (map (\<lambda>d. (key d, d)) ds) (key d) = Some d"
  by (auto simp: visible_def dest: map_of_key_mem)

lemma distinct_visible [simp]: "distinct (visible key ds)"
  by (simp add: visible_def)

lemma map_of_filter_visible:
  "map_of (map (\<lambda>d. (key d, d)) (filter p (visible key ds))) k =
    (case map_of (map (\<lambda>d. (key d, d)) ds) k of Some d \<Rightarrow> if p d then Some d else None | None \<Rightarrow> None)"
proof -
  let ?m = "map_of (map (\<lambda>d. (key d, d)) ds)"
  have inj: "inj_on key (set (filter p (visible key ds)))"
  proof (rule inj_onI)
    fix a b assume "a \<in> set (filter p (visible key ds))" "b \<in> set (filter p (visible key ds))" "key a = key b"
    then have "Some a = Some b" using visible_mem [of a key ds] visible_mem [of b key ds] by simp
    then show "a = b" by simp
  qed
  then have d: "distinct (map fst (map (\<lambda>d. (key d, d)) (filter p (visible key ds))))"
    by (simp add: comp_def distinct_map)
  have "(k, d) \<in> set (map (\<lambda>d. (key d, d)) (filter p (visible key ds))) \<longleftrightarrow>
      d \<in> set (visible key ds) \<and> key d = k \<and> p d" for d
    by auto
  also have "d \<in> set (visible key ds) \<and> key d = k \<and> p d \<longleftrightarrow> ?m k = Some d \<and> p d" for d
    using map_of_key_mem [of key ds k d] by (auto simp: visible_mem)
  finally have "(k, d) \<in> set (map (\<lambda>d. (key d, d)) (filter p (visible key ds))) \<longleftrightarrow> ?m k = Some d \<and> p d" for d .
  then have n: "map_of (map (\<lambda>d. (key d, d)) (filter p (visible key ds))) k = Some d \<longleftrightarrow> ?m k = Some d \<and> p d" for d
    unfolding map_of_eq_Some_iff [OF d] .
  show ?thesis
  proof (cases "map_of (map (\<lambda>d. (key d, d)) (filter p (visible key ds))) k")
    case None
    with n show ?thesis by (cases "?m k") force+
  next
    case (Some d)
    with n [of d] show ?thesis by simp
  qed
qed

lemma map_of_other_keys:
  "map_of (map (\<lambda>d. (key d, d)) (filter (\<lambda>x. key x \<noteq> k) ds)) = (map_of (map (\<lambda>d. (key d, d)) ds))(k := None)"
  by (induction ds) (auto simp: fun_eq_iff)

lemma mongod_cases:
  obtains (called) "mongod key stored c (plan, ds) =
      (case mongod_call key stored c ds of (r, ds') \<Rightarrow> (r, (tl plan, ds')))"
  | (lost) e where "mongod key stored c (plan, ds) = (Inl e, (tl plan, ds))" "\<And>x. e \<noteq> IpaExn x"
      "\<And>m. e \<noteq> DuplicateKeyError m"
  by (cases "plan \<noteq> [] \<and> \<not> hd plan") (auto simp: mongod_def)

lemma mongod_find_one:
  assumes run: "mongod key stored (FindOne p f) s = (r, s')"
  shows "docs_map key s' = docs_map key s
    \<and> (case r of Inl e \<Rightarrow> True | Inr reply \<Rightarrow>
         reply = MDocs [] \<and> (\<forall>d \<in> ran (docs_map key s). \<not> p d)
         \<or> (\<exists>d. reply = MDocs [d] \<and> d \<in> ran (docs_map key s) \<and> p d
              \<and> (\<forall>d' \<in> ran (docs_map key s). p d' \<longrightarrow> f d' \<le> f d)))"
proof -
  obtain plan ds where s: "s = (plan, ds)" by (cases s)
  let ?xs = "sort_key f (filter p (visible key ds))"
  have mem: "set ?xs = {d \<in> ran (docs_map key s). p d}"
    by (auto simp: docs_map_def s visible_ran)
  have srt: "sorted_wrt (\<lambda>a b. f b \<le> f a) (rev ?xs)"
    by (simp add: sorted_wrt_rev sorted_wrt_sort_key)
  show ?thesis
  proof (cases rule: mongod_cases [of key stored "FindOne p f" plan ds])
    case called
    then have r: "r = Inr (MDocs (take 1 (rev ?xs)))" "s' = (tl plan, ds)" using run s by auto
    show ?thesis
    proof (cases "rev ?xs")
      case Nil
      then have "set ?xs = {}" by simp
      with Nil r mem s show ?thesis by (auto simp: docs_map_def)
    next
      case (Cons d tl)
      then have "set ?xs = insert d (set tl)" by (metis list.simps(15) set_rev)
      then have "d \<in> ran (docs_map key s)" "p d" "\<forall>d' \<in> ran (docs_map key s). p d' \<longrightarrow> f d' \<le> f d"
        using mem srt Cons by auto
      with Cons r s show ?thesis by (auto simp: docs_map_def)
    qed
  qed (use run s in \<open>auto simp: docs_map_def\<close>)
qed

lemma mongod_reads: "mongo_reads (mongod key stored) (docs_map key)"
proof
  show "e \<noteq> IpaExn x" if "mongod key stored c s = (Inl e, s')" for c s e s' x
    using that by (cases c) (auto simp: mongod_def split: prod.splits if_splits)
  show "docs_map key s' = docs_map key s
      \<and> (case r of Inl e \<Rightarrow> True | Inr reply \<Rightarrow>
           reply = MDocs [] \<and> (\<forall>d \<in> ran (docs_map key s). \<not> p d)
           \<or> (\<exists>d. reply = MDocs [d] \<and> d \<in> ran (docs_map key s) \<and> p d
                \<and> (\<forall>d' \<in> ran (docs_map key s). p d' \<longrightarrow> f d' \<le> f d)))"
    if run: "mongod key stored (FindOne p f) s = (r, s')" for p f s r s'
    using run by (rule mongod_find_one)
  show "docs_map key s' = docs_map key s
      \<and> (case r of Inl e \<Rightarrow> True | Inr reply \<Rightarrow>
           (\<exists>ds. reply = MDocs ds \<and> distinct ds \<and> set ds = {d \<in> ran (docs_map key s). p d}
              \<and> sorted_wrt (by_sort f desc) ds))"
    if run: "mongod key stored (Find p f desc) s = (r, s')" for p f desc s r s'
  proof -
    obtain plan ds where s: "s = (plan, ds)" by (cases s)
    show ?thesis
      by (rule mongod_cases [of key stored "Find p f desc" plan ds])
        (use run s in \<open>(cases desc; auto simp: docs_map_def visible_ran by_sort_simps sorted_wrt_rev
            sorted_wrt_sort_key Let_def)+\<close>)
  qed
  show "case r of Inr reply \<Rightarrow> docs_map key s' = without p (docs_map key s)
       | Inl e \<Rightarrow> (\<forall>k. docs_map key s' k \<in> {docs_map key s k, without p (docs_map key s) k})"
    if run: "mongod key stored (DeleteMany p) s = (r, s')" for p s r s'
  proof -
    obtain plan ds where s: "s = (plan, ds)" by (cases s)
    show ?thesis
      by (rule mongod_cases [of key stored "DeleteMany p" plan ds])
        (use run s in \<open>auto simp: docs_map_def without_def fun_eq_iff map_of_filter_visible split: option.splits\<close>)
  qed
qed

lemma mongod_collection:
  assumes "\<And>d. key (stored d) = key d"
  shows "mongo_collection (mongod key stored) (docs_map key) key stored"
proof (intro mongo_collection.intro mongod_reads mongo_collection_axioms.intro)
  show "key d = k" if "docs_map key s k = Some d" for s k d
    using that map_of_key_mem by (fastforce simp: docs_map_def)
  show "docs_map key s' = (docs_map key s)(key d \<mapsto> stored d) \<or> (\<exists>e. r = Inl e) \<and> docs_map key s' = docs_map key s"
    if run: "mongod key stored (ReplaceOne (key d) d) s = (r, s')" for d s r s'
  proof -
    obtain plan ds where s: "s = (plan, ds)" by (cases s)
    show ?thesis
      by (rule mongod_cases [of key stored "ReplaceOne (key d) d" plan ds])
        (use run s in \<open>auto simp: docs_map_def map_of_other_keys assms\<close>)
  qed
  have free: "docs_map key (plan, ds) (key d) = None \<longleftrightarrow> \<not> list_ex (\<lambda>x. key x = key d) ds" for plan ds d
    by (auto simp: docs_map_def map_of_eq_None_iff list_ex_iff image_iff)
  show "case r of
         Inr reply \<Rightarrow> (\<exists>i. reply = MInserted i) \<and> docs_map key s (key d) = None
           \<and> docs_map key s' = (docs_map key s)(key d \<mapsto> stored d)
       | Inl e \<Rightarrow> (docs_map key s' = docs_map key s
             \<or> docs_map key s (key d) = None \<and> docs_map key s' = (docs_map key s)(key d \<mapsto> stored d))
           \<and> ((\<exists>m. e = DuplicateKeyError m) \<longrightarrow> docs_map key s (key d) \<noteq> None)"
    if run: "mongod key stored (InsertOne d) s = (r, s')" for d s r s'
  proof -
    obtain plan ds where s: "s = (plan, ds)" by (cases s)
    show ?thesis
      by (rule mongod_cases [of key stored "InsertOne d" plan ds])
        (use run s free [of plan ds d] in \<open>auto simp: docs_map_def assms split: if_splits\<close>)
  qed
  show "\<exists>e. r = Inl e \<and> docs_map key s' = docs_map key s"
    if "docs_map key s (key d) \<noteq> None" and run: "mongod key stored (InsertOne d) s = (r, s')" for d s r s'
  proof -
    obtain plan ds where s: "s = (plan, ds)" by (cases s)
    show ?thesis
      by (rule mongod_cases [of key stored "InsertOne d" plan ds])
        (use run s that(1) free [of plan ds d] in \<open>auto simp: docs_map_def split: if_splits\<close>)
  qed
qed

interpretation pages_collection: mongo_collection "mongod page_key_of stored_page" "docs_map page_key_of" page_key_of stored_page
  by (rule mongod_collection) (simp add: page_key_of_def stored_page_def)

interpretation extractions_collection: mongo_collection "mongod extraction_key_of stored_extraction"
  "docs_map extraction_key_of" extraction_key_of stored_extraction
  by (rule mongod_collection) (simp add: extraction_key_of_def stored_extraction_def)

text \<open>Raw responses have no unique index; the reads and deletions do not need one.\<close>

interpretation raw_collection: mongo_reads "mongod (\<lambda>d :: raw_doc. d) (\<lambda>d. d)" "docs_map (\<lambda>d. d)"
  by (rule mongod_reads)

section \<open>Writing pages\<close>

text \<open>The page documents of a list of pages, one after the other.\<close>

definition page_writes :: "timestamp \<Rightarrow> string \<Rightarrow> page_text list \<Rightarrow> (string \<times> int \<Rightarrow> page_doc option)
    \<Rightarrow> string \<times> int \<Rightarrow> page_doc option" where
  "page_writes now document ps m =
     fold (\<lambda>p m. m((document, pt_page p) \<mapsto> stored_page (page_document now document p))) ps m"

lemma page_writes_append [simp]:
  "page_writes now doc (ps @ qs) m = page_writes now doc qs (page_writes now doc ps m)"
  by (simp add: page_writes_def)

lemma page_writes_Nil [simp]: "page_writes now doc [] m = m"
  by (simp add: page_writes_def)

lemma page_writes_other: "k \<notin> (\<lambda>p. (doc, pt_page p)) ` set ps \<Longrightarrow> page_writes now doc ps m k = m k"
  by (induction ps arbitrary: m) (auto simp: page_writes_def)

lemma page_writes_page:
  "distinct (map pt_page ps) \<Longrightarrow> p \<in> set ps \<Longrightarrow>
    page_writes now doc ps m (doc, pt_page p) = Some (stored_page (page_document now doc p))"
proof (induction ps arbitrary: m)
  case Nil
  then show ?case by simp
next
  case (Cons q ps)
  have step: "page_writes now doc (q # ps) m =
      page_writes now doc ps (m((doc, pt_page q) \<mapsto> stored_page (page_document now doc q)))"
    by (simp add: page_writes_def)
  show ?case
  proof (cases "p = q")
    case True
    with Cons.prems have "(doc, pt_page p) \<notin> (\<lambda>p. (doc, pt_page p)) ` set ps" by auto
    with True show ?thesis by (simp add: step page_writes_other)
  next
    case False
    with Cons show ?thesis by (simp add: step)
  qed
qed

text \<open>The same pages in any order, over what an earlier attempt left.\<close>

lemma page_writes_retry:
  assumes "distinct (map pt_page ps)" and "mset qs = mset ps" and "set sub \<subseteq> set ps"
  shows "page_writes now doc qs (page_writes now' doc sub m) = page_writes now doc ps m"
proof
  fix k
  have d: "distinct (map pt_page qs)" and qs: "set qs = set ps"
    using assms distinct_map_mset mset_eq_setD by blast+
  show "page_writes now doc qs (page_writes now' doc sub m) k = page_writes now doc ps m k"
  proof (cases "k \<in> (\<lambda>p. (doc, pt_page p)) ` set ps")
    case True
    then obtain p where "p \<in> set ps" "k = (doc, pt_page p)" by blast
    then show ?thesis using assms(1) d qs by (simp add: page_writes_page)
  next
    case False
    then have "k \<notin> (\<lambda>p. (doc, pt_page p)) ` set sub" using assms(3) by blast
    with False qs show ?thesis by (simp add: page_writes_other)
  qed
qed

lemma concat_batches: "0 < n \<Longrightarrow> concat (batches n xs) = xs"
proof (induction n xs rule: batches.induct)
  case (1 n xs)
  then show ?case by (subst batches.simps) auto
qed

lemma mset_concat_schedule:
  assumes "\<And>b. mset (schedule b) = mset b"
  shows "mset (concat (map schedule bs)) = mset (concat bs)"
  using assms by (induction bs) simp_all

text \<open>The collection of pages.\<close>

locale page_collection = mongo_collection run contents page_key_of stored_page
  for run :: "('s, string \<times> int, page_doc) mongo" and contents :: "'s \<Rightarrow> string \<times> int \<Rightarrow> page_doc option"
begin

lemma upsert_page_run:
  assumes "upsert_page run now doc p s = (r, s')"
  shows "\<exists>sub. contents s' = page_writes now doc sub (contents s) \<and> set sub \<subseteq> {p} \<and> (r = Inr () \<longrightarrow> sub = [p])"
proof -
  let ?d = "page_document now doc p"
  have k: "page_key_of ?d = (doc, pt_page p)" by (simp add: page_key_of_def page_document_def)
  obtain r1 s1 where run: "run (ReplaceOne (doc, pt_page p) ?d) s = (r1, s1)" by fastforce
  then have "s' = s1" and r: "r = Inr () \<longleftrightarrow> (\<exists>x. r1 = Inr x)"
    using assms by (cases r1; auto simp: upsert_page_def seqE_def)+
  from replace_one [of ?d s r1 s1] run k
  consider "contents s1 = page_writes now doc [p] (contents s)" | "\<exists>e. r1 = Inl e" "contents s1 = contents s"
    by (auto simp: page_writes_def)
  then show ?thesis
  proof cases
    case 1
    with \<open>s' = s1\<close> show ?thesis by (intro exI [of _ "[p]"]) simp
  next
    case 2
    with \<open>s' = s1\<close> r show ?thesis by (intro exI [of _ "[]"]) auto
  qed
qed

lemma gather_run:
  "gather (map (upsert_page run now doc) ps) s = (r, s') \<Longrightarrow>
    \<exists>sub. contents s' = page_writes now doc sub (contents s) \<and> set sub \<subseteq> set ps \<and> (r = Inr () \<longrightarrow> sub = ps)"
proof (induction ps arbitrary: s r)
  case Nil
  then show ?case by (intro exI [of _ "[]"]) simp
next
  case (Cons p ps)
  obtain r1 s1 where one: "upsert_page run now doc p s = (r1, s1)" by fastforce
  obtain r2 where rest: "gather (map (upsert_page run now doc) ps) s1 = (r2, s')"
    and r: "r = (case r1 of Inl e \<Rightarrow> Inl e | Inr _ \<Rightarrow> r2)"
    using Cons.prems one by (auto split: prod.splits)
  obtain sub1 where "contents s1 = page_writes now doc sub1 (contents s)" "set sub1 \<subseteq> {p}"
    "r1 = Inr () \<longrightarrow> sub1 = [p]"
    using upsert_page_run [OF one] by blast
  moreover obtain sub2 where "contents s' = page_writes now doc sub2 (contents s1)" "set sub2 \<subseteq> set ps"
    "r2 = Inr () \<longrightarrow> sub2 = ps"
    using Cons.IH [OF rest] by blast
  ultimately show ?case
    using r by (intro exI [of _ "sub1 @ sub2"]) (auto split: sum.splits)
qed

lemma batches_run:
  "run_all (map (\<lambda>b. gather (map (upsert_page run now doc) (schedule b))) bs) s = (r, s') \<Longrightarrow>
    \<exists>sub. contents s' = page_writes now doc sub (contents s) \<and> set sub \<subseteq> set (concat (map schedule bs))
      \<and> (r = Inr () \<longrightarrow> sub = concat (map schedule bs))"
proof (induction bs arbitrary: s)
  case Nil
  then show ?case by (intro exI [of _ "[]"]) simp
next
  case (Cons b bs)
  obtain r1 s1 where one: "gather (map (upsert_page run now doc) (schedule b)) s = (r1, s1)" by fastforce
  obtain sub1 where sub1: "contents s1 = page_writes now doc sub1 (contents s)" "set sub1 \<subseteq> set (schedule b)"
    "r1 = Inr () \<longrightarrow> sub1 = schedule b"
    using gather_run [OF one] by blast
  show ?case
  proof (cases r1)
    case (Inl e)
    with Cons.prems one have "r = Inl e" "s' = s1" by (auto simp: seqE_def)
    with sub1 show ?thesis by (intro exI [of _ sub1]) auto
  next
    case (Inr u)
    with Cons.prems one have "run_all (map (\<lambda>b. gather (map (upsert_page run now doc) (schedule b))) bs) s1 = (r, s')"
      by (simp add: seqE_def)
    from Cons.IH [OF this] obtain sub2 where "contents s' = page_writes now doc sub2 (contents s1)"
      "set sub2 \<subseteq> set (concat (map schedule bs))" "r = Inr () \<longrightarrow> sub2 = concat (map schedule bs)" by blast
    with sub1 Inr show ?thesis by (intro exI [of _ "sub1 @ sub2"]) auto
  qed
qed

lemma put_pages_run:
  assumes "put_pages run schedule now document_id ps s = (r, s')" and "\<And>b. mset (schedule b) = mset b"
  shows "\<exists>sub. contents s' = page_writes now (str_uuid document_id) sub (contents s) \<and> set sub \<subseteq> set ps
    \<and> (r = Inr () \<longrightarrow> mset sub = mset ps)"
proof (cases "ps = []")
  case True
  with assms(1) show ?thesis by (intro exI [of _ "[]"]) (simp add: put_pages_def)
next
  case False
  let ?bs = "batches UPSERT_BATCH_SIZE ps"
  have ps: "mset (concat (map schedule ?bs)) = mset ps"
    using mset_concat_schedule [OF assms(2), of ?bs] by (simp add: concat_batches UPSERT_BATCH_SIZE_def)
  let ?go = "run_all (map (\<lambda>b. gather (map (upsert_page run now (str_uuid document_id)) (schedule b))) ?bs)"
  obtain r1 s1 where go: "?go s = (r1, s1)" by fastforce
  with assms(1) False have "s' = s1" "r = Inr () \<longrightarrow> r1 = Inr ()"
    by (cases r1; auto simp: put_pages_def wrapping_content_def catchE_def)+
  with batches_run [OF go] ps show ?thesis using mset_eq_setD [OF ps] by metis
qed

end

interpretation page_store: page_collection "mongod page_key_of stored_page" "docs_map page_key_of"
  by (rule page_collection.intro) (rule pages_collection.mongo_collection_axioms)

section \<open>Reading documents\<close>

lemma collect_Some: "collect f ds = Some xs \<longleftrightarrow> map f ds = map Some xs"
  by (induction ds arbitrary: xs) (auto split: option.splits)

lemma load_docs_Inr:
  assumes "wrapping_content op (seqE m (load_docs f)) s = (Inr xs, s')"
  obtains ds where "m s = (Inr (MDocs ds), s')" "map f ds = map Some xs"
proof -
  obtain reply s1 where m: "m s = (Inr reply, s1)"
    using assms by (auto simp: wrapping_content_def catchE_def seqE_def split: prod.splits sum.splits)
  with assms show thesis
    by (cases reply) (auto simp: wrapping_content_def catchE_def seqE_def load_docs_def collect_Some
        split: option.splits intro: that)
qed

lemma wrapping_content_Inl: "wrapping_content op m s = (Inl e, s') \<Longrightarrow> \<exists>x. e = IpaExn (content_error op x)"
  by (auto simp: wrapping_content_def catchE_def split: prod.splits sum.splits)

lemma page_of_stored: "page_text_valid p \<Longrightarrow> page_of_doc (stored_page (page_document now doc p)) = Some p"
  by (simp add: page_of_doc_def stored_page_def page_document_def Let_def page_text_valid_def)

lemma page_of_doc_page: "page_of_doc d = Some p \<Longrightarrow> pt_page p = pd_page d"
  by (auto simp: page_of_doc_def Let_def split: if_splits)

lemma sorted_distinct_strict:
  fixes f :: "'a \<Rightarrow> int"
  shows "sorted_wrt (\<lambda>a b. f a \<le> f b) xs \<Longrightarrow> inj_on f (set xs) \<Longrightarrow> distinct xs \<Longrightarrow> sorted_wrt (\<lambda>a b. f a < f b) xs"
proof (induction xs)
  case Nil
  then show ?case by simp
next
  case (Cons a xs)
  then have "f a \<noteq> f x" if "x \<in> set xs" for x using that by (auto simp: inj_on_def)
  with Cons show ?case by (fastforce simp: less_le inj_on_def)
qed

context page_collection
begin

lemma get_pages_Inr:
  assumes "get_pages run document_id s = (Inr qs, s')"
  shows "sorted_wrt (\<lambda>a b. pt_page a < pt_page b) qs
    \<and> set (map Some qs) = page_of_doc ` {d \<in> ran (contents s). pd_document_id d = str_uuid document_id}"
proof -
  let ?D = "{d \<in> ran (contents s). pd_document_id d = str_uuid document_id}"
  obtain ds where run: "run (Find (\<lambda>d. pd_document_id d = str_uuid document_id) pd_page False) s = (Inr (MDocs ds), s')"
    and qs: "map page_of_doc ds = map Some qs"
    using assms unfolding get_pages_def by (rule load_docs_Inr)
  from find_docs [OF run] have ds: "distinct ds" "set ds = ?D" "sorted_wrt (\<lambda>a b. pd_page a \<le> pd_page b) ds"
    by (auto simp: by_sort_simps)
  have "inj_on pd_page ?D"
  proof (rule inj_onI)
    fix a b assume ab: "a \<in> ?D" "b \<in> ?D" "pd_page a = pd_page b"
    then obtain k l where kl: "contents s k = Some a" "contents s l = Some b" by (auto simp: ran_def)
    have "k = page_key_of a" "l = page_key_of b" using keyed [OF kl(1)] keyed [OF kl(2)] by simp_all
    with ab have "k = l" by (simp add: page_key_of_def)
    with kl show "a = b" by simp
  qed
  then have "sorted_wrt (\<lambda>a b. pd_page a < pd_page b) ds"
    using ds by (intro sorted_distinct_strict) simp_all
  moreover have "map pt_page qs = map pd_page ds"
  proof -
    have "list_all2 (\<lambda>d q. page_of_doc d = Some q) ds qs"
      using qs by (simp add: list_all2_conv_all_nth list_eq_iff_nth_eq)
    then show ?thesis by (induction rule: list_all2_induct) (simp_all add: page_of_doc_page)
  qed
  ultimately have "sorted_wrt (\<lambda>a b. pt_page a < pt_page b) qs" by (metis sorted_wrt_map)
  moreover have "set (map Some qs) = page_of_doc ` ?D" using ds(2) qs by (metis list.set_map)
  ultimately show ?thesis by blast
qed

end

section \<open>Extraction versions\<close>

definition record_key :: "extraction_record \<Rightarrow> string \<times> int" where
  "record_key r = (str_uuid (er_document_id r), er_version r)"

lemma key_of_record [simp]: "extraction_key_of (doc_of_record r) = record_key r"
  by (simp add: extraction_key_of_def doc_of_record_def record_key_def)

lemma stored_extraction_simps [simp]:
  "ed_document_id (stored_extraction d) = ed_document_id d" "ed_version (stored_extraction d) = ed_version d"
  by (simp_all add: stored_extraction_def)

lemma record_from_doc_ids:
  "record_from_doc d = Some r \<Longrightarrow> er_version r = ed_version d"
  by (auto simp: record_from_doc_def Let_def split: option.splits if_splits)

lemma extraction_fault_ipa: "\<exists>x. IpaExn (extraction_fault r e) = IpaExn x" by simp

locale extraction_collection = mongo_collection run contents extraction_key_of stored_extraction
  for run :: "('s, string \<times> int, extraction_doc) mongo" and contents :: "'s \<Rightarrow> string \<times> int \<Rightarrow> extraction_doc option"
begin

lemma insert_extraction_cases:
  obtains (inserted) i s' where "insert_extraction run r s = (Inr i, s')" "contents s (record_key r) = None"
    "contents s' = (contents s)(record_key r \<mapsto> stored_extraction (doc_of_record r))"
  | (fails) x s' where "insert_extraction run r s = (Inl (IpaExn x), s')"
    "contents s' = contents s
      \<or> contents s (record_key r) = None
        \<and> contents s' = (contents s)(record_key r \<mapsto> stored_extraction (doc_of_record r))"
proof -
  obtain res s' where ins: "run (InsertOne (doc_of_record r)) s = (res, s')" by fastforce
  note law = insert_one [OF ins]
  show thesis
  proof (cases res)
    case (Inl e)
    with ins law fails [of "extraction_fault r e" s'] show ?thesis
      by (simp add: insert_extraction_def catchE_def seqE_def)
  next
    case (Inr reply)
    with ins law inserted [of _ s'] show ?thesis
      by (auto simp: insert_extraction_def catchE_def seqE_def)
  qed
qed

lemma insert_extraction_taken:
  assumes "contents s (record_key r) \<noteq> None"
  obtains x s' where "insert_extraction run r s = (Inl (IpaExn x), s')" "contents s' = contents s"
  using assms by (cases rule: insert_extraction_cases [of r s]) auto

lemma version_free_run:
  assumes "version_free run r s = (res, s')"
  shows "contents s' = contents s \<and> (res = Inr () \<longrightarrow> contents s (record_key r) = None)
    \<and> (\<forall>e. res = Inl e \<longrightarrow> (\<exists>x. e = IpaExn x))"
proof -
  let ?p = "\<lambda>d. ed_document_id d = str_uuid (er_document_id r) \<and> ed_version d = er_version r"
  obtain r1 s1 where find: "run (FindOne ?p ed_version) s = (r1, s1)" by fastforce
  note law = find_one [OF find]
  have s': "s' = s1" and err: "\<forall>e. res = Inl e \<longrightarrow> (\<exists>x. e = IpaExn x)"
    and ok: "res = Inr () \<longrightarrow> r1 = Inr (MDocs [])"
    using assms find by (cases r1; auto simp: version_free_def catchE_def seqE_def split: if_splits)+
  have "contents s (record_key r) = None" if "res = Inr ()"
  proof (rule ccontr)
    assume "contents s (record_key r) \<noteq> None"
    then obtain d where d: "contents s (record_key r) = Some d" by blast
    from keyed [OF this] have "?p d" by (simp add: extraction_key_of_def record_key_def)
    moreover have "d \<in> ran (contents s)" using d by (rule ranI)
    ultimately show False using law ok that by auto
  qed
  with law s' err show ?thesis by blast
qed

lemma put_extraction_run:
  assumes "put_extraction run r s = (res, s')"
  shows "case res of
      Inr i \<Rightarrow> contents s (record_key r) = None
        \<and> contents s' = (contents s)(record_key r \<mapsto> stored_extraction (doc_of_record r))
    | Inl e \<Rightarrow> (\<exists>x. e = IpaExn x) \<and> (contents s' = contents s
        \<or> contents s (record_key r) = None
          \<and> contents s' = (contents s)(record_key r \<mapsto> stored_extraction (doc_of_record r)))"
proof -
  obtain r1 s1 where free: "version_free run r s = (r1, s1)" by fastforce
  note chk = version_free_run [OF free]
  show ?thesis
  proof (cases r1)
    case (Inl e)
    with assms free chk show ?thesis by (auto simp: put_extraction_def seqE_def)
  next
    case (Inr u)
    then have "insert_extraction run r s1 = (res, s')" using assms free by (simp add: put_extraction_def seqE_def)
    then show ?thesis
      by (cases rule: insert_extraction_cases [of r s1]) (use chk Inr in auto)
  qed
qed

lemma get_extraction_Inr:
  assumes "get_extraction run document_id version s = (Inr x, s')"
  defines "p \<equiv> \<lambda>d. ed_document_id d = str_uuid document_id
      \<and> (case version of None \<Rightarrow> True | Some v \<Rightarrow> ed_version d = v)"
  shows "contents s' = contents s
    \<and> (case x of
         None \<Rightarrow> \<forall>d \<in> ran (contents s). \<not> p d
       | Some q \<Rightarrow> \<exists>d \<in> ran (contents s). p d \<and> record_from_doc d = Some q
           \<and> (\<forall>d' \<in> ran (contents s). p d' \<longrightarrow> ed_version d' \<le> ed_version d))"
proof -
  obtain r1 s1 where find: "run (FindOne p ed_version) s = (r1, s1)" by fastforce
  note law = find_one [OF find]
  show ?thesis
  proof (cases r1)
    case (Inl e)
    with assms(1) find show ?thesis
      by (simp add: get_extraction_def p_def wrapping_content_def catchE_def seqE_def)
  next
    case (Inr reply)
    with law consider "reply = MDocs []" "\<forall>d \<in> ran (contents s). \<not> p d"
      | d where "reply = MDocs [d]" "d \<in> ran (contents s)" "p d"
        "\<forall>d' \<in> ran (contents s). p d' \<longrightarrow> ed_version d' \<le> ed_version d"
      by auto
    then show ?thesis
    proof cases
      case 1
      with assms(1) find Inr law show ?thesis
        by (auto simp: get_extraction_def p_def wrapping_content_def catchE_def seqE_def)
    next
      case (2 d)
      have "record_from_doc d = Some (the x)" "x \<noteq> None" "s' = s1"
        using assms(1) find Inr 2(1)
        by (auto simp: get_extraction_def p_def wrapping_content_def catchE_def seqE_def load_docs_def
            split: option.splits)
      with 2 law show ?thesis by auto
    qed
  qed
qed

lemma list_extractions_Inr:
  assumes "list_extractions run document_id s = (Inr rs, s')"
  shows "sorted_wrt (\<lambda>a b. er_version b < er_version a) rs
    \<and> set (map Some rs) = record_from_doc ` {d \<in> ran (contents s). ed_document_id d = str_uuid document_id}"
proof -
  let ?D = "{d \<in> ran (contents s). ed_document_id d = str_uuid document_id}"
  obtain ds where run: "run (Find (\<lambda>d. ed_document_id d = str_uuid document_id) ed_version True) s = (Inr (MDocs ds), s')"
    and rs: "map record_from_doc ds = map Some rs"
    using assms unfolding list_extractions_def by (rule load_docs_Inr)
  from find_docs [OF run] have ds: "distinct ds" "set ds = ?D" "sorted_wrt (\<lambda>a b. ed_version b \<le> ed_version a) ds"
    by (auto simp: by_sort_simps)
  have "inj_on ed_version ?D"
  proof (rule inj_onI)
    fix a b assume ab: "a \<in> ?D" "b \<in> ?D" "ed_version a = ed_version b"
    then obtain k l where kl: "contents s k = Some a" "contents s l = Some b" by (auto simp: ran_def)
    have "k = extraction_key_of a" "l = extraction_key_of b" using keyed [OF kl(1)] keyed [OF kl(2)] by simp_all
    with ab have "k = l" by (simp add: extraction_key_of_def)
    with kl show "a = b" by simp
  qed
  then have "distinct (map ed_version ds)" using ds by (simp add: distinct_map)
  then have "sorted_wrt (\<lambda>a b. ed_version b < ed_version a) ds" using ds(3) by (intro sorted_desc_distinct)
  then have "sorted_wrt (>) (map ed_version ds)" by (simp add: sorted_wrt_map)
  moreover have "map er_version rs = map ed_version ds"
  proof -
    have "list_all2 (\<lambda>d q. record_from_doc d = Some q) ds rs"
      using rs by (simp add: list_all2_conv_all_nth list_eq_iff_nth_eq)
    then show ?thesis by (induction rule: list_all2_induct) (simp_all add: record_from_doc_ids)
  qed
  ultimately have "sorted_wrt (>) (map er_version rs)" by simp
  then have "sorted_wrt (\<lambda>a b. er_version b < er_version a) rs" by (simp add: sorted_wrt_map)
  moreover have "set (map Some rs) = record_from_doc ` ?D" using ds(2) rs by (metis list.set_map)
  ultimately show ?thesis by blast
qed

end

interpretation extraction_store: extraction_collection "mongod extraction_key_of stored_extraction"
  "docs_map extraction_key_of"
  by (rule extraction_collection.intro) (rule extractions_collection.mongo_collection_axioms)

text \<open>
  Any interleaving of writers: each checks and inserts when it likes, and in between anything may
  happen that keeps what is stored. \<open>n\<close> counts the inserts of the key \<open>k\<close> that returned.
\<close>

inductive extraction_run ::
  "('s, string \<times> int, extraction_doc) mongo \<Rightarrow> ('s \<Rightarrow> string \<times> int \<Rightarrow> extraction_doc option)
     \<Rightarrow> string \<times> int \<Rightarrow> 's \<Rightarrow> nat \<Rightarrow> bool" for run contents k where
  start: "extraction_run run contents k s 0"
| other: "extraction_run run contents k s n \<Longrightarrow> contents s \<subseteq>\<^sub>m contents s' \<Longrightarrow> extraction_run run contents k s' n"
| check: "extraction_run run contents k s n \<Longrightarrow> version_free run r s = (res, s') \<Longrightarrow>
    extraction_run run contents k s' n"
| insert: "extraction_run run contents k s n \<Longrightarrow> insert_extraction run r s = (res, s') \<Longrightarrow>
    extraction_run run contents k s' (if record_key r = k \<and> (\<exists>i. res = Inr i) then Suc n else n)"

lemma extraction_run_invariant:
  assumes "extraction_collection run contents"
  shows "extraction_run run contents k s n \<Longrightarrow> n \<le> 1 \<and> (n = 1 \<longrightarrow> contents s k \<noteq> None)"
proof (induction rule: extraction_run.induct)
  case (start s)
  then show ?case by simp
next
  case (other s n s')
  have "contents s' k \<noteq> None" if "contents s k \<noteq> None"
    using that other.hyps(2) by (metis domIff map_le_def)
  with other show ?case by blast
next
  case (check s n r res s')
  then show ?case using extraction_collection.version_free_run [OF assms check.hyps(2)] by simp
next
  case (insert s n r res s')
  show ?case
  proof (cases rule: extraction_collection.insert_extraction_cases [OF assms, of r s])
    case (1 i s1)
    with insert show ?thesis by auto
  next
    case (2 x s1)
    with insert show ?thesis by auto
  qed
qed

section \<open>Properties\<close>


definition sample_pages :: "page_text list" where
  "sample_pages =
     [\<lparr>pt_page = 1, pt_text = ''first'', pt_source = TextLayer, pt_confidence = None, pt_char_count = 5\<rparr>,
      \<lparr>pt_page = 2, pt_text = ''second'', pt_source = Vlm, pt_confidence = Some 1, pt_char_count = 6\<rparr>]"

lemma sample_batches: "batches UPSERT_BATCH_SIZE sample_pages = [sample_pages]"
  by (simp add: batches.simps UPSERT_BATCH_SIZE_def sample_pages_def)

lemma put_sample_pages:
  "put_pages run schedule now document_id sample_pages =
     wrapping_content ''put_pages''
       (run_all [gather (map (upsert_page run now (str_uuid document_id)) (schedule sample_pages))])"
proof -
  have "sample_pages \<noteq> []" by (simp add: sample_pages_def)
  then show ?thesis by (simp add: put_pages_def sample_batches)
qed

abbreviation sample_pages_db :: "(page_doc mongod_state, string \<times> int, page_doc) mongo" where
  "sample_pages_db \<equiv> mongod page_key_of stored_page"


text \<open>
  Stored pages are read back in order: after a \<open>put_pages\<close> that returned, \<open>get_pages\<close>, when it
  returns, yields the document's pages by strictly increasing number, with every page that was
  written unchanged among them, and no other page under one of their numbers.
\<close>

theorem stored_pages_are_read_back:
  assumes "page_collection run contents" and "\<And>b. mset (schedule b) = mset b"
    and "distinct (map pt_page ps)" and "list_all page_text_valid ps"
    and "put_pages run schedule now document_id ps s = (Inr (), s1)"
    and "get_pages run document_id s1 = (Inr qs, s2)"
  shows "sorted_wrt (\<lambda>a b. pt_page a < pt_page b) qs \<and> set ps \<subseteq> set qs
    \<and> (\<forall>q \<in> set qs. pt_page q \<in> pt_page ` set ps \<longrightarrow> q \<in> set ps)"
proof -
  let ?doc = "str_uuid document_id"
  obtain sub where sub: "contents s1 = page_writes now ?doc sub (contents s)" "mset sub = mset ps"
    using page_collection.put_pages_run [OF assms(1,5,2)] by auto
  have d: "distinct (map pt_page sub)" and set_sub: "set sub = set ps"
    using sub(2) assms(3) distinct_map_mset mset_eq_setD by blast+
  note got = page_collection.get_pages_Inr [OF assms(1,6)]
  have written: "contents s1 (?doc, pt_page p) = Some (stored_page (page_document now ?doc p))"
    if "p \<in> set ps" for p
    using page_writes_page [OF d, of p] that set_sub by (simp add: sub(1))
  have "p \<in> set qs" if "p \<in> set ps" for p
  proof -
    let ?d = "stored_page (page_document now ?doc p)"
    have "pd_document_id ?d = ?doc" by (simp add: stored_page_def page_document_def)
    then have "?d \<in> {d \<in> ran (contents s1). pd_document_id d = ?doc}"
      using ranI [of "contents s1", OF written [OF that]] by blast
    then have "page_of_doc ?d \<in> set (map Some qs)"
      unfolding conjunct2 [OF got] by (rule imageI)
    moreover have "page_of_doc ?d = Some p" using that assms(4) by (simp add: page_of_stored list_all_iff)
    ultimately have "Some p \<in> set (map Some qs)" by (simp only:)
    then show ?thesis by auto
  qed
  then have sub_qs: "set ps \<subseteq> set qs" by blast
  have "sorted_wrt (<) (map pt_page qs)" using got by (simp add: sorted_wrt_map)
  then have "inj_on pt_page (set qs)" by (simp add: strict_sorted_iff distinct_map)
  have "q \<in> set ps" if q: "q \<in> set qs" "pt_page q \<in> pt_page ` set ps" for q
  proof -
    obtain p where p: "p \<in> set ps" "pt_page q = pt_page p" using q(2) by blast
    moreover from p sub_qs have "p \<in> set qs" by blast
    ultimately have "q = p" using inj_onD [OF \<open>inj_on pt_page (set qs)\<close>, of q p] q(1) by simp
    with p show ?thesis by simp
  qed
  with got sub_qs show ?thesis by blast
qed

lemma stored_pages_are_read_back_witness:
  "\<exists>s1 qs s2. put_pages sample_pages_db id 0 7 sample_pages ([], []) = (Inr (), s1)
    \<and> get_pages sample_pages_db 7 s1 = (Inr qs, s2) \<and> set sample_pages \<subseteq> set qs"
proof -
  obtain s1 where put: "put_pages sample_pages_db id 0 7 sample_pages ([], []) = (Inr (), s1)"
    and s1: "s1 = ([], map (\<lambda>p. stored_page (page_document 0 (str_uuid 7) p)) (rev sample_pages))"
    unfolding put_sample_pages by (simp add: sample_pages_def upsert_page_def seqE_def wrapping_content_def catchE_def
        mongod_def page_key_of_def page_document_def stored_page_def)
  obtain qs s2 where got: "get_pages sample_pages_db 7 s1 = (Inr qs, s2)"
    unfolding s1
    by (simp add: get_pages_def wrapping_content_def catchE_def seqE_def mongod_def visible_def sample_pages_def
        page_key_of_def page_document_def stored_page_def load_docs_def page_of_doc_def page_text_valid_def
        unit_range_def Let_def)
  show ?thesis
    using put got stored_pages_are_read_back [OF page_store.page_collection_axioms _ _ _ put got]
    by (auto simp: sample_pages_def page_text_valid_def unit_range_def)
qed

text \<open>
  Extraction versions are append-only: a \<open>put_extraction\<close> adds the version or changes nothing,
  it returns only when the version was free, and it never replaces a stored version, whatever
  driver call fails; every error is an \<open>IpaError\<close>.
\<close>

theorem put_extraction_appends:
  assumes "extraction_collection run contents" and "put_extraction run r s = (res, s1)"
  shows "contents s \<subseteq>\<^sub>m contents s1
    \<and> (\<forall>k. k \<noteq> record_key r \<longrightarrow> contents s1 k = contents s k)
    \<and> (case res of
         Inr i \<Rightarrow> contents s (record_key r) = None
           \<and> contents s1 (record_key r) = Some (stored_extraction (doc_of_record r))
       | Inl e \<Rightarrow> (\<exists>x. e = IpaExn x))"
  using extraction_collection.put_extraction_run [OF assms]
  by (cases res) (auto simp: map_le_def)

definition sample_record :: extraction_record where
  "sample_record =
     \<lparr>er_document_id = 7, er_version = 1, er_tag_id = 3, er_tag_version = 1, er_source = MODEL,
      er_model = Some ''llm'', er_prompt_hash = None,
      er_fields = [\<lparr>ef_key = ''total'', ef_value = JInt 12, ef_confidence = 1 / 2, ef_page = Some 1,
                    ef_evidence = None, ef_valid = True, ef_validation_errors = []\<rparr>],
      er_document_confidence = 1 / 2, er_created_at = 1234567, er_created_by = None\<rparr>"

abbreviation sample_extractions_db :: "(extraction_doc mongod_state, string \<times> int, extraction_doc) mongo" where
  "sample_extractions_db \<equiv> mongod extraction_key_of stored_extraction"

lemma put_sample_record:
  "put_extraction sample_extractions_db sample_record ([], []) =
     (Inr ''oid'', ([], [stored_extraction (doc_of_record sample_record)]))"
  by (simp add: put_extraction_def version_free_def insert_extraction_def seqE_def catchE_def mongod_def visible_def)

lemma put_extraction_appends_witness:
  "docs_map extraction_key_of ([], [stored_extraction (doc_of_record sample_record)]) (record_key sample_record) =
     Some (stored_extraction (doc_of_record sample_record))"
  using put_extraction_appends [OF extraction_store.extraction_collection_axioms put_sample_record] by simp

text \<open>
  C14. Among any number of concurrent writers, interleaved in any way and with calls that fail at
  any point, an extraction version is written at most once, and stays.
\<close>

theorem extraction_version_written_once:
  assumes "extraction_collection run contents" and "extraction_run run contents k s n"
  shows "n \<le> 1 \<and> (n = 1 \<longrightarrow> contents s k \<noteq> None)"
  using extraction_run_invariant [OF assms] .

lemma extraction_version_written_once_witness:
  "\<exists>s. extraction_run sample_extractions_db (docs_map extraction_key_of) (record_key sample_record) s 1
    \<and> docs_map extraction_key_of s (record_key sample_record) \<noteq> None"
proof -
  let ?run = "extraction_run sample_extractions_db (docs_map extraction_key_of) (record_key sample_record)"
  obtain s1 where "insert_extraction sample_extractions_db sample_record ([], []) = (Inr ''oid'', s1)"
    by (simp add: insert_extraction_def seqE_def catchE_def mongod_def)
  from extraction_run.insert [OF extraction_run.start this, of "docs_map extraction_key_of" "record_key sample_record"]
  have "?run s1 1" by simp
  with extraction_version_written_once [OF extraction_store.extraction_collection_axioms this] show ?thesis by blast
qed

text \<open>
  C9. A stored extraction is read back: after a \<open>put_extraction\<close> that returned, reading that version,
  when it returns, gives the record, its creation time cut to milliseconds; reading the latest gives a
  version no smaller; and listing gives the versions strictly descending, with the record among them.
\<close>

theorem stored_extraction_is_read_back:
  assumes "extraction_collection run contents" and "extraction_record_valid r"
    and "put_extraction run r s = (Inr i, s1)"
  defines "kept \<equiv> r\<lparr>er_created_at := bson_datetime (er_created_at r)\<rparr>"
  shows "(\<forall>x s2. get_extraction run (er_document_id r) (Some (er_version r)) s1 = (Inr x, s2) \<longrightarrow> x = Some kept)
    \<and> (\<forall>x s2. get_extraction run (er_document_id r) None s1 = (Inr x, s2) \<longrightarrow>
          (\<exists>q. x = Some q \<and> er_version r \<le> er_version q))
    \<and> (\<forall>rs s2. list_extractions run (er_document_id r) s1 = (Inr rs, s2) \<longrightarrow>
          sorted_wrt (\<lambda>a b. er_version b < er_version a) rs \<and> kept \<in> set rs)"
proof -
  let ?d = "stored_extraction (doc_of_record r)"
  have at: "contents s1 (record_key r) = Some ?d"
    using extraction_collection.put_extraction_run [OF assms(1,3)] by simp
  then have mem: "?d \<in> ran (contents s1)" by (rule ranI)
  have load: "record_from_doc ?d = Some kept" unfolding kept_def by (rule record_of_stored [OF assms(2)])
  have ids: "ed_document_id ?d = str_uuid (er_document_id r)" "ed_version ?d = er_version r"
    by (simp_all add: doc_of_record_def)
  have "x = Some kept" if get: "get_extraction run (er_document_id r) (Some (er_version r)) s1 = (Inr x, s2)" for x s2
  proof -
    from extraction_collection.get_extraction_Inr [OF assms(1) get] mem ids
    obtain d where d: "d \<in> ran (contents s1)" "ed_document_id d = str_uuid (er_document_id r)"
      "ed_version d = er_version r" "record_from_doc d = x"
      by (auto split: option.splits)
    then obtain k where k: "contents s1 k = Some d" by (auto simp: ran_def)
    have "extraction_key_of d = k"
      using mongo_collection.keyed [OF extraction_collection.axioms [OF assms(1)] k] .
    with d at k have "d = ?d" by (simp add: extraction_key_of_def record_key_def)
    with d load show ?thesis by simp
  qed
  moreover have "\<exists>q. x = Some q \<and> er_version r \<le> er_version q"
    if get: "get_extraction run (er_document_id r) None s1 = (Inr x, s2)" for x s2
    using extraction_collection.get_extraction_Inr [OF assms(1) get] mem ids
    by (auto split: option.splits dest!: record_from_doc_ids)
  moreover have "sorted_wrt (\<lambda>a b. er_version b < er_version a) rs \<and> kept \<in> set rs"
    if lst: "list_extractions run (er_document_id r) s1 = (Inr rs, s2)" for rs s2
  proof -
    note got = extraction_collection.list_extractions_Inr [OF assms(1) lst]
    have "?d \<in> {d \<in> ran (contents s1). ed_document_id d = str_uuid (er_document_id r)}"
      using mem ids(1) by blast
    then have "record_from_doc ?d \<in> set (map Some rs)"
      unfolding conjunct2 [OF got] by (rule imageI)
    with got show ?thesis unfolding load by auto
  qed
  ultimately show ?thesis by blast
qed

lemma stored_extraction_is_read_back_witness:
  "\<exists>x s2. get_extraction sample_extractions_db 7 (Some 1)
      ([], [stored_extraction (doc_of_record sample_record)]) = (Inr x, s2)
    \<and> x = Some (sample_record\<lparr>er_created_at := 1234000\<rparr>)"
proof -
  have valid: "extraction_record_valid sample_record"
    by (simp add: sample_record_def extraction_record_valid_def extracted_field_valid_def unit_range_def)
  note reread = stored_extraction_is_read_back [OF extraction_store.extraction_collection_axioms valid put_sample_record]
  have "ed_document_id (doc_of_record sample_record) = str_uuid 7" "ed_version (doc_of_record sample_record) = 1"
    by (simp_all add: doc_of_record_def sample_record_def)
  then obtain x s2 where get: "get_extraction sample_extractions_db 7 (Some 1)
      ([], [stored_extraction (doc_of_record sample_record)]) = (Inr x, s2)"
    using record_of_stored [OF valid]
    by (simp add: get_extraction_def wrapping_content_def catchE_def seqE_def mongod_def visible_def load_docs_def)
  have "er_document_id sample_record = 7" "er_version sample_record = 1"
    "bson_datetime (er_created_at sample_record) = 1234000"
    by (simp_all add: sample_record_def bson_datetime_def)
  with reread get show ?thesis by simp
qed

text \<open>
  C29. Deleting a document's content removes its pages, extractions and raw responses, and only
  those: when \<open>delete_document\<close> returns none is left, and when it raises each collection has lost at
  most documents of that document, so that calling it again completes the deletion.
\<close>

theorem delete_document_removes_content:
  assumes "mongo_reads pages pc" and "mongo_reads extractions ec" and "mongo_reads raw rc"
    and "delete_document pages extractions raw document_id (p, e, w) = (r, (p', e', w'))"
  defines "mine_p \<equiv> \<lambda>d. pd_document_id d = str_uuid document_id"
    and "mine_e \<equiv> \<lambda>d. ed_document_id d = str_uuid document_id"
    and "mine_w \<equiv> \<lambda>d. rd_document_id d = str_uuid document_id"
  shows "(r = Inr () \<longrightarrow> pc p' = without mine_p (pc p) \<and> ec e' = without mine_e (ec e)
            \<and> rc w' = without mine_w (rc w))
    \<and> (\<forall>k. pc p' k \<in> {pc p k, without mine_p (pc p) k})
    \<and> (\<forall>k. ec e' k \<in> {ec e k, without mine_e (ec e) k})
    \<and> (\<forall>k. rc w' k \<in> {rc w k, without mine_w (rc w) k})"
proof -
  obtain r1 p1 where d1: "pages (DeleteMany mine_p) p = (r1, p1)" by fastforce
  obtain r2 e1 where d2: "extractions (DeleteMany mine_e) e = (r2, e1)" by fastforce
  obtain r3 w1 where d3: "raw (DeleteMany mine_w) w = (r3, w1)" by fastforce
  note laws = mongo_reads.delete_many [OF assms(1) d1] mongo_reads.delete_many [OF assms(2) d2]
    mongo_reads.delete_many [OF assms(3) d3]
  have run: "delete_document pages extractions raw document_id (p, e, w) =
      (case r1 of
         Inl x \<Rightarrow> (Inl (IpaExn (content_error ''delete_document'' x)), (p1, e, w))
       | Inr _ \<Rightarrow> (case r2 of
           Inl x \<Rightarrow> (Inl (IpaExn (content_error ''delete_document'' x)), (p1, e1, w))
         | Inr _ \<Rightarrow> (case r3 of
             Inl x \<Rightarrow> (Inl (IpaExn (content_error ''delete_document'' x)), (p1, e1, w1))
           | Inr _ \<Rightarrow> (Inr (), (p1, e1, w1)))))"
    using d1 d2 d3
    by (simp add: delete_document_def Let_def wrapping_content_def catchE_def seqE_def mine_p_def mine_e_def
        mine_w_def split: sum.splits)
  show ?thesis
    using assms(4) laws unfolding run by (auto split: sum.splits)
qed

lemma delete_document_removes_content_witness:
  "\<exists>p' e' w'. delete_document sample_pages_db sample_extractions_db (mongod (\<lambda>d :: raw_doc. d) (\<lambda>d. d)) 7
      (([], []), ([], [stored_extraction (doc_of_record sample_record)]), ([], [])) = (Inr (), (p', e', w'))
    \<and> docs_map extraction_key_of e' (record_key sample_record) = None"
proof -
  let ?e = "([], [stored_extraction (doc_of_record sample_record)])"
  obtain p' e' w' where run: "delete_document sample_pages_db sample_extractions_db
      (mongod (\<lambda>d :: raw_doc. d) (\<lambda>d. d)) 7 (([], []), ?e, ([], [])) = (Inr (), (p', e', w'))"
    by (simp add: delete_document_def Let_def wrapping_content_def catchE_def seqE_def mongod_def)
  have "docs_map extraction_key_of e' = without (\<lambda>d. ed_document_id d = str_uuid 7) (docs_map extraction_key_of ?e)"
    using delete_document_removes_content [OF pages_collection.mongo_reads_axioms
        extractions_collection.mongo_reads_axioms raw_collection.mongo_reads_axioms run] by simp
  moreover have "ed_document_id (stored_extraction (doc_of_record sample_record)) = str_uuid 7"
    by (simp add: doc_of_record_def sample_record_def)
  ultimately show ?thesis using run by (auto simp: without_def docs_map_def)
qed

end
