(* ===== verification/Accounts.thy ===== *)
theory Accounts
  imports Sql Enums
begin

text \<open>
  Models \<open>src/ipa/db/repositories/user.py\<close> and the \<open>users\<close> table: registering a user, and
  looking one up by id or by email. An email is \<open>citext\<close>: \<open>fold_case\<close> stands for the case folding
  the database compares it under.
\<close>

section \<open>The table\<close>

record user_row =
  usr_id :: uuid
  usr_email :: string
  usr_full_name :: string
  usr_password_hash :: string
  usr_role :: user_role
  usr_is_active :: bool
  usr_created_at :: timestamp
  usr_updated_at :: timestamp

definition user_fits :: "user_row \<Rightarrow> bool" where
  "user_fits r \<longleftrightarrow> text_ok (usr_email r) \<and> text_ok (usr_full_name r) \<and> text_ok (usr_password_hash r)"

definition users_ok :: "(string \<Rightarrow> string) \<Rightarrow> user_row list \<Rightarrow> bool" where
  "users_ok fold_case t \<longleftrightarrow>
     distinct (map usr_id t) \<and> distinct (map (\<lambda>r. fold_case (usr_email r)) t)"

text \<open>A new user, with the defaults of the columns \<open>create\<close> does not give.\<close>

definition new_user :: "uuid \<Rightarrow> timestamp \<Rightarrow> string \<Rightarrow> string \<Rightarrow> string \<Rightarrow> user_role \<Rightarrow> user_row" where
  "new_user i now email full_name password_hash role =
     \<lparr>usr_id = i, usr_email = email, usr_full_name = full_name, usr_password_hash = password_hash,
      usr_role = role, usr_is_active = True, usr_created_at = now, usr_updated_at = now\<rparr>"

section \<open>The repository\<close>

definition email_conflict :: "string \<Rightarrow> ipa_error" where
  "email_conflict email = raise_error ConflictError (''user already exists: '' @ email)"

definition create_user ::
  "user_row engine \<Rightarrow> uuid \<Rightarrow> timestamp \<Rightarrow> string \<Rightarrow> string \<Rightarrow> string \<Rightarrow> user_role
     \<Rightarrow> user_row list \<Rightarrow> (py_exn + user_row) \<times> user_row list" where
  "create_user ex new_id now email full_name password_hash role =
     insert_unique ex (email_conflict email) (\<lambda>r. usr_id r = new_id)
       (new_user new_id now email full_name password_hash role)"

definition get_user :: "user_row engine \<Rightarrow> uuid \<Rightarrow> user_row list \<Rightarrow> (py_exn + user_row option) \<times> user_row list"
where
  "get_user ex user_id = fetch_one ex (\<lambda>r. usr_id r = user_id)"

definition get_by_email ::
  "user_row engine \<Rightarrow> (string \<Rightarrow> string) \<Rightarrow> string \<Rightarrow> user_row list
     \<Rightarrow> (py_exn + user_row option) \<times> user_row list" where
  "get_by_email ex fold_case email = fetch_one ex (\<lambda>r. fold_case (usr_email r) = fold_case email)"

section \<open>Lemmas\<close>

lemma users_ok_perm: "mset t' = mset t \<Longrightarrow> users_ok fold_case t \<Longrightarrow> users_ok fold_case t'"
  unfolding users_ok_def by (metis distinct_map_mset)

interpretation user_engine:
  sql_engine "pg_execute user_fits (users_ok fold_case)" user_fits "users_ok fold_case" for fold_case
  by (rule pg_execute_sql_engine) (rule users_ok_perm)

lemma new_user_simps [simp]:
  "usr_id (new_user i now e n p r) = i" "usr_email (new_user i now e n p r) = e"
  by (simp_all add: new_user_def)

lemma users_ok_snoc:
  "users_ok fold_case (t @ [n]) \<longleftrightarrow>
     users_ok fold_case t \<and> usr_id n \<notin> usr_id ` set t
     \<and> fold_case (usr_email n) \<notin> (\<lambda>r. fold_case (usr_email r)) ` set t"
  by (auto simp: users_ok_def)

text \<open>The users by id and by folded email.\<close>

abbreviation users_map :: "user_row list \<Rightarrow> uuid \<Rightarrow> user_row option" where
  "users_map t \<equiv> table_map usr_id t"

abbreviation emails_map :: "(string \<Rightarrow> string) \<Rightarrow> user_row list \<Rightarrow> string \<Rightarrow> user_row option" where
  "emails_map fold_case t \<equiv> table_map (\<lambda>r. fold_case (usr_email r)) t"

lemma users_ok_keys:
  assumes "users_ok fold_case t"
  shows "distinct (map usr_id t)" "distinct (map (\<lambda>r. fold_case (usr_email r)) t)"
  using assms by (simp_all add: users_ok_def)

lemma get_user_exec:
  assumes "sql_engine ex user_fits (users_ok fold_case)" and "users_ok fold_case t"
  shows "get_user ex i t = (Inr (users_map t i), t)"
  unfolding get_user_def
  by (rule sql_engine.fetch_one_unique [OF assms(1) find_key_eq [OF users_ok_keys(1) [OF assms(2)]]])

lemma get_by_email_exec:
  assumes "sql_engine ex user_fits (users_ok fold_case)" and "users_ok fold_case t"
  shows "get_by_email ex fold_case email t = (Inr (emails_map fold_case t (fold_case email)), t)"
  unfolding get_by_email_def
  by (rule sql_engine.fetch_one_unique [OF assms(1) find_key_eq [OF users_ok_keys(2) [OF assms(2)]]])

section \<open>Properties\<close>

definition sample_users :: "user_row list" where
  "sample_users = [new_user 1 0 ''ana@ipa.test'' ''Ana'' ''x'' ADMIN]"

text \<open>
  C40. An email registers at most one user. With values that fit and a fresh id, \<open>create\<close> returns
  the new active user when no user has the email, whatever the case of its letters, and then any
  spelling of the email and the id find it and every other user is as before; when a user has the
  email it raises a ConflictError, the users are unchanged, and the spelling finds the first one.
\<close>

theorem email_registers_one_user:
  assumes "sql_engine ex user_fits (users_ok fold_case)" and "users_ok fold_case t"
    and "user_fits (new_user i now email name pw role)" and "users_map t i = None"
    and "fold_case spelling = fold_case email"
  shows "case get_by_email ex fold_case spelling t of
      (Inr None, _) \<Rightarrow> \<exists>t'. create_user ex i now email name pw role t = (Inr (new_user i now email name pw role), t')
        \<and> users_ok fold_case t'
        \<and> get_by_email ex fold_case spelling t' = (Inr (Some (new_user i now email name pw role)), t')
        \<and> users_map t' = (users_map t)(i \<mapsto> new_user i now email name pw role)
        \<and> (\<forall>j. get_user ex j t' = (Inr (users_map t' j), t'))
    | (Inr (Some r), _) \<Rightarrow> create_user ex i now email name pw role t = (Inl (IpaExn (email_conflict email)), t)
        \<and> r \<in> set t
    | (Inl _, _) \<Rightarrow> False"
proof -
  let ?n = "new_user i now email name pw role"
  have p: "usr_id r = i \<longleftrightarrow> usr_id r = usr_id ?n" for r by simp
  have d: "distinct (map usr_id (t @ [?n]))" if "users_ok fold_case (t @ [?n])"
    using that by (rule users_ok_keys)
  have ok1: "users_ok fold_case (t @ [?n]) \<longleftrightarrow> emails_map fold_case t (fold_case email) = None"
    using assms(2,4) by (simp add: users_ok_snoc table_map_None)
  show ?thesis
  proof (cases "emails_map fold_case t (fold_case email)")
    case (Some r)
    then have "r \<in> set t" using table_map_mem by fast
    moreover have "create_user ex i now email name pw role t = (Inl (IpaExn (email_conflict email)), t)"
      by (rule sql_engine.insert_unique_cases [OF assms(1,2) d p, of "email_conflict email"])
        (use assms(3) ok1 Some in \<open>auto simp: create_user_def\<close>)
    ultimately show ?thesis
      using Some by (simp add: get_by_email_exec [OF assms(1,2)] assms(5))
  next
    case None
    then obtain t' where run: "create_user ex i now email name pw role t = (Inr ?n, t')"
      and t': "mset t' = mset (t @ [?n])" and ok': "users_ok fold_case t'"
      using sql_engine.insert_unique_cases [OF assms(1,2) d p, of "email_conflict email"] assms(3) ok1
      by (metis create_user_def)
    have n: "?n \<in> set t'" using mset_eq_setD [OF t'] by simp
    have "users_map t' = users_map (t @ [?n])"
      using ok1 None t' d by (intro table_map_perm) auto
    also have "\<dots> = (users_map t)(i \<mapsto> ?n)"
      using table_map_snoc [of usr_id ?n t] assms(4) by (simp add: table_map_None)
    finally have m: "users_map t' = (users_map t)(i \<mapsto> ?n)" .
    have "emails_map fold_case t' (fold_case email) = Some ?n"
      using n by (intro table_map_SomeI users_ok_keys(2) [OF ok']) simp_all
    then show ?thesis
      using None run ok' m
      by (simp add: get_by_email_exec [OF assms(1,2)] get_by_email_exec [OF assms(1) ok']
          get_user_exec [OF assms(1) ok'] assms(5))
  qed
qed

lemma email_registers_one_user_witness:
  "create_user (pg_execute user_fits (users_ok id)) 2 5 ''ana@ipa.test'' ''Eve'' ''y'' VIEWER sample_users =
     (Inl (IpaExn (email_conflict ''ana@ipa.test'')), sample_users)"
proof -
  have "users_ok id sample_users" "users_map sample_users 2 = None"
    "user_fits (new_user 2 5 ''ana@ipa.test'' ''Eve'' ''y'' VIEWER)"
    "emails_map id sample_users ''ana@ipa.test'' = Some (new_user 1 0 ''ana@ipa.test'' ''Ana'' ''x'' ADMIN)"
    by (simp_all add: users_ok_def sample_users_def table_map_def user_fits_def new_user_def text_ok_def)
  then show ?thesis
    using email_registers_one_user [OF user_engine.sql_engine_axioms, of id sample_users 2 5
        "''ana@ipa.test''" "''Eve''" "''y''" VIEWER "''ana@ipa.test''"]
    by (simp add: get_by_email_exec [OF user_engine.sql_engine_axioms])
qed

end
