(* ===== verification/AuditLog.thy ===== *)
theory AuditLog
  imports Sql Enums "HOL-Library.Product_Lexorder"
begin

text \<open>
  Models \<open>src/ipa/db/repositories/event.py\<close> and the \<open>document_events\<close> table: the audit log of a
  document, which is appended to and listed and never changed. An id is the next value of the
  table's sequence, an argument here, as is the time of the transaction.
\<close>

section \<open>The table\<close>

record event_row =
  de_id :: int
  de_document_id :: uuid
  de_step :: "pipeline_step option"
  de_event_type :: string
  de_payload :: "json_dict option"
  de_actor :: "string option"
  de_trace_id :: "string option"
  de_created_at :: timestamp

definition event_fits :: "event_row \<Rightarrow> bool" where
  "event_fits r \<longleftrightarrow>
     int8 (de_id r) \<and> text_ok (de_event_type r) \<and> nullable json_dict_ok (de_payload r)
     \<and> nullable text_ok (de_actor r) \<and> nullable text_ok (de_trace_id r)"

definition events_ok :: "uuid set \<Rightarrow> event_row list \<Rightarrow> bool" where
  "events_ok docs t \<longleftrightarrow> distinct (map de_id t) \<and> (\<forall>r \<in> set t. de_document_id r \<in> docs)"

section \<open>The repository\<close>

definition append_event ::
  "event_row engine \<Rightarrow> int \<Rightarrow> timestamp \<Rightarrow> uuid \<Rightarrow> string \<Rightarrow> pipeline_step option \<Rightarrow> json_dict option
     \<Rightarrow> string option \<Rightarrow> string option \<Rightarrow> event_row list \<Rightarrow> (py_exn + event_row) \<times> event_row list" where
  "append_event ex new_id now document_id event_type step payload actor trace_id =
     insert_row ex (\<lambda>r. de_id r = new_id)
       \<lparr>de_id = new_id, de_document_id = document_id, de_step = step, de_event_type = event_type,
        de_payload = payload, de_actor = actor, de_trace_id = trace_id, de_created_at = now\<rparr>"

definition list_events ::
  "event_row engine \<Rightarrow> uuid \<Rightarrow> int \<Rightarrow> event_row list \<Rightarrow> (py_exn + event_row list) \<times> event_row list" where
  "list_events ex document_id limit =
     ex (Select (\<lambda>r. de_document_id r = document_id)
           (\<lambda>a b. de_created_at a < de_created_at b
                  \<or> de_created_at a = de_created_at b \<and> de_id a \<le> de_id b) (Some limit) 0)"

section \<open>Lemmas\<close>

lemma events_ok_perm: "mset t' = mset t \<Longrightarrow> events_ok docs t \<Longrightarrow> events_ok docs t'"
  unfolding events_ok_def by (metis distinct_map_mset set_mset_mset)

interpretation event_engine: sql_engine "pg_execute event_fits (events_ok docs)" event_fits "events_ok docs"
  for docs
  by (rule pg_execute_sql_engine) (rule events_ok_perm)

text \<open>The log of a document: its events by time, and by id where the times are equal.\<close>

definition log_key :: "event_row \<Rightarrow> timestamp \<times> int" where
  "log_key r = (de_created_at r, de_id r)"

definition event_log :: "uuid \<Rightarrow> event_row list \<Rightarrow> event_row list" where
  "event_log d t = sort_key log_key (filter (\<lambda>r. de_document_id r = d) t)"

lemma log_key_le:
  "de_created_at a < de_created_at b \<or> de_created_at a = de_created_at b \<and> de_id a \<le> de_id b \<longleftrightarrow>
     log_key a \<le> log_key b"
  by (auto simp: log_key_def less_eq_prod_def)

lemma distinct_log_key: "events_ok docs t \<Longrightarrow> distinct (map log_key (filter p t))"
proof -
  assume "events_ok docs t"
  then have "distinct (map (snd \<circ> log_key) (filter p t))"
    by (simp add: events_ok_def log_key_def comp_def distinct_map_filter)
  then show ?thesis unfolding map_map [symmetric] by (simp only: distinct_map simp_thms)
qed

lemma event_log_perm:
  assumes "events_ok docs t" and "mset t' = mset t"
  shows "event_log d t' = event_log d t"
  unfolding event_log_def
  by (rule sort_key_unique [OF _ distinct_log_key [OF assms(1)] sorted_wrt_sort_key])
    (simp add: assms(2))

lemma list_events_exec:
  assumes "sql_engine ex event_fits (events_ok docs)" and "events_ok docs t"
    and "0 \<le> limit" and "int8 limit"
  shows "list_events ex d limit t = (Inr (take (nat limit) (event_log d t)), t)"
proof -
  have "window_ok (Some limit) 0" using assms(3,4) by (simp add: window_ok_def int8_def)
  then obtain s where "list_events ex d limit t = (Inr (window (Some limit) 0 s), t)"
    and s: "mset s = mset (filter (\<lambda>r. de_document_id r = d) t)" "sorted_wrt (\<lambda>a b. log_key a \<le> log_key b) s"
    using sql_engine.select_by [OF assms(1), of "Some limit" 0 "\<lambda>r. de_document_id r = d" log_key t]
    by (auto simp: list_events_def log_key_le)
  moreover have "s = event_log d t"
    unfolding event_log_def by (rule sort_key_unique [OF s(1) distinct_log_key [OF assms(2)] s(2)])
  ultimately show ?thesis by (simp add: window_def)
qed

lemma event_log_snoc:
  assumes "events_ok docs (t @ [n])"
    and "\<forall>r \<in> set t. de_document_id r = de_document_id n \<longrightarrow> log_key r \<le> log_key n"
  shows "event_log d (t @ [n]) = event_log d t @ (if de_document_id n = d then [n] else [])"
proof (rule sort_key_unique [symmetric, of _ "filter (\<lambda>r. de_document_id r = d) (t @ [n])" log_key,
      folded event_log_def])
  show "distinct (map log_key (filter (\<lambda>r. de_document_id r = d) (t @ [n])))"
    by (rule distinct_log_key [OF assms(1)])
  show "sorted_wrt (\<lambda>a b. log_key a \<le> log_key b) (event_log d t @ (if de_document_id n = d then [n] else []))"
    using assms(2) by (auto simp: sorted_wrt_append event_log_def sorted_wrt_sort_key)
qed (simp add: event_log_def)

section \<open>Properties\<close>

definition sample_event :: "int \<Rightarrow> timestamp \<Rightarrow> string \<Rightarrow> event_row" where
  "sample_event i now ty =
     \<lparr>de_id = i, de_document_id = 1, de_step = None, de_event_type = ty, de_payload = None,
      de_actor = None, de_trace_id = None, de_created_at = now\<rparr>"



end
