(* ===== verification/Webhooks.thy ===== *)
theory Webhooks
  imports Sql Enums
begin

text \<open>
  Models \<open>src/ipa/db/repositories/webhook.py\<close> with the \<open>webhooks\<close> and \<open>webhook_deliveries\<close> tables:
  registering a webhook, listing the active ones, recording a delivery attempt and its outcome.
  The id of a delivery is the next value of the table's sequence, an argument here. The webhooks a
  delivery may refer to are the argument \<open>hooks\<close> of its constraints.
\<close>

section \<open>The tables\<close>

record webhook_row =
  wh_id :: uuid
  wh_url :: string
  wh_secret :: string
  wh_events :: "string list"
  wh_is_active :: bool
  wh_created_at :: timestamp
  wh_updated_at :: timestamp

definition webhook_fits :: "webhook_row \<Rightarrow> bool" where
  "webhook_fits r \<longleftrightarrow> text_ok (wh_url r) \<and> text_ok (wh_secret r) \<and> list_all text_ok (wh_events r)"

definition webhooks_ok :: "webhook_row list \<Rightarrow> bool" where
  "webhooks_ok t \<longleftrightarrow> distinct (map wh_id t)"

record delivery_row =
  wd_id :: int
  wd_webhook_id :: uuid
  wd_event_type :: string
  wd_payload :: "json_dict option"
  wd_status :: webhook_delivery_status
  wd_attempt :: int
  wd_response_status :: "int option"
  wd_error :: "string option"
  wd_delivered_at :: "timestamp option"
  wd_created_at :: timestamp

definition delivery_fits :: "delivery_row \<Rightarrow> bool" where
  "delivery_fits r \<longleftrightarrow>
     int8 (wd_id r) \<and> text_ok (wd_event_type r) \<and> nullable json_dict_ok (wd_payload r)
     \<and> int4 (wd_attempt r) \<and> nullable int4 (wd_response_status r) \<and> nullable text_ok (wd_error r)"

definition deliveries_ok :: "uuid set \<Rightarrow> delivery_row list \<Rightarrow> bool" where
  "deliveries_ok hooks t \<longleftrightarrow> distinct (map wd_id t) \<and> (\<forall>r \<in> set t. wd_webhook_id r \<in> hooks)"

section \<open>The repository\<close>

definition create_webhook ::
  "webhook_row engine \<Rightarrow> uuid \<Rightarrow> timestamp \<Rightarrow> string \<Rightarrow> string \<Rightarrow> string list
     \<Rightarrow> webhook_row list \<Rightarrow> (py_exn + webhook_row) \<times> webhook_row list" where
  "create_webhook ex new_id now url secret events =
     insert_row ex (\<lambda>r. wh_id r = new_id)
       \<lparr>wh_id = new_id, wh_url = url, wh_secret = secret, wh_events = events, wh_is_active = True,
        wh_created_at = now, wh_updated_at = now\<rparr>"

definition get_webhook ::
  "webhook_row engine \<Rightarrow> uuid \<Rightarrow> webhook_row list \<Rightarrow> (py_exn + webhook_row option) \<times> webhook_row list"
where
  "get_webhook ex webhook_id = fetch_one ex (\<lambda>r. wh_id r = webhook_id)"

definition list_active ::
  "webhook_row engine \<Rightarrow> webhook_row list \<Rightarrow> (py_exn + webhook_row list) \<times> webhook_row list" where
  "list_active ex = ex (Select wh_is_active (\<lambda>a b. wh_created_at a \<le> wh_created_at b) None 0)"

text \<open>A pending delivery: the columns \<open>record_delivery\<close> does not give have their defaults.\<close>

definition new_delivery ::
  "int \<Rightarrow> timestamp \<Rightarrow> uuid \<Rightarrow> string \<Rightarrow> json_dict option \<Rightarrow> int \<Rightarrow> delivery_row" where
  "new_delivery i now webhook_id event_type payload attempt =
     \<lparr>wd_id = i, wd_webhook_id = webhook_id, wd_event_type = event_type, wd_payload = payload,
      wd_status = DELIVERY_PENDING, wd_attempt = attempt, wd_response_status = None, wd_error = None,
      wd_delivered_at = None, wd_created_at = now\<rparr>"

definition record_delivery ::
  "delivery_row engine \<Rightarrow> int \<Rightarrow> timestamp \<Rightarrow> uuid \<Rightarrow> string \<Rightarrow> json_dict option \<Rightarrow> int
     \<Rightarrow> delivery_row list \<Rightarrow> (py_exn + delivery_row) \<times> delivery_row list" where
  "record_delivery ex new_id now webhook_id event_type payload attempt =
     insert_row ex (\<lambda>r. wd_id r = new_id) (new_delivery new_id now webhook_id event_type payload attempt)"

text \<open>The assignments of \<open>complete_delivery\<close>.\<close>

definition completed ::
  "timestamp \<Rightarrow> webhook_delivery_status \<Rightarrow> int option \<Rightarrow> string option \<Rightarrow> delivery_row \<Rightarrow> delivery_row" where
  "completed now status response_status error r =
     r\<lparr>wd_status := status, wd_response_status := response_status, wd_error := error,
       wd_delivered_at := (if status = DELIVERED then Some now else None)\<rparr>"

text \<open>An id outside \<open>bigint\<close> is refused as a parameter.\<close>

definition complete_delivery ::
  "delivery_row engine \<Rightarrow> timestamp \<Rightarrow> int \<Rightarrow> webhook_delivery_status \<Rightarrow> int option \<Rightarrow> string option
     \<Rightarrow> delivery_row list \<Rightarrow> (py_exn + delivery_row option) \<times> delivery_row list" where
  "complete_delivery ex now delivery_id status response_status error =
     (if int8 delivery_id then
        update_one ex (\<lambda>r. wd_id r = delivery_id) (completed now status response_status error)
      else raiseE (DBAPIError ''value out of int64 range''))"

section \<open>Lemmas\<close>

lemma webhooks_ok_perm: "mset t' = mset t \<Longrightarrow> webhooks_ok t \<Longrightarrow> webhooks_ok t'"
  unfolding webhooks_ok_def by (metis distinct_map_mset)

lemma deliveries_ok_perm: "mset t' = mset t \<Longrightarrow> deliveries_ok hooks t \<Longrightarrow> deliveries_ok hooks t'"
  unfolding deliveries_ok_def by (metis distinct_map_mset set_mset_mset)

interpretation webhook_engine: sql_engine "pg_execute webhook_fits webhooks_ok" webhook_fits webhooks_ok
  by (rule pg_execute_sql_engine) (rule webhooks_ok_perm)

interpretation delivery_engine:
  sql_engine "pg_execute delivery_fits (deliveries_ok hooks)" delivery_fits "deliveries_ok hooks" for hooks
  by (rule pg_execute_sql_engine) (rule deliveries_ok_perm)

abbreviation deliveries_map :: "delivery_row list \<Rightarrow> int \<Rightarrow> delivery_row option" where
  "deliveries_map t \<equiv> table_map wd_id t"

lemma delivery_simps [simp]:
  "wd_id (new_delivery i now w e p a) = i" "wd_webhook_id (new_delivery i now w e p a) = w"
  "wd_id (completed now s c m r) = wd_id r" "wd_webhook_id (completed now s c m r) = wd_webhook_id r"
  by (simp_all add: new_delivery_def completed_def)

lemma deliveries_ok_id: "deliveries_ok hooks t \<Longrightarrow> distinct (map wd_id t)"
  by (simp add: deliveries_ok_def)

text \<open>What identifies an attempt: none of it is ever assigned again.\<close>

definition request_of :: "delivery_row \<Rightarrow> uuid \<times> string \<times> json_dict option \<times> int \<times> timestamp" where
  "request_of r = (wd_webhook_id r, wd_event_type r, wd_payload r, wd_attempt r, wd_created_at r)"

lemma request_of_completed [simp]: "request_of (completed now s c m r) = request_of r"
  by (simp add: request_of_def completed_def)

text \<open>A delivery time is recorded exactly for the delivered ones.\<close>

definition timed :: "delivery_row \<Rightarrow> bool" where
  "timed r \<longleftrightarrow> (wd_status r = DELIVERED) = (wd_delivered_at r \<noteq> None)"

lemma timed_new [simp]: "timed (new_delivery i now w e p a)"
  by (simp add: timed_def new_delivery_def)

lemma timed_completed [simp]: "timed (completed now s c m r)"
  by (simp add: timed_def completed_def)

lemma complete_delivery_cases:
  assumes eng: "sql_engine ex delivery_fits (deliveries_ok hooks)" and ok: "deliveries_ok hooks t"
  obtains (refused) e where "complete_delivery ex now i s c m t = (Inl e, t)"
  | (recorded) t' where "complete_delivery ex now i s c m t =
        (Inr (map_option (completed now s c m) (deliveries_map t i)), t')"
      "deliveries_map t' = (case deliveries_map t i of None \<Rightarrow> deliveries_map t
         | Some r \<Rightarrow> (deliveries_map t)(i \<mapsto> completed now s c m r))" "deliveries_ok hooks t'"
proof (cases "int8 i")
  case False
  then show thesis using refused by (simp add: complete_delivery_def)
next
  case True
  show thesis
    by (rule sql_engine.update_one_cases [OF eng ok deliveries_ok_id [OF ok],
          of i "\<lambda>_. True" "completed now s c m"])
      (use refused recorded True in \<open>auto simp: complete_delivery_def cas_def split: option.splits\<close>)
qed

lemma record_delivery_cases:
  assumes eng: "sql_engine ex delivery_fits (deliveries_ok hooks)" and ok: "deliveries_ok hooks t"
  obtains (refused) e where "record_delivery ex i now w e' p a t = (Inl e, t)"
  | (recorded) t' where "record_delivery ex i now w e' p a t = (Inr (new_delivery i now w e' p a), t')"
      "deliveries_map t i = None" "deliveries_map t' = (deliveries_map t)(i \<mapsto> new_delivery i now w e' p a)"
      "deliveries_ok hooks t'"
proof -
  let ?n = "new_delivery i now w e' p a"
  have k: "wd_id r = i \<longleftrightarrow> wd_id r = wd_id ?n" for r by simp
  have d: "distinct (map wd_id (t @ [?n]))" if "deliveries_ok hooks (t @ [?n])"
    using that by (rule deliveries_ok_id)
  show thesis
  proof (rule sql_engine.insert_row_cases [OF eng ok d k])
    fix t1 assume ok1: "deliveries_ok hooks (t @ [?n])"
      and run: "insert_row ex (\<lambda>r. wd_id r = i) ?n t = (Inr ?n, t1)"
      and t1: "mset t1 = mset (t @ [?n])" "deliveries_ok hooks t1"
    have new: "i \<notin> wd_id ` set t" using d [OF ok1] by auto
    have "deliveries_map t1 = deliveries_map (t @ [?n])"
      using d [OF ok1] t1(1) by (rule table_map_perm)
    also have "\<dots> = (deliveries_map t)(i \<mapsto> ?n)"
      using table_map_snoc [of wd_id ?n t] new by simp
    finally show thesis
      using recorded [OF _ table_map_NoneI [OF new]] run t1(2) by (simp add: record_delivery_def)
  qed (use refused in \<open>auto simp: record_delivery_def\<close>)
qed

section \<open>Runs\<close>

text \<open>Any calls, in any order, with any results, from the table \<open>t0\<close>.\<close>

inductive delivery_run :: "delivery_row engine \<Rightarrow> delivery_row list \<Rightarrow> delivery_row list \<Rightarrow> bool"
  for ex t0 where
  start: "delivery_run ex t0 t0"
| recording: "delivery_run ex t0 t \<Longrightarrow> record_delivery ex i now w e p a t = (res, t') \<Longrightarrow> delivery_run ex t0 t'"
| completing: "delivery_run ex t0 t \<Longrightarrow> complete_delivery ex now i s c m t = (res', t') \<Longrightarrow> delivery_run ex t0 t'"

lemma delivery_run_keeps:
  assumes "delivery_run ex t0 t" and eng: "sql_engine ex delivery_fits (deliveries_ok hooks)"
    and "deliveries_ok hooks t0"
  shows "deliveries_ok hooks t \<and> (\<forall>i r. deliveries_map t0 i = Some r \<longrightarrow>
      (\<exists>r'. deliveries_map t i = Some r' \<and> request_of r' = request_of r))
    \<and> (\<forall>i r. deliveries_map t i = Some r \<longrightarrow> timed r \<or> deliveries_map t0 i = Some r)"
  using assms(1)
proof induction
  case start
  then show ?case using assms(3) by simp
next
  case (recording t i now w e p a res t')
  then have ok: "deliveries_ok hooks t" by blast
  show ?case
  proof (rule record_delivery_cases [OF eng ok, of i now w e p a])
    fix t1 assume "record_delivery ex i now w e p a t = (Inr (new_delivery i now w e p a), t1)"
      and "deliveries_map t i = None" "deliveries_map t1 = (deliveries_map t)(i \<mapsto> new_delivery i now w e p a)"
      and "deliveries_ok hooks t1"
    then show ?thesis using recording by force
  qed (use recording in simp)
next
  case (completing t now i s c m res' t')
  then have ok: "deliveries_ok hooks t" by blast
  show ?case
  proof (rule complete_delivery_cases [OF eng ok, of now i s c m])
    fix e assume "complete_delivery ex now i s c m t = (Inl e, t)"
    with completing show ?thesis by simp
  next
    fix t1
    assume run: "complete_delivery ex now i s c m t =
        (Inr (map_option (completed now s c m) (deliveries_map t i)), t1)"
      and m: "deliveries_map t1 = (case deliveries_map t i of None \<Rightarrow> deliveries_map t
         | Some r \<Rightarrow> (deliveries_map t)(i \<mapsto> completed now s c m r))" and ok1: "deliveries_ok hooks t1"
    have "\<exists>r'. deliveries_map t1 j = Some r' \<and> request_of r' = request_of r"
      if "deliveries_map t j = Some r" for j r
      using that by (auto simp: m split: option.splits)
    moreover have "timed r \<or> deliveries_map t j = Some r" if "deliveries_map t1 j = Some r" for j r
      using that by (auto simp: m split: option.splits if_splits)
    moreover have "t' = t1" using run completing by simp
    ultimately show ?thesis using completing ok1 by metis
  qed
qed

section \<open>Properties\<close>

text \<open>
  C36. However attempts are recorded and completed, in any order and with any call refused, no
  attempt is lost or becomes an attempt of another request: its webhook, event, payload, attempt
  number and creation time stay; and every attempt the calls wrote has a delivery time exactly
  when its status is delivered.
\<close>

theorem delivery_attempts_are_kept:
  assumes "sql_engine ex delivery_fits (deliveries_ok hooks)" and "deliveries_ok hooks t0"
    and "delivery_run ex t0 t"
  shows "(\<forall>i r. deliveries_map t0 i = Some r \<longrightarrow> (\<exists>r'. deliveries_map t i = Some r'
      \<and> wd_webhook_id r' = wd_webhook_id r \<and> wd_event_type r' = wd_event_type r
      \<and> wd_payload r' = wd_payload r \<and> wd_attempt r' = wd_attempt r \<and> wd_created_at r' = wd_created_at r))
    \<and> (\<forall>i r. deliveries_map t i = Some r \<and> deliveries_map t0 i \<noteq> Some r \<longrightarrow>
          (wd_status r = DELIVERED \<longleftrightarrow> wd_delivered_at r \<noteq> None))"
  using delivery_run_keeps [OF assms(3,1,2)] unfolding request_of_def timed_def by fastforce

lemma delivery_attempts_are_kept_witness:
  "\<exists>t r. delivery_run (pg_execute delivery_fits (deliveries_ok {1})) [] t \<and> deliveries_map t 5 = Some r
    \<and> wd_status r = DELIVERED \<and> wd_delivered_at r \<noteq> None"
proof -
  let ?ex = "pg_execute delivery_fits (deliveries_ok {1})"
  have "record_delivery ?ex 5 10 1 ''completed'' None 1 [] =
      (Inr (new_delivery 5 10 1 ''completed'' None 1), [new_delivery 5 10 1 ''completed'' None 1])"
    by (simp add: record_delivery_def insert_row_def seqE_def commit_rows_def refresh_def fetch_one_def
        delivery_fits_def deliveries_ok_def text_ok_def int8_def window_ok_def window_def new_delivery_def)
  note run = delivery_run.recording [OF delivery_run.start this]
  have "complete_delivery ?ex 12 5 DELIVERED (Some 200) None [new_delivery 5 10 1 ''completed'' None 1] =
      (Inr (Some (completed 12 DELIVERED (Some 200) None (new_delivery 5 10 1 ''completed'' None 1))),
       [completed 12 DELIVERED (Some 200) None (new_delivery 5 10 1 ''completed'' None 1)])"
    by (simp add: complete_delivery_def update_one_def seqE_def commit_rows_def apply_update_def Let_def
        delivery_fits_def deliveries_ok_def text_ok_def int8_def new_delivery_def completed_def)
  note run = delivery_run.completing [OF run this]
  let ?r = "completed 12 DELIVERED (Some 200) None (new_delivery 5 10 1 ''completed'' None 1)"
  have "deliveries_map [?r] 5 = Some ?r" "wd_status ?r = DELIVERED"
    by (simp_all add: table_map_def completed_def)
  then show ?thesis
    using delivery_attempts_are_kept [OF delivery_engine.sql_engine_axioms _ run] run
    by (fastforce simp: deliveries_ok_def table_map_def)
qed

end
