(* ===== verification/Sessions.thy ===== *)
theory Sessions
  imports Documents Config
begin

text \<open>
  Models \<open>src/ipa/db/session.py\<close>: the engine that is built once per process, and the transactional
  scope of a session. The driver's engine and session are arguments: creating and disposing an
  engine, and committing, rolling back and closing a session, each of which may raise. The locale
  \<open>db_session\<close> states what a session promises of them.
\<close>

section \<open>The engine\<close>

record engine_options =
  eo_dsn :: string
  eo_pool_size :: int
  eo_echo :: bool
  eo_pool_pre_ping :: bool

definition engine_options_of :: "settings \<Rightarrow> engine_options" where
  "engine_options_of st =
     \<lparr>eo_dsn = pg_dsn (postgres st), eo_pool_size = pg_pool_size (postgres st),
      eo_echo = pg_echo (postgres st), eo_pool_pre_ping = True\<rparr>"

text \<open>
  \<open>lru_cache(maxsize=1)\<close> of a function with no arguments: its first result is kept, an exception is
  not. The state is the cache.
\<close>

definition get_engine ::
  "(engine_options \<Rightarrow> py_exn + 'e) \<Rightarrow> settings \<Rightarrow> 'e option \<Rightarrow> (py_exn + 'e) \<times> 'e option" where
  "get_engine create_async_engine st cache =
     (case cache of
        Some e \<Rightarrow> (Inr e, cache)
      | None \<Rightarrow>
          (case create_async_engine (engine_options_of st) of
             Inl x \<Rightarrow> (Inl x, None)
           | Inr e \<Rightarrow> (Inr e, Some e)))"

text \<open>The factory keeps the attributes of an object loaded after a commit.\<close>

record 'e session_factory =
  sf_engine :: 'e
  sf_expire_on_commit :: bool

definition get_sessionmaker ::
  "(engine_options \<Rightarrow> py_exn + 'e) \<Rightarrow> settings \<Rightarrow> 'e option \<Rightarrow> (py_exn + 'e session_factory) \<times> 'e option" where
  "get_sessionmaker create_async_engine st =
     seqE (get_engine create_async_engine st) (\<lambda>e. retE \<lparr>sf_engine = e, sf_expire_on_commit = False\<rparr>)"

definition dispose_engine ::
  "(engine_options \<Rightarrow> py_exn + 'e) \<Rightarrow> ('e \<Rightarrow> py_exn + unit) \<Rightarrow> settings
     \<Rightarrow> 'e option \<Rightarrow> (py_exn + unit) \<times> 'e option" where
  "dispose_engine create_async_engine dispose st =
     seqE (get_engine create_async_engine st) (\<lambda>engine.
     seqE (\<lambda>cache. (Inr (), None)) (\<lambda>_ cache. (dispose engine, cache)))"

section \<open>The scope of a session\<close>

text \<open>
  \<open>session_scope\<close>: the block is the argument \<open>body\<close>; leaving \<open>async with\<close> closes the session.
  \<open>get_session\<close> yields the session of such a scope, so that the request is its block.
\<close>

definition session_scope ::
  "('s \<Rightarrow> (py_exn + unit) \<times> 's) \<Rightarrow> ('s \<Rightarrow> (py_exn + unit) \<times> 's) \<Rightarrow> ('s \<Rightarrow> (py_exn + unit) \<times> 's)
     \<Rightarrow> ('s \<Rightarrow> (py_exn + 'a) \<times> 's) \<Rightarrow> 's \<Rightarrow> (py_exn + 'a) \<times> 's" where
  "session_scope commit rollback close body =
     finallyE
       (catchE (seqE body (\<lambda>x. seqE commit (\<lambda>_. retE x)))
          (\<lambda>e. seqE rollback (\<lambda>_. raiseE e)))
       close"

definition get_session ::
  "('s \<Rightarrow> (py_exn + unit) \<times> 's) \<Rightarrow> ('s \<Rightarrow> (py_exn + unit) \<times> 's) \<Rightarrow> ('s \<Rightarrow> (py_exn + unit) \<times> 's)
     \<Rightarrow> ('s \<Rightarrow> (py_exn + 'a) \<times> 's) \<Rightarrow> 's \<Rightarrow> (py_exn + 'a) \<times> 's" where
  "get_session commit rollback close request = session_scope commit rollback close request"

section \<open>What a session promises\<close>

text \<open>
  \<open>committed s\<close> is what other sessions see and \<open>working s\<close> what this one sees. A commit that raises
  may or may not have reached the database.
\<close>

locale db_session =
  fixes committed working :: "'s \<Rightarrow> 'db" and is_open :: "'s \<Rightarrow> bool"
    and commit rollback close :: "'s \<Rightarrow> (py_exn + unit) \<times> 's"
  assumes commit: "commit s = (r, s') \<Longrightarrow>
      (case r of Inr _ \<Rightarrow> committed s' = working s | Inl _ \<Rightarrow> committed s' \<in> {committed s, working s})"
    and rollback: "committed (snd (rollback s)) = committed s"
    and close: "committed (snd (close s)) = committed s \<and> \<not> is_open (snd (close s))"
begin

lemma scope_outcome:
  assumes "session_scope commit rollback close body s = (r, s')" and "body s = (b, s1)"
  shows "\<not> is_open s'"
    and "\<exists>x. b = Inr x \<and> (r = Inr x \<longrightarrow> committed s' = working s1)
          \<and> committed s' \<in> {committed s1, working s1} \<and> (r = Inr x \<or> (\<exists>e. r = Inl e))
      \<or> (\<exists>e. b = Inl e \<and> committed s' = committed s1 \<and> (\<exists>e'. r = Inl e'))"
proof -
  obtain r2 s2 where c: "commit s1 = (r2, s2)" by fastforce
  obtain r3 s3 where rb: "rollback s1 = (r3, s3)" by fastforce
  obtain r4 s4 where rb2: "rollback s2 = (r4, s4)" by fastforce
  note laws = commit [OF c] rollback [of s1] rollback [of s2] close [of s2] close [of s3] close [of s4]
  show "\<not> is_open s'"
    using assms c rb rb2 laws
    by (auto simp: session_scope_def finallyE_def catchE_def seqE_def split: sum.splits prod.splits)
  show "\<exists>x. b = Inr x \<and> (r = Inr x \<longrightarrow> committed s' = working s1)
          \<and> committed s' \<in> {committed s1, working s1} \<and> (r = Inr x \<or> (\<exists>e. r = Inl e))
      \<or> (\<exists>e. b = Inl e \<and> committed s' = committed s1 \<and> (\<exists>e'. r = Inl e'))"
    using assms c rb rb2 laws
    by (auto simp: session_scope_def finallyE_def catchE_def seqE_def split: sum.splits prod.splits)
qed

end

section \<open>A session\<close>

text \<open>Its plan gives the calls that fail, with the exception each raises.\<close>

record 'db pg_session =
  ss_committed :: 'db
  ss_working :: 'db
  ss_open :: bool
  ss_plan :: "py_exn option list"

fun planned :: "('db pg_session \<Rightarrow> 'db pg_session) \<Rightarrow> 'db pg_session \<Rightarrow> (py_exn + unit) \<times> 'db pg_session" where
  "planned f s =
     (case ss_plan s of
        Some e # ps \<Rightarrow> (Inl e, s\<lparr>ss_plan := ps\<rparr>)
      | None # ps \<Rightarrow> (Inr (), f (s\<lparr>ss_plan := ps\<rparr>))
      | [] \<Rightarrow> (Inr (), f s))"

definition pg_commit :: "'db pg_session \<Rightarrow> (py_exn + unit) \<times> 'db pg_session" where
  "pg_commit = planned (\<lambda>s. s\<lparr>ss_committed := ss_working s\<rparr>)"

definition pg_rollback :: "'db pg_session \<Rightarrow> (py_exn + unit) \<times> 'db pg_session" where
  "pg_rollback = planned (\<lambda>s. s\<lparr>ss_working := ss_committed s\<rparr>)"

definition pg_close :: "'db pg_session \<Rightarrow> (py_exn + unit) \<times> 'db pg_session" where
  "pg_close s = (fst (planned id s), (snd (planned id s))\<lparr>ss_open := False\<rparr>)"

text \<open>A repository operation works on what the session sees.\<close>

definition on_working :: "('db \<Rightarrow> (py_exn + 'a) \<times> 'db) \<Rightarrow> 'db pg_session \<Rightarrow> (py_exn + 'a) \<times> 'db pg_session" where
  "on_working m s = (case m (ss_working s) of (r, w) \<Rightarrow> (r, s\<lparr>ss_working := w\<rparr>))"

interpretation pg: db_session ss_committed ss_working ss_open pg_commit pg_rollback pg_close
  by unfold_locales
    (auto simp: pg_commit_def pg_rollback_def pg_close_def split: list.splits option.splits)

section \<open>Properties\<close>

text \<open>
  C15. A transaction is all or nothing. When the scope returns, its block returned the same value and
  what the block did is committed; when the block raises, the scope raises and nothing is committed;
  a failing commit leaves one or the other. The session is closed in every case.
\<close>

theorem session_scope_is_atomic:
  assumes "db_session committed working is_open commit rollback close"
    and "session_scope commit rollback close body s = (r, s')"
    and "committed (snd (body s)) = committed s"
  shows "\<not> is_open s'
    \<and> (case r of
         Inr x \<Rightarrow> fst (body s) = Inr x \<and> committed s' = working (snd (body s))
       | Inl _ \<Rightarrow> committed s' = committed s
           \<or> (\<exists>x. fst (body s) = Inr x) \<and> committed s' = working (snd (body s)))"
proof -
  obtain b s1 where b: "body s = (b, s1)" by fastforce
  show ?thesis
    using db_session.scope_outcome [OF assms(1,2) b] assms(3) b by (auto split: sum.splits)
qed

definition sample_session :: "document_row list \<Rightarrow> document_row list pg_session" where
  "sample_session t = \<lparr>ss_committed = t, ss_working = t, ss_open = True, ss_plan = []\<rparr>"

lemma session_scope_is_atomic_witness:
  "\<exists>e s'. get_session pg_commit pg_rollback pg_close
      (on_working (create_document sample_document_engine 9 9 (sample_values (replicate 64 CHR ''a''))))
      (sample_session sample_documents) = (Inl e, s')
    \<and> ss_committed s' = sample_documents \<and> \<not> ss_open s'"
proof -
  let ?body = "on_working (create_document sample_document_engine 9 9 (sample_values (replicate 64 CHR ''a'')))"
  let ?s = "sample_session sample_documents"
  have dup: "\<not> documents_ok {} (sample_documents @ [new_document 9 9 (sample_values (replicate 64 CHR ''a''))])"
    by (simp add: documents_ok_def sample_documents_def sample_values_def)
  obtain e where create: "create_document sample_document_engine 9 9 (sample_values (replicate 64 CHR ''a''))
      sample_documents = (Inl e, sample_documents)"
    by (rule create_document_cases [OF document_engine.sql_engine_axioms sample_documents_ok,
          of 9 9 "sample_values (replicate 64 CHR ''a'')"]) (use dup in auto)
  then have body: "?body ?s = (Inl e, ?s)" by (simp add: on_working_def sample_session_def)
  obtain r s' where run: "session_scope pg_commit pg_rollback pg_close ?body ?s = (r, s')" by fastforce
  note outcome = session_scope_is_atomic [OF pg.db_session_axioms run, unfolded body fst_conv snd_conv, OF refl]
  have "ss_committed ?s = sample_documents" by (simp add: sample_session_def)
  moreover obtain e' where "r = Inl e'" using outcome by (cases r) simp_all
  ultimately show ?thesis
    using outcome run unfolding get_session_def by auto
qed

text \<open>
  One engine per process: once \<open>get_engine\<close> has returned, every later call returns the same engine
  and none is created, until \<open>dispose_engine\<close>, which forgets it even when disposing it raises.
\<close>

lemma engine_is_shared_until_disposed:
  assumes "get_engine create st cache = (Inr e, cache1)"
  shows "get_engine create' st' cache1 = (Inr e, cache1)
    \<and> dispose_engine create' dispose st' cache1 = (dispose e, None)"
  using assms by (auto simp: get_engine_def dispose_engine_def seqE_def split: option.splits sum.splits)

end
