(* ===== verification/Stores.thy ===== *)
theory Stores
  imports Blob Content Cache Config
begin

text \<open>
  Models \<open>src/ipa/storage/factory.py\<close> and \<open>src/ipa/storage/health.py\<close>: the process-wide store
  singletons, their initialisation and teardown, and the three health checks. The state is the
  module's variables and the world the clients act on; building a client is an argument for each
  store. The dependencies \<open>blob_store_dep\<close>, \<open>content_store_dep\<close> and \<open>cache_store_dep\<close> return what
  the accessors return.
\<close>

section \<open>Clients and singletons\<close>

type_synonym 'w op = "'w \<Rightarrow> (py_exn + unit) \<times> 'w"

record 'w blob_client =
  bc_call :: "'w s3_client"
  bc_bucket :: string

record 'w content_client =
  mc_create_index :: "index_spec \<Rightarrow> 'w op"
  mc_ping :: "'w op"
  mc_close :: "'w op"

record 'w cache_client =
  kc_call :: "'w redis"
  kc_aclose :: "'w op"

record 'w stores =
  blob_store :: "'w blob_client option"
  content_store :: "'w content_client option"
  cache_store :: "'w cache_client option"

text \<open>How the three constructors build a client from the settings.\<close>

record 'w builders =
  new_blob :: "s3_settings \<Rightarrow> py_exn + 'w blob_client"
  new_content :: "mongo_settings \<Rightarrow> py_exn + 'w content_client"
  new_cache :: "redis_settings \<Rightarrow> env_name \<Rightarrow> py_exn + 'w cache_client"

text \<open>An operation of the world, beside the module's variables.\<close>

definition in_world :: "('w \<Rightarrow> (py_exn + 'a) \<times> 'w) \<Rightarrow> 'v \<times> 'w \<Rightarrow> (py_exn + 'a) \<times> ('v \<times> 'w)" where
  "in_world m s = (case m (snd s) of (r, w) \<Rightarrow> (r, (fst s, w)))"

definition get_blob_store ::
  "'w builders \<Rightarrow> settings \<Rightarrow> 'w stores \<times> 'w \<Rightarrow> (py_exn + 'w blob_client) \<times> ('w stores \<times> 'w)" where
  "get_blob_store bs st = (\<lambda>(v, w).
     case blob_store v of
       Some x \<Rightarrow> (Inr x, (v, w))
     | None \<Rightarrow>
         (case new_blob bs (s3 st) of
            Inl e \<Rightarrow> (Inl e, (v, w))
          | Inr x \<Rightarrow> (Inr x, (v\<lparr>blob_store := Some x\<rparr>, w))))"

definition get_content_store ::
  "'w builders \<Rightarrow> settings \<Rightarrow> 'w stores \<times> 'w \<Rightarrow> (py_exn + 'w content_client) \<times> ('w stores \<times> 'w)" where
  "get_content_store bs st = (\<lambda>(v, w).
     case content_store v of
       Some x \<Rightarrow> (Inr x, (v, w))
     | None \<Rightarrow>
         (case new_content bs (mongo st) of
            Inl e \<Rightarrow> (Inl e, (v, w))
          | Inr x \<Rightarrow> (Inr x, (v\<lparr>content_store := Some x\<rparr>, w))))"

definition get_cache_store ::
  "'w builders \<Rightarrow> settings \<Rightarrow> 'w stores \<times> 'w \<Rightarrow> (py_exn + 'w cache_client) \<times> ('w stores \<times> 'w)" where
  "get_cache_store bs st = (\<lambda>(v, w).
     case cache_store v of
       Some x \<Rightarrow> (Inr x, (v, w))
     | None \<Rightarrow>
         (case new_cache bs (redis st) (env st) of
            Inl e \<Rightarrow> (Inl e, (v, w))
          | Inr x \<Rightarrow> (Inr x, (v\<lparr>cache_store := Some x\<rparr>, w))))"

text \<open>The FastAPI dependencies, and the store of a \<open>cached_json\<close> that is given none.\<close>

definition blob_store_dep ::
  "'w builders \<Rightarrow> settings \<Rightarrow> 'w stores \<times> 'w \<Rightarrow> (py_exn + 'w blob_client) \<times> ('w stores \<times> 'w)" where
  "blob_store_dep bs st = get_blob_store bs st"

definition content_store_dep ::
  "'w builders \<Rightarrow> settings \<Rightarrow> 'w stores \<times> 'w \<Rightarrow> (py_exn + 'w content_client) \<times> ('w stores \<times> 'w)" where
  "content_store_dep bs st = get_content_store bs st"

definition cache_store_dep ::
  "'w builders \<Rightarrow> settings \<Rightarrow> 'w stores \<times> 'w \<Rightarrow> (py_exn + 'w cache_client) \<times> ('w stores \<times> 'w)" where
  "cache_store_dep bs st = get_cache_store bs st"

definition default_cache ::
  "'w builders \<Rightarrow> settings \<Rightarrow> 'w stores \<times> 'w \<Rightarrow> (py_exn + 'w cache_client) \<times> ('w stores \<times> 'w)" where
  "default_cache bs st = get_cache_store bs st"

definition init_storage :: "'w builders \<Rightarrow> settings \<Rightarrow> 'w stores \<times> 'w \<Rightarrow> (py_exn + unit) \<times> ('w stores \<times> 'w)" where
  "init_storage bs st =
     seqE (get_blob_store bs st) (\<lambda>blob.
     seqE (in_world (ensure_bucket (bc_call blob))) (\<lambda>_.
     seqE (get_content_store bs st) (\<lambda>content.
     in_world (ensure_indexes (mc_create_index content)))))"

definition no_stores :: "'w stores" where
  "no_stores = \<lparr>blob_store = None, content_store = None, cache_store = None\<rparr>"

definition close_stores :: "'w stores \<times> 'w \<Rightarrow> (py_exn + unit) \<times> ('w stores \<times> 'w)" where
  "close_stores = (\<lambda>(v, w).
     finallyE
       (seqE (case cache_store v of None \<Rightarrow> retE () | Some k \<Rightarrow> in_world (kc_aclose k)) (\<lambda>_.
        (case content_store v of None \<Rightarrow> retE () | Some c \<Rightarrow> in_world (mc_close c))))
       (\<lambda>(v', w'). (Inr (), (no_stores, w')))
       (v, w))"

section \<open>Health checks\<close>

text \<open>\<open>(ok, detail)\<close>: whatever is raised becomes a detail.\<close>

definition check_blob ::
  "'w builders \<Rightarrow> settings \<Rightarrow> 'w stores \<times> 'w \<Rightarrow> (py_exn + (bool \<times> string)) \<times> ('w stores \<times> 'w)" where
  "check_blob bs st =
     catchE
       (seqE (get_blob_store bs st) (\<lambda>store.
        seqE (in_world (bucket_exists (bc_call store))) (\<lambda>present.
        retE (if present then (True, ''bucket '' @ bc_bucket store @ '' reachable'')
              else (False, ''bucket '' @ bc_bucket store @ '' missing'')))))
       (\<lambda>e. retE (False, ''blob store unavailable: '' @ exn_str e))"

definition check_content ::
  "'w builders \<Rightarrow> settings \<Rightarrow> 'w stores \<times> 'w \<Rightarrow> (py_exn + (bool \<times> string)) \<times> ('w stores \<times> 'w)" where
  "check_content bs st =
     catchE
       (seqE (get_content_store bs st) (\<lambda>store.
        seqE (in_world (mc_ping store)) (\<lambda>_. retE (True, ''mongo ping ok''))))
       (\<lambda>e. retE (False, ''content store unavailable: '' @ exn_str e))"

definition check_cache ::
  "'w builders \<Rightarrow> settings \<Rightarrow> 'w stores \<times> 'w \<Rightarrow> (py_exn + (bool \<times> string)) \<times> ('w stores \<times> 'w)" where
  "check_cache bs st =
     catchE
       (seqE (get_cache_store bs st) (\<lambda>store.
        seqE (in_world (ping (kc_call store))) (\<lambda>_. retE (True, ''redis ping ok''))))
       (\<lambda>e. retE (False, ''cache store unavailable: '' @ exn_str e))"

section \<open>What initialisation relies on\<close>

text \<open>
  A bucket check reports the bucket and changes nothing; making the bucket or an index has its effect
  when it returns, and that effect or none when it raises.
\<close>

locale storage_servers =
  fixes cl :: "'w s3_client" and create_index :: "index_spec \<Rightarrow> 'w op"
    and has_bucket :: "'w \<Rightarrow> bool" and indexes :: "'w \<Rightarrow> index_spec set"
  assumes check: "cl BucketExists w = (r, w') \<Longrightarrow> has_bucket w' = has_bucket w \<and> indexes w' = indexes w
      \<and> (case r of Inr reply \<Rightarrow> reply = SBool (has_bucket w) | Inl _ \<Rightarrow> True)"
    and make: "cl MakeBucket w = (r, w') \<Longrightarrow> indexes w' = indexes w
      \<and> (has_bucket w' \<or> (\<exists>e. r = Inl e) \<and> has_bucket w' = has_bucket w)"
    and index: "create_index i w = (r', w') \<Longrightarrow> has_bucket w' = has_bucket w
      \<and> (indexes w' = insert i (indexes w) \<or> (\<exists>e. r' = Inl e) \<and> indexes w' = indexes w)"
begin

lemma ensure_bucket_outcome:
  assumes "ensure_bucket cl w = (r, w')"
  shows "indexes w' = indexes w \<and> (has_bucket w \<longrightarrow> has_bucket w')
    \<and> (case r of Inr _ \<Rightarrow> has_bucket w' | Inl e \<Rightarrow> \<exists>x. e = IpaExn (blob_error ''ensure_bucket'' x))"
proof -
  obtain r1 w1 where c: "cl BucketExists w = (r1, w1)" by fastforce
  obtain r2 w2 where m: "cl MakeBucket w1 = (r2, w2)" by fastforce
  show ?thesis
    using assms c m check [OF c] make [OF m]
    by (auto simp: ensure_bucket_def wrapping_def catchE_def seqE_def split: sum.splits if_splits)
qed

lemma run_indexes:
  "run_all (map create_index is) w = (r, w') \<Longrightarrow> has_bucket w' = has_bucket w
    \<and> indexes w \<subseteq> indexes w' \<and> indexes w' \<subseteq> indexes w \<union> set is
    \<and> (case r of Inr _ \<Rightarrow> set is \<subseteq> indexes w' | Inl _ \<Rightarrow> True)"
proof (induction "is" arbitrary: w)
  case Nil
  then show ?case by auto
next
  case (Cons i "is")
  obtain r1 w1 where c: "create_index i w = (r1, w1)" by fastforce
  show ?case
    using Cons.prems Cons.IH [of w1] index [OF c] c by (fastforce simp: seqE_def split: sum.splits)
qed

lemma ensure_indexes_outcome:
  assumes "ensure_indexes create_index w = (r, w')"
  shows "has_bucket w' = has_bucket w \<and> indexes w \<subseteq> indexes w'
    \<and> indexes w' \<subseteq> indexes w \<union> set content_indexes
    \<and> (case r of Inr _ \<Rightarrow> set content_indexes \<subseteq> indexes w'
       | Inl e \<Rightarrow> \<exists>x. e = IpaExn (content_error ''ensure_indexes'' x))"
proof -
  obtain r1 w1 where c: "run_all (map create_index content_indexes) w = (r1, w1)" by fastforce
  show ?thesis
    using assms c run_indexes [OF c]
    by (auto simp: ensure_indexes_def wrapping_content_def catchE_def split: sum.splits)
qed

end

section \<open>A world\<close>

record demo_world =
  dw_minio :: minio_state
  dw_indexes :: "index_spec list"
  dw_plan :: "py_exn option list"

definition world_minio :: "demo_world s3_client" where
  "world_minio c w = (case minio c (dw_minio w) of (r, m) \<Rightarrow> (r, w\<lparr>dw_minio := m\<rparr>))"

definition world_index :: "index_spec \<Rightarrow> demo_world op" where
  "world_index i w =
     (case dw_plan w of
        Some e # ps \<Rightarrow> (Inl e, w\<lparr>dw_plan := ps\<rparr>)
      | None # ps \<Rightarrow> (Inr (), w\<lparr>dw_plan := ps, dw_indexes := i # dw_indexes w\<rparr>)
      | [] \<Rightarrow> (Inr (), w\<lparr>dw_indexes := i # dw_indexes w\<rparr>))"

lemma minio_bucket:
  "minio BucketExists s = (r, s') \<Longrightarrow> ms_bucket s' = ms_bucket s
    \<and> (case r of Inr reply \<Rightarrow> reply = SBool (ms_bucket s) | Inl _ \<Rightarrow> True)"
  "minio MakeBucket s = (r, s') \<Longrightarrow> ms_bucket s' \<or> (\<exists>e. r = Inl e) \<and> ms_bucket s' = ms_bucket s"
  by (auto simp: minio_def split: list.splits option.splits if_splits)

interpretation demo_servers:
  storage_servers world_minio world_index "\<lambda>w. ms_bucket (dw_minio w)" "\<lambda>w. set (dw_indexes w)"
proof
  show "ms_bucket (dw_minio w') = ms_bucket (dw_minio w) \<and> set (dw_indexes w') = set (dw_indexes w)
      \<and> (case r of Inr reply \<Rightarrow> reply = SBool (ms_bucket (dw_minio w)) | Inl _ \<Rightarrow> True)"
    if "world_minio BucketExists w = (r, w')" for w r w'
    using that by (auto simp: world_minio_def dest: minio_bucket split: prod.splits)
  show "set (dw_indexes w') = set (dw_indexes w)
      \<and> (ms_bucket (dw_minio w') \<or> (\<exists>e. r = Inl e) \<and> ms_bucket (dw_minio w') = ms_bucket (dw_minio w))"
    if "world_minio MakeBucket w = (r, w')" for w r w'
    using that by (auto simp: world_minio_def dest: minio_bucket split: prod.splits)
qed (auto simp: world_index_def split: list.splits option.splits)

definition demo_builders :: "demo_world builders" where
  "demo_builders =
     \<lparr>new_blob = (\<lambda>st. Inr \<lparr>bc_call = world_minio, bc_bucket = s3_bucket st\<rparr>),
      new_content = (\<lambda>st. Inr \<lparr>mc_create_index = world_index, mc_ping = retE (), mc_close = retE ()\<rparr>),
      new_cache = (\<lambda>st env. Inl (ValueError ''no scheme''))\<rparr>"

definition demo_start :: demo_world where
  "demo_start =
     \<lparr>dw_minio = \<lparr>ms_bucket = False, ms_objects = (\<lambda>_. None), ms_bodies = [], ms_plan = []\<rparr>,
      dw_indexes = [], dw_plan = []\<rparr>"

section \<open>Runs\<close>

text \<open>Any use of the stores by the process but closing them.\<close>

inductive storage_run :: "'w builders \<Rightarrow> settings \<Rightarrow> 'w stores \<times> 'w \<Rightarrow> 'w stores \<times> 'w \<Rightarrow> bool"
  for bs st s0 where
  start: "storage_run bs st s0 s0"
| blob: "storage_run bs st s0 s \<Longrightarrow> storage_run bs st s0 (snd (get_blob_store bs st s))"
| content: "storage_run bs st s0 s \<Longrightarrow> storage_run bs st s0 (snd (get_content_store bs st s))"
| cache: "storage_run bs st s0 s \<Longrightarrow> storage_run bs st s0 (snd (get_cache_store bs st s))"
| init: "storage_run bs st s0 s \<Longrightarrow> storage_run bs st s0 (snd (init_storage bs st s))"
| health_blob: "storage_run bs st s0 s \<Longrightarrow> storage_run bs st s0 (snd (check_blob bs st s))"
| health_content: "storage_run bs st s0 s \<Longrightarrow> storage_run bs st s0 (snd (check_content bs st s))"
| health_cache: "storage_run bs st s0 s \<Longrightarrow> storage_run bs st s0 (snd (check_cache bs st s))"
| used: "storage_run bs st s0 (v, w) \<Longrightarrow> storage_run bs st s0 (v, w')"

text \<open>What one operation may do to the variables: set those that are unset.\<close>

definition keeps_stores :: "('w stores \<times> 'w \<Rightarrow> 'r \<times> ('w stores \<times> 'w)) \<Rightarrow> bool" where
  "keeps_stores m \<longleftrightarrow> (\<forall>v w r v' w'. m (v, w) = (r, (v', w')) \<longrightarrow>
     (blob_store v \<noteq> None \<longrightarrow> blob_store v' = blob_store v)
     \<and> (content_store v \<noteq> None \<longrightarrow> content_store v' = content_store v)
     \<and> (cache_store v \<noteq> None \<longrightarrow> cache_store v' = cache_store v))"

named_theorems keeps \<open>operations that keep the singletons\<close>

lemma keeps_get [keeps]:
  "keeps_stores (get_blob_store bs st)" "keeps_stores (get_content_store bs st)"
  "keeps_stores (get_cache_store bs st)"
  by (auto simp: keeps_stores_def get_blob_store_def get_content_store_def get_cache_store_def
      split: option.splits sum.splits)

lemma keeps_world [keeps]: "keeps_stores (in_world m)"
  by (auto simp: keeps_stores_def in_world_def split: prod.splits)

lemma keeps_retE [keeps]: "keeps_stores (retE x)"
  by (simp add: keeps_stores_def)

lemma keeps_seqE [keeps]:
  assumes "keeps_stores m" and "\<And>a. keeps_stores (k a)"
  shows "keeps_stores (seqE m k)"
  unfolding keeps_stores_def
proof (intro allI impI)
  fix v w r v' w' assume run: "seqE m k (v, w) = (r, (v', w'))"
  obtain r1 v1 w1 where m: "m (v, w) = (r1, (v1, w1))" by (metis surj_pair)
  show "(blob_store v \<noteq> None \<longrightarrow> blob_store v' = blob_store v)
     \<and> (content_store v \<noteq> None \<longrightarrow> content_store v' = content_store v)
     \<and> (cache_store v \<noteq> None \<longrightarrow> cache_store v' = cache_store v)"
  proof (cases r1)
    case (Inl e)
    with run m assms(1) show ?thesis unfolding keeps_stores_def by (simp add: seqE_def) blast
  next
    case (Inr a)
    then have "k a (v1, w1) = (r, (v', w'))" using run m by (simp add: seqE_def)
    with m assms show ?thesis unfolding keeps_stores_def by metis
  qed
qed

lemma keeps_catchE [keeps]:
  assumes "keeps_stores m" and "\<And>e. keeps_stores (h e)"
  shows "keeps_stores (catchE m h)"
  unfolding keeps_stores_def
proof (intro allI impI)
  fix v w r v' w' assume run: "catchE m h (v, w) = (r, (v', w'))"
  obtain r1 v1 w1 where m: "m (v, w) = (r1, (v1, w1))" by (metis surj_pair)
  show "(blob_store v \<noteq> None \<longrightarrow> blob_store v' = blob_store v)
     \<and> (content_store v \<noteq> None \<longrightarrow> content_store v' = content_store v)
     \<and> (cache_store v \<noteq> None \<longrightarrow> cache_store v' = cache_store v)"
  proof (cases r1)
    case (Inl e)
    then have "h e (v1, w1) = (r, (v', w'))" using run m by (simp add: catchE_def)
    with m assms show ?thesis unfolding keeps_stores_def by metis
  next
    case (Inr a)
    with run m assms(1) show ?thesis unfolding keeps_stores_def by (simp add: catchE_def) blast
  qed
qed

lemma keeps_operations [keeps]:
  "keeps_stores (init_storage bs st)" "keeps_stores (check_blob bs st)"
  "keeps_stores (check_content bs st)" "keeps_stores (check_cache bs st)"
  unfolding init_storage_def check_blob_def check_content_def check_cache_def
  by (intro keeps)+

definition stays :: "'w stores \<times> 'w \<Rightarrow> 'w stores \<times> 'w \<Rightarrow> bool" where
  "stays s0 s \<longleftrightarrow>
     (blob_store (fst s0) \<noteq> None \<longrightarrow> blob_store (fst s) = blob_store (fst s0))
     \<and> (content_store (fst s0) \<noteq> None \<longrightarrow> content_store (fst s) = content_store (fst s0))
     \<and> (cache_store (fst s0) \<noteq> None \<longrightarrow> cache_store (fst s) = cache_store (fst s0))"

lemma keeps_step: "keeps_stores m \<Longrightarrow> stays s0 s \<Longrightarrow> stays s0 (snd (m s))"
proof (cases s; cases "m s")
  fix v w r s' assume keep: "keeps_stores m" and st: "stays s0 s" and s: "s = (v, w)" and m: "m s = (r, s')"
  obtain v' w' where s': "s' = (v', w')" by (cases s')
  have "m (v, w) = (r, (v', w'))" using m s s' by simp
  with keep st show "stays s0 (snd (m s))"
    unfolding keeps_stores_def stays_def m unfolding s s' fst_conv snd_conv by metis
qed

lemma storage_run_stays: "storage_run bs st s0 s \<Longrightarrow> stays s0 s"
proof (induction rule: storage_run.induct)
  case start
  then show ?case by (simp add: stays_def)
next
  case (used v w w')
  then show ?case by (simp add: stays_def)
qed (erule keeps_step [rotated], rule keeps)+

section \<open>Properties\<close>

text \<open>
  The stores are process-wide singletons: once an accessor has returned a store, every later call
  of it returns the same one and builds nothing, whatever the process did in between with the
  accessors, \<open>init_storage\<close>, the health checks and the clients, failing or not, until
  \<open>close_stores\<close>, which forgets all three even when closing a client raises.
\<close>

theorem stores_are_singletons:
  assumes "storage_run bs st s1 s2"
  shows "(\<forall>x. get_blob_store bs st s = (Inr x, s1) \<longrightarrow> get_blob_store bs st s2 = (Inr x, s2))
    \<and> (\<forall>x. get_content_store bs st s = (Inr x, s1) \<longrightarrow> get_content_store bs st s2 = (Inr x, s2))
    \<and> (\<forall>x. get_cache_store bs st s = (Inr x, s1) \<longrightarrow> get_cache_store bs st s2 = (Inr x, s2))
    \<and> fst (snd (close_stores s2)) = no_stores"
proof -
  obtain v2 w2 where s2: "s2 = (v2, w2)" by (cases s2)
  note stay = storage_run_stays [OF assms, unfolded stays_def s2 fst_conv]
  have "fst (snd (close_stores s2)) = no_stores"
    by (simp add: close_stores_def finallyE_def s2 split: prod.splits)
  moreover have "get_blob_store bs st s2 = (Inr x, s2)" if "get_blob_store bs st s = (Inr x, s1)" for x
    using that stay by (auto simp: get_blob_store_def s2 split: prod.splits option.splits sum.splits)
  moreover have "get_content_store bs st s2 = (Inr x, s2)" if "get_content_store bs st s = (Inr x, s1)" for x
    using that stay by (auto simp: get_content_store_def s2 split: prod.splits option.splits sum.splits)
  moreover have "get_cache_store bs st s2 = (Inr x, s2)" if "get_cache_store bs st s = (Inr x, s1)" for x
    using that stay by (auto simp: get_cache_store_def s2 split: prod.splits option.splits sum.splits)
  ultimately show ?thesis by blast
qed

lemma stores_are_singletons_witness:
  "\<exists>x s1 s2. get_blob_store demo_builders default_settings (no_stores, demo_start) = (Inr x, s1)
    \<and> storage_run demo_builders default_settings s1 s2
    \<and> get_blob_store demo_builders default_settings s2 = (Inr x, s2)"
proof -
  obtain x s1 where got: "get_blob_store demo_builders default_settings (no_stores, demo_start) = (Inr x, s1)"
    by (simp add: get_blob_store_def no_stores_def demo_builders_def)
  have run: "storage_run demo_builders default_settings s1
      (snd (check_cache demo_builders default_settings s1))"
    by (intro storage_run.health_cache storage_run.start)
  with stores_are_singletons [OF run] got show ?thesis by blast
qed

text \<open>
  C39. Initialisation makes the storage ready and can be repeated: when \<open>init_storage\<close> returns, the
  bucket and every index exist; when it raises, it has removed nothing and added at most those, so
  that calling it again completes it; and after it returned, the blob health check can only say
  that the bucket is reachable or that the call failed.
\<close>

theorem init_storage_prepares:
  assumes "storage_servers (bc_call b) (mc_create_index c) has_bucket indexes"
    and "fst (get_blob_store bs st (v, w)) = Inr b" and "fst (get_content_store bs st (v, w)) = Inr c"
    and "init_storage bs st (v, w) = (r, (v', w'))"
  shows "(has_bucket w \<longrightarrow> has_bucket w') \<and> indexes w \<subseteq> indexes w'
    \<and> indexes w' \<subseteq> indexes w \<union> set content_indexes
    \<and> (r = Inr () \<longrightarrow> has_bucket w' \<and> set content_indexes \<subseteq> indexes w'
         \<and> (\<forall>ok detail s. check_blob bs st (v', w') = (Inr (ok, detail), s) \<longrightarrow>
              ok \<and> detail = ''bucket '' @ bc_bucket b @ '' reachable''
              \<or> \<not> ok \<and> (\<exists>e. detail = ''blob store unavailable: '' @ exn_str e)))
    \<and> (\<forall>e. r = Inl e \<longrightarrow> (\<exists>x. e = IpaExn x))"
proof -
  obtain v1 where b: "get_blob_store bs st (v, w) = (Inr b, (v1, w))"
    and v1: "blob_store v1 = Some b" "content_store v1 = content_store v"
    using assms(2) by (auto simp: get_blob_store_def split: option.splits sum.splits)
  obtain r1 w1 where e: "ensure_bucket (bc_call b) w = (r1, w1)" by fastforce
  obtain v2 where c: "get_content_store bs st (v1, w1) = (Inr c, (v2, w1))"
    and v2: "blob_store v2 = Some b"
    using assms(3) v1 by (auto simp: get_content_store_def split: option.splits sum.splits)
  obtain r2 w2 where i: "ensure_indexes (mc_create_index c) w1 = (r2, w2)" by fastforce
  note laws = storage_servers.ensure_bucket_outcome [OF assms(1) e]
    storage_servers.ensure_indexes_outcome [OF assms(1) i]
  have run: "init_storage bs st (v, w) =
      (case r1 of Inl x \<Rightarrow> (Inl x, (v1, w1)) | Inr _ \<Rightarrow> (r2, (v2, w2)))"
    by (simp add: init_storage_def seqE_def b c e i in_world_def split: sum.splits)
  have "ok \<and> detail = ''bucket '' @ bc_bucket b @ '' reachable''
      \<or> \<not> ok \<and> (\<exists>e. detail = ''blob store unavailable: '' @ exn_str e)"
    if "has_bucket w'" "check_blob bs st (v2, w') = (Inr (ok, detail), s)" for ok detail s
  proof -
    obtain r3 w3 where q: "bc_call b BucketExists w' = (r3, w3)" by fastforce
    show ?thesis
      using that(2) v2 q storage_servers.check [OF assms(1) q] that(1)
      by (auto simp: check_blob_def get_blob_store_def bucket_exists_def wrapping_def catchE_def seqE_def
          in_world_def split: sum.splits) (metis exn_str.simps(1))+
  qed
  then show ?thesis
    using assms(4) laws unfolding run by (auto split: sum.splits)
qed

lemma init_storage_prepares_witness:
  "\<exists>v w. init_storage demo_builders default_settings (no_stores, demo_start) = (Inr (), (v, w))
    \<and> ms_bucket (dw_minio w) \<and> set content_indexes \<subseteq> set (dw_indexes w)"
proof -
  let ?b = "\<lparr>bc_call = world_minio, bc_bucket = s3_bucket (s3 default_settings)\<rparr>"
  let ?c = "\<lparr>mc_create_index = world_index, mc_ping = retE (), mc_close = retE ()\<rparr>"
  have laws: "storage_servers (bc_call ?b) (mc_create_index ?c) (\<lambda>w. ms_bucket (dw_minio w)) (\<lambda>w. set (dw_indexes w))"
    using demo_servers.storage_servers_axioms by simp
  obtain v w where run: "init_storage demo_builders default_settings (no_stores, demo_start) = (Inr (), (v, w))"
    by (simp add: init_storage_def seqE_def get_blob_store_def get_content_store_def demo_builders_def
        no_stores_def in_world_def ensure_bucket_def wrapping_def catchE_def world_minio_def minio_def
        demo_start_def ensure_indexes_def wrapping_content_def content_indexes_def world_index_def)
  have "fst (get_blob_store demo_builders default_settings (no_stores, demo_start)) = Inr ?b"
    and "fst (get_content_store demo_builders default_settings (no_stores, demo_start)) = Inr ?c"
    by (simp_all add: get_blob_store_def get_content_store_def demo_builders_def no_stores_def)
  from init_storage_prepares [OF laws this run] run show ?thesis by blast
qed

text \<open>
  Health checks never raise: whatever building or calling a client raises is reported as not ok.
\<close>

lemma health_checks_never_raise:
  "\<exists>ok detail. fst (check_blob bs st s) = Inr (ok, detail)"
  "\<exists>ok detail. fst (check_content bs st s) = Inr (ok, detail)"
  "\<exists>ok detail. fst (check_cache bs st s) = Inr (ok, detail)"
  by (auto simp: check_blob_def check_content_def check_cache_def catchE_def seqE_def split: sum.splits prod.splits)

text \<open>
  A failure closing the cache client leaves the content client open although its store is
  forgotten: \<open>close_stores\<close> raises what \<open>aclose\<close> raised, has called nothing else, and no store is
  left through which the client could be closed. Without that failure both clients are closed, in
  that order.
\<close>

theorem failed_close_leaks_content_client:
  assumes "cache_store v = Some k" and "content_store v = Some c" and "kc_aclose k w = (r, w1)"
  shows "close_stores (v, w) =
    (case r of
       Inl e \<Rightarrow> (Inl e, (no_stores, w1))
     | Inr _ \<Rightarrow> (case mc_close c w1 of (r2, w2) \<Rightarrow> (r2, (no_stores, w2))))"
  using assms by (auto simp: close_stores_def finallyE_def seqE_def in_world_def split: sum.splits prod.splits)

lemma failed_close_leaks_content_client_witness:
  "close_stores
      (\<lparr>blob_store = None,
        content_store = Some \<lparr>mc_create_index = (\<lambda>_. retE ()), mc_ping = retE (), mc_close = (\<lambda>open. (Inr (), False))\<rparr>,
        cache_store = Some \<lparr>kc_call = (\<lambda>_. raiseE (RedisTimeoutError ''down'')), kc_aclose = raiseE (RedisTimeoutError ''down'')\<rparr>\<rparr>,
       True) = (Inl (RedisTimeoutError ''down''), (no_stores, True))"
  by (subst failed_close_leaks_content_client [where r = "Inl (RedisTimeoutError ''down'')" and ?w1.0 = True])
    (rule stores.select_convs | simp)+

end
