(* ===== verification/Observability.thy ===== *)
theory Observability
  imports Config Ids
begin

text \<open>
  Models \<open>src/ipa/core/logging.py\<close> and \<open>src/ipa/core/otel.py\<close>: the one-time configuration of
  logging, the trace and document fields of a log record, and the bootstrap of telemetry. structlog
  and the OpenTelemetry SDK are not modelled beyond what the two modules hand to them: the
  configuration is a value, and instrumenting a library or an application is an argument that may
  raise. Exporting, log output and the module's own log calls are left out.
\<close>

section \<open>Logging\<close>

datatype renderer = JSONRenderer | ConsoleRenderer

record logging_config =
  lc_level :: int
  lc_renderer :: renderer
  lc_processors :: "string list"

text \<open>The module's flag, what structlog was configured with, and the context variables.\<close>

record log_state =
  log_configured :: bool
  log_config :: "logging_config option"
  log_context :: json_dict

text \<open>\<open>logging.getLevelNamesMapping()\<close>.\<close>

definition level_names :: "(string \<times> int) list" where
  "level_names =
     [(''CRITICAL'', 50), (''FATAL'', 50), (''ERROR'', 40), (''WARN'', 30), (''WARNING'', 30),
      (''INFO'', 20), (''DEBUG'', 10), (''NOTSET'', 0)]"

text \<open>
  \<open>str.upper()\<close> on ASCII letters. The letters outside ASCII stay themselves here; none of them has an
  upper case that occurs in a level name.
\<close>

definition upper :: "string \<Rightarrow> string" where
  "upper s = map (\<lambda>c. let n = (of_char c :: nat) in if 97 \<le> n \<and> n \<le> 122 then char_of (n - 32) else c) s"

definition numeric_level :: "string \<Rightarrow> int" where
  "numeric_level level = (case map_of level_names (upper level) of None \<Rightarrow> 20 | Some n \<Rightarrow> n)"

definition configure_logging :: "string \<Rightarrow> bool \<Rightarrow> log_state \<Rightarrow> log_state" where
  "configure_logging level json_output s =
     (if log_configured s then s
      else s\<lparr>log_config := Some
               \<lparr>lc_level = numeric_level level,
                lc_renderer = (if json_output then JSONRenderer else ConsoleRenderer),
                lc_processors =
                  [''merge_contextvars'', ''add_log_level'', ''TimeStamper'', ''_add_otel_context'',
                   ''StackInfoRenderer'', ''format_exc_info'', ''UnicodeDecoder'', ''renderer'']\<rparr>,
             log_configured := True\<rparr>)"

text \<open>A span context: its ids, and whether the SDK calls it valid. \<open>format(n, "032x")\<close> and \<open>"016x"\<close>.\<close>

record span_context =
  sc_trace_id :: "128 word"
  sc_span_id :: "64 word"
  sc_is_valid :: bool

definition span_hex :: "64 word \<Rightarrow> string" where
  "span_hex n = map digit_char (digits 16 16 (unat n))"

definition add_otel_context :: "span_context \<Rightarrow> json_dict \<Rightarrow> json_dict" where
  "add_otel_context ctx event_dict =
     (if sc_is_valid ctx then
        dict_set ''span_id'' (JStr (span_hex (sc_span_id ctx)))
          (dict_set ''trace_id'' (JStr (uuid_hex (sc_trace_id ctx))) event_dict)
      else event_dict)"

text \<open>Binding merges into the context; \<open>extra\<close> holds neither of the two named arguments.\<close>

definition bind_document_context :: "string option \<Rightarrow> string option \<Rightarrow> json_dict \<Rightarrow> log_state \<Rightarrow> log_state" where
  "bind_document_context document_id step extra s =
     (let b0 = extra;
          b1 = (case document_id of None \<Rightarrow> b0 | Some d \<Rightarrow> dict_set ''document_id'' (JStr d) b0);
          b2 = (case step of None \<Rightarrow> b1 | Some x \<Rightarrow> dict_set ''step'' (JStr x) b1)
      in s\<lparr>log_context := dict_update (log_context s) b2\<rparr>)"

definition clear_context :: "log_state \<Rightarrow> log_state" where
  "clear_context s = s\<lparr>log_context := []\<rparr>"

text \<open>The fields of a record: the event's own over the context, then the trace.\<close>

definition record_fields :: "span_context \<Rightarrow> log_state \<Rightarrow> json_dict \<Rightarrow> json_dict" where
  "record_fields ctx s event = add_otel_context ctx (dict_update (log_context s) event)"

section \<open>Telemetry\<close>

datatype exporter = OtlpExporter string | ConsoleExporter

record telemetry_config =
  tc_service_name :: string
  tc_service_version :: string
  tc_environment :: env_name
  tc_span_exporters :: "exporter list"
  tc_metric_exporters :: "exporter list"

text \<open>
  The flag, every pair of providers that was installed, the applications an instrumentation was tried
  on and the libraries, latest first.
\<close>

record otel_state =
  ot_initialised :: bool
  ot_installed :: "telemetry_config list"
  ot_apps :: "string list"
  ot_libraries :: "string list"

definition instrumentors :: "string list" where
  "instrumentors =
     [''SQLAlchemyInstrumentor'', ''RedisInstrumentor'', ''HTTPXClientInstrumentor'', ''CeleryInstrumentor'']"

text \<open>An instrumentation that raises is logged and skipped.\<close>

definition instrument_libraries :: "(string \<Rightarrow> py_exn + unit) \<Rightarrow> otel_state \<Rightarrow> otel_state" where
  "instrument_libraries instrument s =
     s\<lparr>ot_libraries := rev (filter (\<lambda>l. instrument l = Inr ()) instrumentors) @ ot_libraries s\<rparr>"

definition instrument_fastapi :: "(string \<Rightarrow> py_exn + unit) \<Rightarrow> string \<Rightarrow> otel_state \<Rightarrow> otel_state" where
  "instrument_fastapi instrument_app app s =
     (case instrument_app app of Inl _ \<Rightarrow> s | Inr _ \<Rightarrow> s\<lparr>ot_apps := app # ot_apps s\<rparr>)"

definition exporters :: "otel_settings \<Rightarrow> exporter list" where
  "exporters o' =
     (if otel_enabled o' then [OtlpExporter (otel_exporter_endpoint o')] else [])
     @ (if otel_console_export o' then [ConsoleExporter] else [])"

definition setup_telemetry ::
  "(string \<Rightarrow> py_exn + unit) \<Rightarrow> (string \<Rightarrow> py_exn + unit) \<Rightarrow> settings \<Rightarrow> string \<Rightarrow> string option
     \<Rightarrow> otel_state \<Rightarrow> bool \<times> otel_state" where
  "setup_telemetry instrument instrument_app st service_name app s =
     (let s = (case app of None \<Rightarrow> s | Some a \<Rightarrow> instrument_fastapi instrument_app a s)
      in if ot_initialised s then (True, s)
         else if \<not> otel_enabled (otel st) \<and> \<not> otel_console_export (otel st) then (False, s)
         else
           (let config =
                  \<lparr>tc_service_name = (if service_name = [] then otel_service_name (otel st) else service_name),
                   tc_service_version = ''0.1.0'', tc_environment = env st, tc_span_exporters = exporters (otel st),
                   tc_metric_exporters = exporters (otel st)\<rparr>;
                s = instrument_libraries instrument (s\<lparr>ot_installed := config # ot_installed s\<rparr>)
            in (True, s\<lparr>ot_initialised := True\<rparr>)))"

text \<open>
  Shutting down acts on the provider that was installed last; the placeholder that is there before has
  nothing to shut down. The flag stays set.
\<close>

definition shutdown_telemetry ::
  "(telemetry_config \<Rightarrow> py_exn + unit) \<Rightarrow> otel_state \<Rightarrow> (py_exn + unit) \<times> otel_state" where
  "shutdown_telemetry shutdown s =
     (case ot_installed s of [] \<Rightarrow> (Inr (), s) | c # _ \<Rightarrow> (shutdown c, s))"

text \<open>So telemetry is not set up again after it was shut down.\<close>

lemma setup_after_shutdown:
  assumes "ot_initialised s" and "shutdown_telemetry shutdown s = (res, s1)"
  shows "fst (setup_telemetry instrument instrument_app st service_name None s1)
    \<and> ot_installed (snd (setup_telemetry instrument instrument_app st service_name None s1)) = ot_installed s"
  using assms by (auto simp: shutdown_telemetry_def setup_telemetry_def split: list.splits)

section \<open>Properties\<close>

lemma numeric_level_simps:
  "numeric_level ''INFO'' = 20" "numeric_level ''debug'' = 10" "numeric_level ''warning'' = 30"
  "numeric_level ''verbose'' = 20"
  by code_simp+

text \<open>Only the first configuration takes effect.\<close>

lemma configure_logging_first_wins:
  "configure_logging level' json' (configure_logging level json s) = configure_logging level json s"
  by (simp add: configure_logging_def)

text \<open>A record of a task bound to a document carries the document, unless the event says otherwise.\<close>

lemma record_carries_document:
  assumes "''document_id'' \<notin> fst ` set event" and "''document_id'' \<notin> fst ` set extra"
    and "distinct (map fst extra)"
  shows "map_of (record_fields ctx (bind_document_context (Some d) step extra s) event) ''document_id''
    = Some (JStr d)"
proof -
  have "''document_id'' \<notin> fst ` set event \<Longrightarrow> map_of (dict_update c event) ''document_id'' = map_of c ''document_id''" for c
    by (rule map_of_dict_update_notin)
  then show ?thesis
    using assms
    by (cases step) (simp_all add: record_fields_def add_otel_context_def bind_document_context_def
        map_of_dict_update distinct_dict_set map_add_def del: map_of_eq_Some_iff)
qed

text \<open>The calls a process makes, from a fresh state.\<close>

inductive telemetry_run ::
  "(string \<Rightarrow> py_exn + unit) \<Rightarrow> (string \<Rightarrow> py_exn + unit) \<Rightarrow> settings \<Rightarrow> otel_state \<Rightarrow> bool"
  for instrument instrument_app st where
  fresh: "telemetry_run instrument instrument_app st
    \<lparr>ot_initialised = False, ot_installed = [], ot_apps = [], ot_libraries = []\<rparr>"
| again: "telemetry_run instrument instrument_app st s \<Longrightarrow>
    telemetry_run instrument instrument_app st
      (snd (setup_telemetry instrument instrument_app st service_name app s))"

text \<open>
  Telemetry is set up once. However often \<open>setup_telemetry\<close> is called, by the API or a worker, and
  whichever instrumentations raise, providers are installed at most once, with one span and one
  metric exporter for each destination the settings enable; nothing is installed when they enable
  none; and a call returns whether providers are installed after it.
\<close>

theorem telemetry_set_up_once:
  assumes "telemetry_run instrument instrument_app st s"
    and "setup_telemetry instrument instrument_app st service_name app s = (b, s')"
  shows "length (ot_installed s') \<le> 1 \<and> (b \<longleftrightarrow> ot_installed s' \<noteq> [])
    \<and> (b \<longleftrightarrow> otel_enabled (otel st) \<or> otel_console_export (otel st))
    \<and> (\<forall>c \<in> set (ot_installed s'). tc_span_exporters c = exporters (otel st)
          \<and> tc_metric_exporters c = exporters (otel st) \<and> tc_environment c = env st)
    \<and> length (ot_libraries s') \<le> length instrumentors"
proof -
  let ?on = "otel_enabled (otel st) \<or> otel_console_export (otel st)"
  define good where "good s \<longleftrightarrow> (ot_initialised s \<longleftrightarrow> ot_installed s \<noteq> []) \<and> length (ot_installed s) \<le> 1
    \<and> (ot_initialised s \<longrightarrow> ?on) \<and> (\<not> ot_initialised s \<longrightarrow> ot_libraries s = [])
    \<and> (\<forall>c \<in> set (ot_installed s). tc_span_exporters c = exporters (otel st)
          \<and> tc_metric_exporters c = exporters (otel st) \<and> tc_environment c = env st)
    \<and> length (ot_libraries s) \<le> length instrumentors" for s :: otel_state
  have step: "good s' \<and> (b \<longleftrightarrow> ot_initialised s') \<and> (?on \<longrightarrow> b)"
    if "good s" "setup_telemetry instrument instrument_app st service_name app s = (b, s')"
    for s s' b service_name app
  proof -
    define s1 where "s1 = (case app of None \<Rightarrow> s | Some a \<Rightarrow> instrument_fastapi instrument_app a s)"
    have "good s1" using that(1)
      by (auto simp: s1_def good_def instrument_fastapi_def split: option.splits sum.splits)
    moreover have "length (filter (\<lambda>l. instrument l = Inr ()) instrumentors) \<le> length instrumentors"
      by (rule length_filter_le)
    ultimately show ?thesis
      using that(2) unfolding setup_telemetry_def s1_def [symmetric] Let_def good_def
      by (auto simp: instrument_libraries_def split: if_splits)
  qed
  from assms(1) have "good s"
  proof induction
    case fresh
    show ?case by (simp add: good_def)
  next
    case (again s service_name app)
    then show ?case using step [of s service_name app] by (metis prod.collapse)
  qed
  with step [OF this assms(2)] show ?thesis unfolding good_def by blast
qed

lemma telemetry_set_up_once_witness:
  "\<exists>s'. setup_telemetry (\<lambda>_. Inr ()) (\<lambda>_. Inl (ValueError ''no asgi'')) default_settings ''ipa-api'' (Some ''app'')
      \<lparr>ot_initialised = False, ot_installed = [], ot_apps = [], ot_libraries = []\<rparr> = (False, s')
    \<and> ot_installed s' = []"
proof -
  obtain b s' where run: "setup_telemetry (\<lambda>_. Inr ()) (\<lambda>_. Inl (ValueError ''no asgi'')) default_settings
      ''ipa-api'' (Some ''app'') \<lparr>ot_initialised = False, ot_installed = [], ot_apps = [], ot_libraries = []\<rparr>
      = (b, s')" by fastforce
  have off: "\<not> otel_enabled (otel default_settings)" "\<not> otel_console_export (otel default_settings)"
    by (simp_all add: default_settings_def default_otel_def otel_enabled_def)
  from telemetry_set_up_once [OF telemetry_run.fresh run] off have "b = False" "ot_installed s' = []"
    by blast+
  with run show ?thesis by blast
qed

end
