(* ===== verification/Api.thy ===== *)
theory Api
  imports Observability
begin

text \<open>
  Models \<open>src/ipa/api/main.py\<close>, \<open>src/ipa/api/auth.py\<close> and \<open>src/ipa/api/routers/__init__.py\<close>:
  building the application, the liveness and readiness probes, and the authentication stub. The
  drivers the readiness checks use are one argument \<open>call\<close> that executes a command on the service's
  own state, so that the four checks, which run concurrently, cannot affect each other. A check
  that exceeds its time is cancelled: the command in progress raises \<open>CancelledError\<close>.
\<close>

section \<open>The application\<close>

record cors_config =
  cors_allow_origins :: "string list"
  cors_allow_credentials :: bool
  cors_allow_methods :: "string list"
  cors_allow_headers :: "string list"

datatype handler_name = HandlesIpaError | HandlesHttpException | HandlesValidationError | HandlesException

record app =
  app_title :: string
  app_version :: string
  app_cors :: cors_config
  app_handlers :: "handler_name list"
  app_routes :: "string list"
  app_telemetry :: bool

definition API_PREFIX :: string where
  "API_PREFIX = ''/v1''"

definition PROBE_TIMEOUT_MS :: int where
  "PROBE_TIMEOUT_MS = 3000"

text \<open>The registry of routers is empty at this commit; a router is the paths of its routes.\<close>

definition ROUTERS :: "string list list" where
  "ROUTERS = []"

text \<open>The dash of the title is U+2014, outside the characters here, and written as a hyphen.\<close>

definition create_app ::
  "(string \<Rightarrow> py_exn + unit) \<Rightarrow> (string \<Rightarrow> py_exn + unit) \<Rightarrow> settings \<Rightarrow> log_state \<times> otel_state
     \<Rightarrow> (py_exn + app) \<times> (log_state \<times> otel_state)" where
  "create_app instrument instrument_app st = (\<lambda>(logs, tel).
     let logs = configure_logging (log_level st) (log_json st) logs
     in case validate_startup st of
          Inl e \<Rightarrow> (Inl (IpaExn e), (logs, tel))
        | Inr _ \<Rightarrow>
            (let cors = \<lparr>cors_allow_origins = cors_origin_list st, cors_allow_credentials = True,
                         cors_allow_methods = [''*''], cors_allow_headers = [''*'']\<rparr>;
                 (on, tel) = setup_telemetry instrument instrument_app st (otel_service_name (otel st))
                               (Some ''app'') tel
             in (Inr \<lparr>app_title = ''IPA - Intelligent Process Automation'', app_version = ''0.1.0'',
                      app_cors = cors,
                      app_handlers = [HandlesIpaError, HandlesHttpException, HandlesValidationError, HandlesException],
                      app_routes = [''/healthz'', ''/readyz'']
                        @ map (\<lambda>path. API_PREFIX @ path) (concat ROUTERS),
                      app_telemetry = on\<rparr>, (logs, tel))))"

definition healthz :: "settings \<Rightarrow> app \<Rightarrow> json_dict" where
  "healthz st a =
     [(''status'', JStr ''ok''), (''version'', JStr (app_version a)), (''env'', JStr (env_value (env st)))]"

section \<open>Readiness\<close>

datatype dependency = Postgres | Mongo | Redis | Minio

text \<open>What the checks ask of the drivers; the reply to an HTTP request is its status.\<close>

datatype probe_cmd =
    PgConnect string
  | PgExecute string
  | PgClose
  | MongoClient string int
  | MongoPing
  | MongoClose
  | RedisFromUrl string
  | RedisPing
  | RedisClose
  | HttpGet string int

type_synonym 'w driver = "probe_cmd \<Rightarrow> 'w \<Rightarrow> (py_exn + int) \<times> 'w"

definition quietly :: "'w driver \<Rightarrow> probe_cmd \<Rightarrow> 'w \<Rightarrow> (py_exn + unit) \<times> 'w" where
  "quietly call c = seqE (call c) (\<lambda>_. retE ())"

definition check_postgres :: "'w driver \<Rightarrow> settings \<Rightarrow> 'w \<Rightarrow> (py_exn + unit) \<times> 'w" where
  "check_postgres call st =
     (let dsn = py_replace ''+psycopg'' [] (py_replace ''+asyncpg'' [] (pg_dsn (postgres st)))
      in seqE (quietly call (PgConnect dsn)) (\<lambda>_.
           finallyE (quietly call (PgExecute ''SELECT 1'')) (quietly call PgClose)))"

definition check_mongo :: "'w driver \<Rightarrow> settings \<Rightarrow> 'w \<Rightarrow> (py_exn + unit) \<times> 'w" where
  "check_mongo call st =
     seqE (quietly call (MongoClient (mongo_uri (mongo st)) PROBE_TIMEOUT_MS)) (\<lambda>_.
       finallyE (quietly call MongoPing) (quietly call MongoClose))"

definition check_redis :: "'w driver \<Rightarrow> settings \<Rightarrow> 'w \<Rightarrow> (py_exn + unit) \<times> 'w" where
  "check_redis call st =
     seqE (quietly call (RedisFromUrl (redis_url (redis st)))) (\<lambda>_.
       finallyE (quietly call RedisPing) (quietly call RedisClose))"

text \<open>\<open>s.rstrip("/")\<close>, and \<open>raise_for_status\<close>, which accepts 2xx only.\<close>

definition rstrip_slash :: "string \<Rightarrow> string" where
  "rstrip_slash s = rev (dropWhile (\<lambda>c. c = CHR ''/'') (rev s))"

definition raise_for_status :: "int \<Rightarrow> 'w \<Rightarrow> (py_exn + unit) \<times> 'w" where
  "raise_for_status status =
     (if 200 \<le> status \<and> status < 300 then retE ()
      else raiseE (OtherException ''HTTPStatusError'' (str_int status)))"

definition check_s3 :: "'w driver \<Rightarrow> settings \<Rightarrow> 'w \<Rightarrow> (py_exn + unit) \<times> 'w" where
  "check_s3 call st =
     (let url = rstrip_slash (s3_endpoint (s3 st)) @ ''/minio/health/live''
      in seqE (call (HttpGet url PROBE_TIMEOUT_MS)) raise_for_status)"

text \<open>\<open>asyncio.wait_for\<close>: the cancellation of the awaited check becomes a TimeoutError.\<close>

fun cancelled :: "py_exn \<Rightarrow> bool" where
  "cancelled (OtherException ty m) \<longleftrightarrow> ty = ''CancelledError''"
| "cancelled _ \<longleftrightarrow> False"

definition wait_for :: "('w \<Rightarrow> (py_exn + 'a) \<times> 'w) \<Rightarrow> 'w \<Rightarrow> (py_exn + 'a) \<times> 'w" where
  "wait_for m = catchE m (\<lambda>e. raiseE (if cancelled e then OtherException ''TimeoutError'' [] else e))"

definition probe :: "('w \<Rightarrow> (py_exn + unit) \<times> 'w) \<Rightarrow> 'w \<Rightarrow> (py_exn + string) \<times> 'w" where
  "probe check =
     catchE (seqE (wait_for check) (\<lambda>_. retE ''ok'')) (\<lambda>_. retE ''unavailable'')"

fun dependency_name :: "dependency \<Rightarrow> string" where
  "dependency_name Postgres = ''postgres''"
| "dependency_name Mongo = ''mongo''"
| "dependency_name Redis = ''redis''"
| "dependency_name Minio = ''s3''"

fun check_of :: "'w driver \<Rightarrow> settings \<Rightarrow> dependency \<Rightarrow> 'w \<Rightarrow> (py_exn + unit) \<times> 'w" where
  "check_of call st Postgres = check_postgres call st"
| "check_of call st Mongo = check_mongo call st"
| "check_of call st Redis = check_redis call st"
| "check_of call st Minio = check_s3 call st"

definition readyz_names :: "dependency list" where
  "readyz_names = [Postgres, Mongo, Redis, Minio]"

text \<open>
  \<open>readyz\<close>: the HTTP status and the body, or the exception of the first probe that raised. The state
  gives each service its own.
\<close>

fun first_error :: "(py_exn + 'a) list \<Rightarrow> py_exn + 'a list" where
  "first_error [] = Inr []"
| "first_error (Inl e # rs) = Inl e"
| "first_error (Inr a # rs) = (case first_error rs of Inl e \<Rightarrow> Inl e | Inr as \<Rightarrow> Inr (a # as))"

definition readyz ::
  "'w driver \<Rightarrow> settings \<Rightarrow> (dependency \<Rightarrow> 'w) \<Rightarrow> (py_exn + (int \<times> json_dict)) \<times> (dependency \<Rightarrow> 'w)" where
  "readyz call st ws =
     (case first_error (map (\<lambda>d. fst (probe (check_of call st d) (ws d))) readyz_names) of
        Inl e \<Rightarrow> Inl e
      | Inr results \<Rightarrow>
          (let dependencies = zip (map dependency_name readyz_names) results;
               ready = list_all (\<lambda>(n, value). value = ''ok'') dependencies
           in Inr (if ready then 200 else 503,
                   [(''status'', JStr (if ready then ''ready'' else ''degraded'')),
                    (''dependencies'', JObj (map (\<lambda>(n, value). (n, JStr value)) dependencies))])),
      \<lambda>d. snd (probe (check_of call st d) (ws d)))"

section \<open>Authentication\<close>

definition ANONYMOUS_SUBJECT :: string where
  "ANONYMOUS_SUBJECT = ''anonymous''"

record principal =
  pr_subject :: string
  pr_scopes :: "string list"
  pr_is_authenticated :: bool

definition has_scope :: "principal \<Rightarrow> string \<Rightarrow> bool" where
  "has_scope p scope = True"

definition require_auth :: "settings \<Rightarrow> string option \<Rightarrow> ipa_error + principal" where
  "require_auth st x_api_key =
     (if x_api_key \<noteq> None \<and> x_api_key \<noteq> Some [] then
        Inr \<lparr>pr_subject = ''api-key:'' @ py_take 6 (the x_api_key), pr_scopes = [], pr_is_authenticated = True\<rparr>
      else if is_production st then
        Inl (make_error IpaError
          (Some (''Authentication is not configured. The T01 stub refuses to serve ''
             @ ''production traffic; T16 must replace ipa.api.auth.require_auth.''))
          (Some ''auth_stub_in_production'') (Some 500) None)
      else Inr \<lparr>pr_subject = ANONYMOUS_SUBJECT, pr_scopes = [], pr_is_authenticated = False\<rparr>)"

section \<open>Lemmas\<close>

lemma probe_result:
  "fst (probe check w) = Inr (if fst (check w) = Inr () then ''ok'' else ''unavailable'')"
  by (auto simp: probe_def wait_for_def catchE_def seqE_def split: sum.splits prod.splits)

lemma first_error_Inr: "first_error (map Inr xs) = Inr xs"
  by (induction xs) simp_all

lemma dependency_in_names: "d \<in> set readyz_names"
  by (cases d) (simp_all add: readyz_names_def)

section \<open>Properties\<close>


text \<open>
  The connection a readiness check opens is closed whatever happens: for each of the checks that
  open one, when the connection was made, the last command is the one that closes it, also when
  the command in between raised or was cancelled.
\<close>

theorem readiness_checks_close_connections:
  assumes "(opened, used, closing) \<in>
      {(PgConnect (py_replace ''+psycopg'' [] (py_replace ''+asyncpg'' [] (pg_dsn (postgres st)))),
          PgExecute ''SELECT 1'', PgClose),
       (MongoClient (mongo_uri (mongo st)) PROBE_TIMEOUT_MS, MongoPing, MongoClose),
       (RedisFromUrl (redis_url (redis st)), RedisPing, RedisClose)}"
    and "call opened w = (Inr n, w1)" and "call used w1 = (r2, w2)" and "call closing w2 = (r3, w3)"
  shows "\<exists>d. check_of call st d w =
    (case r3 of Inl e \<Rightarrow> Inl e | Inr _ \<Rightarrow> (case r2 of Inl e \<Rightarrow> Inl e | Inr _ \<Rightarrow> Inr ()), w3)"
proof -
  have run: "seqE (quietly call opened) (\<lambda>_. finallyE (quietly call used) (quietly call closing)) w =
      (case r3 of Inl e \<Rightarrow> Inl e | Inr _ \<Rightarrow> (case r2 of Inl e \<Rightarrow> Inl e | Inr _ \<Rightarrow> Inr ()), w3)"
    using assms(2-4) by (auto simp: quietly_def seqE_def finallyE_def split: sum.splits)
  from assms(1) consider
    "check_of call st Postgres w = seqE (quietly call opened) (\<lambda>_. finallyE (quietly call used) (quietly call closing)) w"
  | "check_of call st Mongo w = seqE (quietly call opened) (\<lambda>_. finallyE (quietly call used) (quietly call closing)) w"
  | "check_of call st Redis w = seqE (quietly call opened) (\<lambda>_. finallyE (quietly call used) (quietly call closing)) w"
    by (auto simp: check_postgres_def check_mongo_def check_redis_def Let_def)
  then show ?thesis unfolding run by cases blast+
qed

text \<open>A driver that keeps the number of open connections; its Redis times out.\<close>

fun demo_driver :: "nat driver" where
  "demo_driver (PgConnect dsn) n = (Inr 0, n + 1)"
| "demo_driver (MongoClient uri t) n = (Inr 0, n + 1)"
| "demo_driver (RedisFromUrl url) n = (Inr 0, n + 1)"
| "demo_driver RedisPing n = (Inl (OtherException ''CancelledError'' []), n)"
| "demo_driver PgClose n = (Inr 0, n - 1)"
| "demo_driver MongoClose n = (Inr 0, n - 1)"
| "demo_driver RedisClose n = (Inr 0, n - 1)"
| "demo_driver (HttpGet url t) n = (Inr 200, n)"
| "demo_driver c n = (Inr 0, n)"

lemma readiness_checks_close_connections_witness:
  "\<exists>d. check_of demo_driver default_settings d 0 = (Inl (OtherException ''CancelledError'' []), 0)"
  using readiness_checks_close_connections [of "RedisFromUrl (redis_url (redis default_settings))" RedisPing
      RedisClose default_settings demo_driver 0 0 1 "Inl (OtherException ''CancelledError'' [])" 1 "Inr 0" 0]
  by simp

text \<open>
  No anonymous caller is served in production: without an API key the stub raises a 500 when the
  environment is staging or production, and elsewhere admits an anonymous principal that is not
  marked as authenticated; a principal is authenticated only when a non-empty key was sent.
\<close>

theorem production_refuses_anonymous:
  "case require_auth st x_api_key of
     Inl e \<Rightarrow> is_production st \<and> (x_api_key = None \<or> x_api_key = Some []) \<and> err_http_status e = 500
       \<and> err_code e = ''auth_stub_in_production''
   | Inr p \<Rightarrow> (pr_is_authenticated p \<longleftrightarrow> x_api_key \<noteq> None \<and> x_api_key \<noteq> Some [])
       \<and> (\<not> pr_is_authenticated p \<longrightarrow> \<not> is_production st \<and> pr_subject p = ANONYMOUS_SUBJECT)"
  by (simp add: require_auth_def make_error_def)

text \<open>
  A misconfigured environment never serves: \<open>create_app\<close> raises exactly what the startup check
  raises, before telemetry is set up, and when it returns an application the check passed, both
  probes are mounted, and the allowed origins are those of the settings.
\<close>

theorem misconfigured_app_is_not_built:
  "case create_app instrument instrument_app st (logs, tel) of
     (Inl e, logs', tel') \<Rightarrow> (\<exists>x. e = IpaExn x \<and> validate_startup st = Inl x) \<and> tel' = tel
   | (Inr a, logs', tel') \<Rightarrow> validate_startup st = Inr ()
       \<and> {''/healthz'', ''/readyz''} \<subseteq> set (app_routes a)
       \<and> cors_allow_origins (app_cors a) = cors_origin_list st
       \<and> (app_telemetry a, tel') = setup_telemetry instrument instrument_app st (otel_service_name (otel st)) (Some ''app'') tel"
  by (auto simp: create_app_def Let_def split: sum.splits prod.splits)

end
