(* ===== verification/Ddl.thy ===== *)
theory Ddl
  imports Errors Enums
begin

text \<open>
  The schema of a PostgreSQL database and what the DDL statements of a migration do to it: tables with
  their columns and constraints, indexes, enumeration types, extensions and the rows of
  \<open>schema_config\<close>. A statement the database refuses raises; the checks are the ones PostgreSQL makes
  on names, column types, references and dependencies. The dimensions pgvector accepts for a column
  and for an HNSW index are an argument.
\<close>

section \<open>Schemas\<close>

datatype col_type =
    CUuid
  | CText
  | CCitext
  | CVarchar int
  | CChar int
  | CInteger
  | CBigInt
  | CBoolean
  | CNumeric "(int \<times> int) option"
  | CTimestamptz
  | CJsonb
  | CTextArray
  | CTsvector
  | CVector int
  | CEnum string "string list"

text \<open>A reference: its constraint name, the table and column, and ON DELETE CASCADE.\<close>

record fk_def =
  fk_name :: string
  fk_table :: string
  fk_column :: string
  fk_cascade :: bool

record column_def =
  cd_name :: string
  cd_type :: col_type
  cd_nullable :: bool
  cd_default :: "string option"
  cd_fk :: "fk_def option"
  cd_autoincrement :: bool
  cd_computed :: "string option"

datatype constraint_def =
    PrimaryKey string "string list"
  | Unique string "string list" bool
  | Check string string

record table_def =
  td_columns :: "column_def list"
  td_constraints :: "constraint_def list"

record index_def =
  id_name :: string
  id_table :: string
  id_columns :: "string list"
  id_unique :: bool
  id_where :: "string option"
  id_using :: string
  id_with :: "(string \<times> string) list"
  id_ops :: "(string \<times> string) list"

text \<open>
  \<open>db_memo\<close> holds the types the running migration has created: a type used by several tables is
  created once.
\<close>

record database =
  db_extensions :: "string list"
  db_types :: "(string \<times> string list) list"
  db_tables :: "(string \<times> table_def) list"
  db_indexes :: "index_def list"
  db_config :: "(string \<times> json_dict) list"
  db_memo :: "string list"

definition empty_database :: database where
  "empty_database =
     \<lparr>db_extensions = [], db_types = [], db_tables = [], db_indexes = [], db_config = [], db_memo = []\<rparr>"

text \<open>Columns in the style of \<open>sa.Column\<close>.\<close>

definition col :: "string \<Rightarrow> col_type \<Rightarrow> column_def" where
  "col n ty =
     \<lparr>cd_name = n, cd_type = ty, cd_nullable = False, cd_default = None, cd_fk = None,
      cd_autoincrement = False, cd_computed = None\<rparr>"

definition optional :: "column_def \<Rightarrow> column_def" where
  "optional c = c\<lparr>cd_nullable := True\<rparr>"

definition with_default :: "string \<Rightarrow> column_def \<Rightarrow> column_def" where
  "with_default d c = c\<lparr>cd_default := Some d\<rparr>"

definition autoincrement :: "column_def \<Rightarrow> column_def" where
  "autoincrement c = c\<lparr>cd_autoincrement := True\<rparr>"

definition computed :: "string \<Rightarrow> column_def \<Rightarrow> column_def" where
  "computed e c = c\<lparr>cd_computed := Some e\<rparr>"

definition references :: "string \<Rightarrow> string \<Rightarrow> string \<Rightarrow> bool \<Rightarrow> column_def \<Rightarrow> column_def" where
  "references n t c cascade x =
     x\<lparr>cd_fk := Some \<lparr>fk_name = n, fk_table = t, fk_column = c, fk_cascade = cascade\<rparr>\<rparr>"

definition index_on ::
  "string \<Rightarrow> string \<Rightarrow> string list \<Rightarrow> bool \<Rightarrow> string option \<Rightarrow> string \<Rightarrow> (string \<times> string) list
     \<Rightarrow> (string \<times> string) list \<Rightarrow> index_def" where
  "index_on n t cs u w m opts ops =
     \<lparr>id_name = n, id_table = t, id_columns = cs, id_unique = u, id_where = w, id_using = m,
      id_with = opts, id_ops = ops\<rparr>"

definition quoted :: "string \<Rightarrow> string" where
  "quoted s = [CHR 0x27] @ s @ [CHR 0x27]"

section \<open>Statements\<close>

datatype ddl =
    CreateExtension string
  | CreateTable string table_def
  | CreateIndex index_def
  | InsertConfig string json_dict
  | DropTable string
  | DropIndex string
  | DropType string
  | DropExtension string

text \<open>What pgvector accepts: the largest dimension of a column, and of an HNSW index.\<close>

record vector_limits =
  max_column_dim :: int
  max_hnsw_dim :: int

definition has_table :: "string \<Rightarrow> database \<Rightarrow> bool" where
  "has_table n db \<longleftrightarrow> list_ex (\<lambda>t. fst t = n) (db_tables db)"

definition has_index :: "string \<Rightarrow> database \<Rightarrow> bool" where
  "has_index n db \<longleftrightarrow> list_ex (\<lambda>i. id_name i = n) (db_indexes db)"

text \<open>The extension a type comes from.\<close>

fun extension_of :: "col_type \<Rightarrow> string option" where
  "extension_of CCitext = Some ''citext''"
| "extension_of (CVector d) = Some ''vector''"
| "extension_of _ = None"

fun dimension_ok :: "vector_limits \<Rightarrow> col_type \<Rightarrow> bool" where
  "dimension_ok lims (CVector d) \<longleftrightarrow> 1 \<le> d \<and> d \<le> max_column_dim lims"
| "dimension_ok lims _ \<longleftrightarrow> True"

fun constraint_columns :: "constraint_def \<Rightarrow> string list" where
  "constraint_columns (PrimaryKey n cs) = cs"
| "constraint_columns (Unique n cs d) = cs"
| "constraint_columns (Check n e) = []"

fun is_key :: "string \<Rightarrow> constraint_def \<Rightarrow> bool" where
  "is_key c (PrimaryKey n cs) \<longleftrightarrow> cs = [c]"
| "is_key c (Unique n cs d) \<longleftrightarrow> cs = [c] \<and> \<not> d"
| "is_key c (Check n e) \<longleftrightarrow> False"

text \<open>A reference needs a table with a unique column of that name.\<close>

definition fk_ok :: "database \<Rightarrow> fk_def \<Rightarrow> bool" where
  "fk_ok db f \<longleftrightarrow>
     list_ex (\<lambda>t. fst t = fk_table f \<and> list_ex (is_key (fk_column f)) (td_constraints (snd t))) (db_tables db)"

definition column_ok :: "database \<Rightarrow> column_def \<Rightarrow> bool" where
  "column_ok db c \<longleftrightarrow>
     (case extension_of (cd_type c) of None \<Rightarrow> True | Some e \<Rightarrow> List.member (db_extensions db) e)
     \<and> (case cd_fk c of None \<Rightarrow> True | Some f \<Rightarrow> fk_ok db f)"

definition has_columns :: "table_def \<Rightarrow> string list \<Rightarrow> bool" where
  "has_columns t cs \<longleftrightarrow> list_all (\<lambda>n. list_ex (\<lambda>c. cd_name c = n) (td_columns t)) cs"

text \<open>Everything about a new table but the dimension of its vectors.\<close>

definition table_ok :: "database \<Rightarrow> table_def \<Rightarrow> bool" where
  "table_ok db t \<longleftrightarrow>
     distinct (map cd_name (td_columns t)) \<and> list_all (column_ok db) (td_columns t)
     \<and> list_all (\<lambda>k. has_columns t (constraint_columns k)) (td_constraints t)"

fun enums_of :: "column_def list \<Rightarrow> (string \<times> string list) list" where
  "enums_of [] = []"
| "enums_of (c # cs) = (case cd_type c of CEnum n vs \<Rightarrow> (n, vs) # enums_of cs | _ \<Rightarrow> enums_of cs)"

definition ddl_error :: "string \<Rightarrow> string \<Rightarrow> py_exn" where
  "ddl_error what n = DBAPIError (what @ n)"

text \<open>The enumeration types of a new table, each created unless this migration has done so.\<close>

fun create_types :: "(string \<times> string list) list \<Rightarrow> database \<Rightarrow> py_exn + database" where
  "create_types [] db = Inr db"
| "create_types ((n, vs) # es) db =
     (if List.member (db_memo db) n then create_types es db
      else if list_ex (\<lambda>t. fst t = n) (db_types db) then Inl (ddl_error ''type already exists: '' n)
      else create_types es (db\<lparr>db_types := (n, vs) # db_types db, db_memo := n # db_memo db\<rparr>))"

definition index_ok :: "database \<Rightarrow> index_def \<Rightarrow> bool" where
  "index_ok db i \<longleftrightarrow>
     \<not> has_index (id_name i) db
     \<and> list_ex (\<lambda>t. fst t = id_table i
          \<and> (list_all (\<lambda>c. has_columns (snd t) [c] \<or> c = ''created_at DESC'' \<and> has_columns (snd t) [''created_at''])
              (id_columns i)))
        (db_tables db)"

text \<open>The types of the columns an index is on.\<close>

definition indexed_types :: "database \<Rightarrow> index_def \<Rightarrow> col_type list" where
  "indexed_types db i =
     concat (map (\<lambda>t. if fst t = id_table i
                     then map cd_type (filter (\<lambda>c. List.member (id_columns i) (cd_name c)) (td_columns (snd t)))
                     else []) (db_tables db))"

fun hnsw_type :: "vector_limits \<Rightarrow> col_type \<Rightarrow> bool" where
  "hnsw_type lims (CVector d) \<longleftrightarrow> d \<le> max_hnsw_dim lims"
| "hnsw_type lims _ \<longleftrightarrow> False"

definition hnsw_ok :: "vector_limits \<Rightarrow> database \<Rightarrow> index_def \<Rightarrow> bool" where
  "hnsw_ok lims db i \<longleftrightarrow> id_using i \<noteq> ''hnsw'' \<or> list_all (hnsw_type lims) (indexed_types db i)"

text \<open>Tables that refer to another one, and columns of a type.\<close>

definition referenced :: "string \<Rightarrow> database \<Rightarrow> bool" where
  "referenced n db \<longleftrightarrow>
     list_ex (\<lambda>t. fst t \<noteq> n
        \<and> list_ex (\<lambda>c. case cd_fk c of None \<Rightarrow> False | Some f \<Rightarrow> fk_table f = n) (td_columns (snd t)))
      (db_tables db)"

definition type_used :: "string \<Rightarrow> database \<Rightarrow> bool" where
  "type_used n db \<longleftrightarrow>
     list_ex (\<lambda>t. list_ex (\<lambda>e. fst e = n) (enums_of (td_columns (snd t)))) (db_tables db)"

definition extension_used :: "string \<Rightarrow> database \<Rightarrow> bool" where
  "extension_used n db \<longleftrightarrow>
     list_ex (\<lambda>t. list_ex (\<lambda>c. extension_of (cd_type c) = Some n) (td_columns (snd t))) (db_tables db)"

fun exec_ddl :: "vector_limits \<Rightarrow> ddl \<Rightarrow> database \<Rightarrow> py_exn + database" where
  "exec_ddl lims (CreateExtension n) db =
     Inr (if List.member (db_extensions db) n then db else db\<lparr>db_extensions := n # db_extensions db\<rparr>)"
| "exec_ddl lims (CreateTable n t) db =
     (if has_table n db then Inl (ddl_error ''relation already exists: '' n)
      else case create_types (enums_of (td_columns t)) db of
             Inl e \<Rightarrow> Inl e
           | Inr db1 \<Rightarrow>
               if \<not> table_ok db1 t then Inl (ddl_error ''cannot create table '' n)
               else if \<not> list_all (\<lambda>c. dimension_ok lims (cd_type c)) (td_columns t) then
                 Inl (ddl_error ''dimensions out of range: '' n)
               else Inr (db1\<lparr>db_tables := (n, t) # db_tables db1\<rparr>))"
| "exec_ddl lims (CreateIndex i) db =
     (if \<not> index_ok db i then Inl (ddl_error ''cannot create index '' (id_name i))
      else if \<not> hnsw_ok lims db i then Inl (ddl_error ''too many dimensions for hnsw index '' (id_name i))
      else Inr (db\<lparr>db_indexes := i # db_indexes db\<rparr>))"
| "exec_ddl lims (InsertConfig k v) db =
     (if \<not> has_table ''schema_config'' db then Inl (ddl_error ''relation does not exist: '' ''schema_config'')
      else if list_ex (\<lambda>r. fst r = k) (db_config db) then Inl (IntegrityError ''duplicate key'')
      else Inr (db\<lparr>db_config := (k, v) # db_config db\<rparr>))"
| "exec_ddl lims (DropTable n) db =
     (if \<not> has_table n db then Inl (ddl_error ''table does not exist: '' n)
      else if referenced n db then Inl (ddl_error ''other objects depend on '' n)
      else Inr (db\<lparr>db_tables := filter (\<lambda>t. fst t \<noteq> n) (db_tables db),
                   db_indexes := filter (\<lambda>i. id_table i \<noteq> n) (db_indexes db),
                   db_config := (if n = ''schema_config'' then [] else db_config db)\<rparr>))"
| "exec_ddl lims (DropIndex n) db =
     (if \<not> has_index n db then Inl (ddl_error ''index does not exist: '' n)
      else Inr (db\<lparr>db_indexes := filter (\<lambda>i. id_name i \<noteq> n) (db_indexes db)\<rparr>))"
| "exec_ddl lims (DropType n) db =
     (if type_used n db then Inl (ddl_error ''other objects depend on '' n)
      else Inr (db\<lparr>db_types := filter (\<lambda>t. fst t \<noteq> n) (db_types db)\<rparr>))"
| "exec_ddl lims (DropExtension n) db =
     (if extension_used n db then Inl (ddl_error ''other objects depend on '' n)
      else Inr (db\<lparr>db_extensions := filter (\<lambda>e. e \<noteq> n) (db_extensions db)\<rparr>))"

fun exec_all :: "vector_limits \<Rightarrow> ddl list \<Rightarrow> database \<Rightarrow> py_exn + database" where
  "exec_all lims [] db = Inr db"
| "exec_all lims (c # cs) db = (case exec_ddl lims c db of Inl e \<Rightarrow> Inl e | Inr db1 \<Rightarrow> exec_all lims cs db1)"

text \<open>A migration runs in one transaction, with a memo of its own.\<close>

definition run_migration :: "vector_limits \<Rightarrow> ddl list \<Rightarrow> database \<Rightarrow> (py_exn + unit) \<times> database" where
  "run_migration lims cs db =
     (case exec_all lims cs (db\<lparr>db_memo := []\<rparr>) of
        Inl e \<Rightarrow> (Inl e, db)
      | Inr db1 \<Rightarrow> (Inr (), db1\<lparr>db_memo := []\<rparr>))"

section \<open>Lemmas\<close>

lemma exec_all_append:
  "exec_all lims (cs @ ds) db = (case exec_all lims cs db of Inl e \<Rightarrow> Inl e | Inr db1 \<Rightarrow> exec_all lims ds db1)"
  by (induction cs arbitrary: db) (auto split: sum.splits)

lemma failed_migration_changes_nothing:
  "run_migration lims cs db = (Inl e, db') \<Longrightarrow> db' = db"
  by (auto simp: run_migration_def split: sum.splits)

end
