(* ===== verification/Migration.thy ===== *)
theory Migration
  imports Ddl
begin

text \<open>
  Models \<open>src/migrations/versions/0001_initial.py\<close>: the tables, indexes and types the initial
  migration creates, one definition per \<open>op.create_table\<close> call, and the statements of its upgrade and
  downgrade. The embedding dimension of the settings is the argument \<open>vdim\<close>.
\<close>

section \<open>Columns and types\<close>

text \<open>\<open>_ts\<close>.\<close>

definition ts :: "string \<Rightarrow> column_def" where
  "ts n = with_default ''now()'' (col n CTimestamptz)"

definition ENUMS :: "(string \<times> string list) list" where
  "ENUMS =
     [(''document_source'', [''ui'', ''api'']),
      (''document_status'', [''received'', ''processing'', ''pending_review'', ''validated'',
         ''completed'', ''failed'', ''quarantined'']),
      (''extraction_source'', [''model'', ''human'']),
      (''field_type'', [''string'', ''number'', ''integer'', ''boolean'', ''date'', ''datetime'',
          ''enum'', ''array'', ''object'']),
      (''pipeline_step'', [''store'', ''decompose'', ''ocr'', ''extract'', ''embed'', ''review'']),
      (''step_status'', [''pending'', ''running'', ''succeeded'', ''failed'', ''skipped'']),
      (''user_role'', [''admin'', ''reviewer'', ''viewer'']),
      (''validation_decision'', [''approved'', ''rejected'', ''corrected'']),
      (''webhook_delivery_status'', [''pending'', ''delivered'', ''failed''])]"

text \<open>\<open>_enum\<close>; a name that is not listed is a KeyError, and none occurs below.\<close>

definition enum_type :: "string \<Rightarrow> col_type" where
  "enum_type n = CEnum n (case map_of ENUMS n of None \<Rightarrow> [] | Some vs \<Rightarrow> vs)"

section \<open>Tables\<close>

definition m_users :: "table_def" where
  "m_users =
     \<lparr>td_columns =
        [col ''id'' CUuid,
         col ''email'' CCitext,
         col ''full_name'' CText,
         col ''password_hash'' CText,
         col ''role'' (enum_type ''user_role''),
         with_default ''true'' (col ''is_active'' CBoolean),
         ts ''created_at'',
         ts ''updated_at''],
      td_constraints =
        [PrimaryKey ''pk_users'' [''id''],
         Unique ''uq_users_email'' [''email''] False]\<rparr>"

definition m_api_keys :: "table_def" where
  "m_api_keys =
     \<lparr>td_columns =
        [col ''id'' CUuid,
         col ''name'' CText,
         col ''key_hash'' (CVarchar 64),
         col ''prefix'' (CVarchar 8),
         with_default (quoted ''{}'') (col ''scopes'' CTextArray),
         optional (col ''last_used_at'' CTimestamptz),
         optional (col ''expires_at'' CTimestamptz),
         optional (col ''revoked_at'' CTimestamptz),
         ts ''created_at''],
      td_constraints =
        [PrimaryKey ''pk_api_keys'' [''id''],
         Unique ''uq_api_keys_key_hash'' [''key_hash''] False]\<rparr>"

definition m_tags :: "table_def" where
  "m_tags =
     \<lparr>td_columns =
        [col ''id'' CUuid,
         col ''slug'' CCitext,
         col ''name'' CText,
         with_default (quoted []) (col ''description'' CText),
         with_default ''1'' (col ''version'' CInteger),
         with_default ''true'' (col ''is_active'' CBoolean),
         optional (col ''auto_approve_threshold'' (CNumeric (Some (4, 3)))),
         optional (col ''prompt_template'' CText),
         optional (col ''llm_model'' CText),
         optional (col ''classification_hints'' CText),
         ts ''created_at'',
         ts ''updated_at''],
      td_constraints =
        [PrimaryKey ''pk_tags'' [''id''],
         Unique ''uq_tags_slug'' [''slug''] False,
         Check ''ck_tags_auto_approve_threshold_range'' (''auto_approve_threshold IS NULL OR ''
             @ ''(auto_approve_threshold >= 0 AND auto_approve_threshold <= 1)'')]\<rparr>"

definition m_tag_fields :: "table_def" where
  "m_tag_fields =
     \<lparr>td_columns =
        [col ''id'' CUuid,
         references ''fk_tag_fields_tag_id_tags'' ''tags'' ''id'' True (col ''tag_id'' CUuid),
         col ''key'' CText,
         col ''label'' CText,
         col ''field_type'' (enum_type ''field_type''),
         optional (col ''description'' CText),
         with_default ''false'' (col ''is_required'' CBoolean),
         col ''position'' CInteger,
         optional (col ''enum_values'' CTextArray),
         optional (col ''regex'' CText),
         optional (col ''min_value'' (CNumeric None)),
         optional (col ''max_value'' (CNumeric None)),
         optional (col ''min_length'' CInteger),
         optional (col ''max_length'' CInteger),
         optional (col ''item_type'' CText),
         optional (col ''object_schema'' CJsonb),
         ts ''created_at'',
         ts ''updated_at''],
      td_constraints =
        [PrimaryKey ''pk_tag_fields'' [''id''],
         Unique ''uq_tag_fields_tag_id_key'' [''tag_id'', ''key''] False,
         Unique ''uq_tag_fields_tag_id_position'' [''tag_id'', ''position''] True]\<rparr>"

definition m_tag_versions :: "table_def" where
  "m_tag_versions =
     \<lparr>td_columns =
        [col ''id'' CUuid,
         references ''fk_tag_versions_tag_id_tags'' ''tags'' ''id'' False (col ''tag_id'' CUuid),
         col ''version'' CInteger,
         col ''snapshot'' CJsonb,
         ts ''created_at''],
      td_constraints =
        [PrimaryKey ''pk_tag_versions'' [''id''],
         Unique ''uq_tag_versions_tag_id_version'' [''tag_id'', ''version''] False]\<rparr>"

definition m_documents :: "table_def" where
  "m_documents =
     \<lparr>td_columns =
        [col ''id'' CUuid,
         col ''sha256'' (CChar 64),
         col ''original_filename'' CText,
         col ''mime_type'' CText,
         col ''size_bytes'' CBigInt,
         col ''blob_key'' CText,
         optional (col ''page_count'' CInteger),
         optional (references ''fk_documents_tag_id_tags'' ''tags'' ''id'' False (col ''tag_id'' CUuid)),
         optional (col ''tag_version'' CInteger),
         with_default (quoted ''received'') (col ''status'' (enum_type ''document_status'')),
         optional (col ''current_step'' (enum_type ''pipeline_step'')),
         optional (col ''document_confidence'' (CNumeric (Some (4, 3)))),
         with_default ''true'' (col ''needs_review'' CBoolean),
         optional (col ''title'' CText),
         col ''source'' (enum_type ''document_source''),
         optional (col ''uploaded_by'' CText),
         optional (col ''trace_id'' CText),
         optional (col ''error_code'' CText),
         optional (col ''error_detail'' CText),
         with_default (quoted ''{}'' @ ''::jsonb'') (col ''metadata'' CJsonb),
         ts ''created_at'',
         ts ''updated_at'',
         optional (col ''completed_at'' CTimestamptz),
         optional (col ''deleted_at'' CTimestamptz)],
      td_constraints =
        [PrimaryKey ''pk_documents'' [''id''],
         Unique ''uq_documents_sha256'' [''sha256''] False]\<rparr>"

definition m_document_steps :: "table_def" where
  "m_document_steps =
     \<lparr>td_columns =
        [col ''id'' CUuid,
         references ''fk_document_steps_document_id_documents'' ''documents'' ''id'' True (col ''document_id'' CUuid),
         col ''step'' (enum_type ''pipeline_step''),
         with_default (quoted ''pending'') (col ''status'' (enum_type ''step_status'')),
         with_default ''0'' (col ''attempt'' CInteger),
         with_default ''3'' (col ''max_attempts'' CInteger),
         optional (col ''started_at'' CTimestamptz),
         optional (col ''finished_at'' CTimestamptz),
         optional (col ''duration_ms'' CInteger),
         optional (col ''error_code'' CText),
         optional (col ''error_detail'' CText),
         optional (col ''output_ref'' CText),
         with_default (quoted ''{}'' @ ''::jsonb'') (col ''metrics'' CJsonb),
         ts ''created_at'',
         ts ''updated_at''],
      td_constraints =
        [PrimaryKey ''pk_document_steps'' [''id''],
         Unique ''uq_document_steps_document_id_step'' [''document_id'', ''step''] False]\<rparr>"

definition m_document_events :: "table_def" where
  "m_document_events =
     \<lparr>td_columns =
        [autoincrement (col ''id'' CBigInt),
         references ''fk_document_events_document_id_documents'' ''documents'' ''id'' False (col ''document_id'' CUuid),
         optional (col ''step'' (enum_type ''pipeline_step'')),
         col ''event_type'' CText,
         optional (col ''payload'' CJsonb),
         optional (col ''actor'' CText),
         optional (col ''trace_id'' CText),
         ts ''created_at''],
      td_constraints =
        [PrimaryKey ''pk_document_events'' [''id'']]\<rparr>"

definition m_document_pages :: "table_def" where
  "m_document_pages =
     \<lparr>td_columns =
        [col ''id'' CUuid,
         references ''fk_document_pages_document_id_documents'' ''documents'' ''id'' True (col ''document_id'' CUuid),
         col ''page'' CInteger,
         col ''blob_key'' CText,
         optional (col ''thumb_key'' CText),
         optional (col ''width'' CInteger),
         optional (col ''height'' CInteger),
         optional (col ''text_source'' CText),
         optional (col ''char_count'' CInteger),
         optional (col ''ocr_confidence'' (CNumeric (Some (4, 3)))),
         ts ''created_at''],
      td_constraints =
        [PrimaryKey ''pk_document_pages'' [''id''],
         Unique ''uq_document_pages_document_id_page'' [''document_id'', ''page''] False]\<rparr>"

definition m_extraction_versions :: "table_def" where
  "m_extraction_versions =
     \<lparr>td_columns =
        [col ''id'' CUuid,
         references ''fk_extraction_versions_document_id_documents'' ''documents'' ''id'' True (col ''document_id'' CUuid),
         col ''version'' CInteger,
         references ''fk_extraction_versions_tag_id_tags'' ''tags'' ''id'' False (col ''tag_id'' CUuid),
         col ''tag_version'' CInteger,
         col ''source'' (enum_type ''extraction_source''),
         optional (col ''model'' CText),
         optional (col ''prompt_hash'' CText),
         col ''document_confidence'' (CNumeric (Some (4, 3))),
         col ''mongo_id'' CText,
         with_default ''false'' (col ''is_current'' CBoolean),
         optional (col ''created_by'' CText),
         ts ''created_at''],
      td_constraints =
        [PrimaryKey ''pk_extraction_versions'' [''id''],
         Unique ''uq_extraction_versions_document_id_version'' [''document_id'', ''version''] False]\<rparr>"

definition m_validations :: "table_def" where
  "m_validations =
     \<lparr>td_columns =
        [col ''id'' CUuid,
         references ''fk_validations_document_id_documents'' ''documents'' ''id'' False (col ''document_id'' CUuid),
         references ''fk_validations_extraction_version_id_extraction_versions'' ''extraction_versions'' ''id'' False (col ''extraction_version_id'' CUuid),
         col ''decision'' (enum_type ''validation_decision''),
         optional (references ''fk_validations_reviewer_id_users'' ''users'' ''id'' False (col ''reviewer_id'' CUuid)),
         optional (col ''notes'' CText),
         optional (col ''corrected_fields'' CJsonb),
         with_default ''false'' (col ''auto'' CBoolean),
         ts ''created_at''],
      td_constraints =
        [PrimaryKey ''pk_validations'' [''id'']]\<rparr>"

definition m_chunks :: "int \<Rightarrow> table_def" where
  "m_chunks vdim =
     \<lparr>td_columns =
        [col ''id'' CUuid,
         references ''fk_chunks_document_id_documents'' ''documents'' ''id'' True (col ''document_id'' CUuid),
         col ''chunk_index'' CInteger,
         col ''text'' CText,
         col ''embedding'' (CVector vdim),
         col ''embed_model'' CText,
         col ''embed_dim'' CInteger,
         optional (col ''page_from'' CInteger),
         optional (col ''page_to'' CInteger),
         optional (col ''token_count'' CInteger),
         optional (computed (''to_tsvector('' @ quoted ''simple'' @ ''::regconfig, text)'') (col ''tsv'' CTsvector)),
         with_default (quoted ''{}'' @ ''::jsonb'') (col ''metadata'' CJsonb),
         ts ''created_at''],
      td_constraints =
        [PrimaryKey ''pk_chunks'' [''id''],
         Unique ''uq_chunks_document_id_chunk_index_embed_model'' [''document_id'', ''chunk_index'', ''embed_model''] False]\<rparr>"

definition m_webhooks :: "table_def" where
  "m_webhooks =
     \<lparr>td_columns =
        [col ''id'' CUuid,
         col ''url'' CText,
         col ''secret'' CText,
         with_default (quoted ''{}'') (col ''events'' CTextArray),
         with_default ''true'' (col ''is_active'' CBoolean),
         ts ''created_at'',
         ts ''updated_at''],
      td_constraints =
        [PrimaryKey ''pk_webhooks'' [''id'']]\<rparr>"

definition m_webhook_deliveries :: "table_def" where
  "m_webhook_deliveries =
     \<lparr>td_columns =
        [autoincrement (col ''id'' CBigInt),
         references ''fk_webhook_deliveries_webhook_id_webhooks'' ''webhooks'' ''id'' False (col ''webhook_id'' CUuid),
         col ''event_type'' CText,
         optional (col ''payload'' CJsonb),
         with_default (quoted ''pending'') (col ''status'' (enum_type ''webhook_delivery_status'')),
         with_default ''0'' (col ''attempt'' CInteger),
         optional (col ''response_status'' CInteger),
         optional (col ''error'' CText),
         ts ''created_at'',
         optional (col ''delivered_at'' CTimestamptz)],
      td_constraints =
        [PrimaryKey ''pk_webhook_deliveries'' [''id'']]\<rparr>"

definition m_idempotency_keys :: "table_def" where
  "m_idempotency_keys =
     \<lparr>td_columns =
        [col ''id'' CUuid,
         col ''key'' CText,
         col ''endpoint'' CText,
         col ''request_hash'' CText,
         optional (col ''response_status'' CInteger),
         optional (col ''response_body'' CJsonb),
         ts ''created_at'',
         col ''expires_at'' CTimestamptz],
      td_constraints =
        [PrimaryKey ''pk_idempotency_keys'' [''id''],
         Unique ''uq_idempotency_keys_key'' [''key''] False]\<rparr>"

definition m_schema_config :: "table_def" where
  "m_schema_config =
     \<lparr>td_columns =
        [col ''key'' CText,
         col ''value'' CJsonb,
         ts ''created_at'',
         ts ''updated_at''],
      td_constraints =
        [PrimaryKey ''pk_schema_config'' [''key'']]\<rparr>"

section \<open>The statements\<close>

text \<open>\<open>upgrade\<close>, up to the first table that depends on the dimension and from there on.\<close>

definition upgrade_first :: "ddl list" where
  "upgrade_first =
     [CreateExtension ''vector'',
      CreateExtension ''citext'',
      CreateTable ''users'' m_users,
      CreateTable ''api_keys'' m_api_keys,
      CreateTable ''tags'' m_tags,
      CreateTable ''tag_fields'' m_tag_fields,
      CreateTable ''tag_versions'' m_tag_versions,
      CreateTable ''documents'' m_documents,
      CreateIndex (index_on ''ix_documents_status'' ''documents'' [''status''] False None ''btree'' [] []),
      CreateIndex (index_on ''ix_documents_tag_id'' ''documents'' [''tag_id''] False None ''btree'' [] []),
      CreateIndex (index_on ''ix_documents_created_at'' ''documents'' [''created_at DESC''] False None ''btree'' [] []),
      CreateIndex (index_on ''ix_documents_needs_review'' ''documents'' [''needs_review''] False (Some ''needs_review'') ''btree'' [] []),
      CreateIndex (index_on ''ix_documents_metadata'' ''documents'' [''metadata''] False None ''gin'' [] []),
      CreateTable ''document_steps'' m_document_steps,
      CreateIndex (index_on ''ix_document_steps_status_step'' ''document_steps'' [''status'', ''step''] False None ''btree'' [] []),
      CreateTable ''document_events'' m_document_events,
      CreateIndex (index_on ''ix_document_events_document_id_created_at'' ''document_events'' [''document_id'', ''created_at''] False None ''btree'' [] []),
      CreateTable ''document_pages'' m_document_pages,
      CreateTable ''extraction_versions'' m_extraction_versions,
      CreateIndex (index_on ''uq_extraction_versions_document_id_current'' ''extraction_versions'' [''document_id''] True (Some ''is_current'') ''btree'' [] []),
      CreateTable ''validations'' m_validations]"

definition upgrade_second :: "int \<Rightarrow> ddl list" where
  "upgrade_second vdim =
     [CreateTable ''chunks'' (m_chunks vdim),
      CreateIndex (index_on ''ix_chunks_document_id'' ''chunks'' [''document_id''] False None ''btree'' [] []),
      CreateIndex (index_on ''ix_chunks_tsv'' ''chunks'' [''tsv''] False None ''gin'' [] []),
      CreateIndex (index_on ''ix_chunks_embedding_hnsw'' ''chunks'' [''embedding''] False None ''hnsw'' [(''m'', ''16''), (''ef_construction'', ''64'')] [(''embedding'', ''vector_cosine_ops'')]),
      CreateTable ''webhooks'' m_webhooks,
      CreateTable ''webhook_deliveries'' m_webhook_deliveries,
      CreateTable ''idempotency_keys'' m_idempotency_keys,
      CreateTable ''schema_config'' m_schema_config,
      InsertConfig ''vector'' [(''embed_dim'', JInt vdim)]]"

definition upgrade :: "int \<Rightarrow> ddl list" where
  "upgrade vdim = upgrade_first @ upgrade_second vdim"

definition downgrade :: "ddl list" where
  "downgrade =
     [DropTable ''schema_config'',
      DropTable ''idempotency_keys'',
      DropTable ''webhook_deliveries'',
      DropTable ''webhooks'',
      DropIndex ''ix_chunks_embedding_hnsw'',
      DropIndex ''ix_chunks_tsv'',
      DropIndex ''ix_chunks_document_id'',
      DropTable ''chunks'',
      DropTable ''validations'',
      DropIndex ''uq_extraction_versions_document_id_current'',
      DropTable ''extraction_versions'',
      DropTable ''document_pages'',
      DropIndex ''ix_document_events_document_id_created_at'',
      DropTable ''document_events'',
      DropIndex ''ix_document_steps_status_step'',
      DropTable ''document_steps'',
      DropIndex ''ix_documents_metadata'',
      DropIndex ''ix_documents_needs_review'',
      DropIndex ''ix_documents_created_at'',
      DropIndex ''ix_documents_tag_id'',
      DropIndex ''ix_documents_status'',
      DropTable ''documents'',
      DropTable ''tag_versions'',
      DropTable ''tag_fields'',
      DropTable ''tags'',
      DropTable ''api_keys'',
      DropTable ''users'']
     @ map (\<lambda>e. DropType (fst e)) ENUMS
     @ [DropExtension ''citext'',
      DropExtension ''vector'']"

end
