(* ===== verification/Orm.thy ===== *)
theory Orm
  imports Ddl
begin

text \<open>
  Models \<open>src/ipa/db/base.py\<close> and the tables the classes of \<open>src/ipa/db/models/\<close> declare: the naming
  convention, the column mixins, one definition per class with its own columns and table arguments,
  and the metadata that SQLAlchemy makes of them. \<open>vdim\<close> is the \<open>EMBED_DIM\<close> of the settings.
\<close>

section \<open>The naming convention\<close>

definition NAMING_CONVENTION :: "(string \<times> string) list" where
  "NAMING_CONVENTION =
     [(''ix'', ''ix_%(column_0_label)s''),
      (''uq'', ''uq_%(table_name)s_%(column_0_name)s''),
      (''ck'', ''ck_%(table_name)s_%(constraint_name)s''),
      (''fk'', ''fk_%(table_name)s_%(column_0_name)s_%(referred_table_name)s''),
      (''pk'', ''pk_%(table_name)s'')]"

text \<open>The \<open>%\<close>-formatting of a template: \<open>%(key)s\<close> becomes the value of the key.\<close>

function expand :: "(string \<times> string) list \<Rightarrow> string \<Rightarrow> string" where
  "expand b [] = []"
| "expand b (c # s) =
     (if c = CHR ''%'' \<and> startswith s ''('' then
        (case map_of b (takeWhile (\<lambda>x. x \<noteq> CHR '')'') (tl s)) of None \<Rightarrow> [] | Some v \<Rightarrow> v)
        @ expand b (drop 2 (dropWhile (\<lambda>x. x \<noteq> CHR '')'') (tl s)))
      else c # expand b s)"
  by pat_completeness auto
termination
proof (relation "measure (\<lambda>(b, s). length s)")
  fix b c and s :: string
  have "length (drop 2 (dropWhile (\<lambda>x. x \<noteq> CHR '')'') (tl s))) \<le> length (tl s)"
    by (metis diff_le_self dual_order.trans length_drop length_dropWhile_le)
  then show "((b, drop 2 (dropWhile (\<lambda>x. x \<noteq> CHR '')'') (tl s))), (b, c # s)) \<in> measure (\<lambda>(b, s). length s)"
    by simp
qed simp_all

definition name_for :: "string \<Rightarrow> (string \<times> string) list \<Rightarrow> string" where
  "name_for kind b = (case map_of NAMING_CONVENTION kind of None \<Rightarrow> [] | Some t \<Rightarrow> expand b t)"

section \<open>Models\<close>

record orm_column =
  oc_column :: column_def
  oc_unique :: bool
  oc_primary :: bool
  oc_fk :: "(string \<times> bool) option"

datatype table_arg =
    ArgUnique string "string list" bool
  | ArgCheck string string
  | ArgIndex index_def

datatype mixin = UuidPkMixin | TimestampMixin | CreatedOnlyMixin

record orm_model =
  om_table :: string
  om_mixins :: "mixin list"
  om_columns :: "orm_column list"
  om_args :: "table_arg list"

definition mapped :: "string \<Rightarrow> col_type \<Rightarrow> orm_column" where
  "mapped n ty = \<lparr>oc_column = col n ty, oc_unique = False, oc_primary = False, oc_fk = None\<rparr>"

definition is_nullable :: "orm_column \<Rightarrow> orm_column" where
  "is_nullable c = c\<lparr>oc_column := optional (oc_column c)\<rparr>"

definition server_default :: "string \<Rightarrow> orm_column \<Rightarrow> orm_column" where
  "server_default d c = c\<lparr>oc_column := with_default d (oc_column c)\<rparr>"

definition auto_id :: "orm_column \<Rightarrow> orm_column" where
  "auto_id c = c\<lparr>oc_column := autoincrement (oc_column c)\<rparr>"

definition computed_as :: "string \<Rightarrow> orm_column \<Rightarrow> orm_column" where
  "computed_as e c = c\<lparr>oc_column := computed e (oc_column c)\<rparr>"

definition unique :: "orm_column \<Rightarrow> orm_column" where
  "unique c = c\<lparr>oc_unique := True\<rparr>"

definition primary_key :: "orm_column \<Rightarrow> orm_column" where
  "primary_key c = c\<lparr>oc_primary := True\<rparr>"

text \<open>\<open>ForeignKey("t.id", ondelete="CASCADE")\<close>, or without the cascade.\<close>

definition foreign_key :: "string \<Rightarrow> bool \<Rightarrow> orm_column \<Rightarrow> orm_column" where
  "foreign_key t cascade c = c\<lparr>oc_fk := Some (t, cascade)\<rparr>"

text \<open>\<open>str_enum\<close> persists the values of the members.\<close>

definition str_enum :: "string \<Rightarrow> string list \<Rightarrow> col_type" where
  "str_enum n values = CEnum n values"

text \<open>The mixins' columns. The default of \<open>id\<close> is Python's, not the database's.\<close>

definition uuid_pk_columns :: "orm_column list" where
  "uuid_pk_columns = [primary_key (mapped ''id'' CUuid)]"

definition created_only_columns :: "orm_column list" where
  "created_only_columns = [server_default ''now()'' (mapped ''created_at'' CTimestamptz)]"

definition timestamp_columns :: "orm_column list" where
  "timestamp_columns =
     [server_default ''now()'' (mapped ''created_at'' CTimestamptz),
      server_default ''now()'' (mapped ''updated_at'' CTimestamptz)]"

fun mixin_columns :: "mixin \<Rightarrow> orm_column list" where
  "mixin_columns UuidPkMixin = uuid_pk_columns"
| "mixin_columns TimestampMixin = timestamp_columns"
| "mixin_columns CreatedOnlyMixin = created_only_columns"

text \<open>The members of the persisted enumerations.\<close>

definition all_user_role :: "user_role list" where
  "all_user_role = [ADMIN, REVIEWER, VIEWER]"

definition all_field_type :: "field_type list" where
  "all_field_type = [STRING, NUMBER, INTEGER, BOOLEAN, DATE, DATETIME, ENUM, ARRAY, OBJECT]"

definition all_document_status :: "document_status list" where
  "all_document_status = [RECEIVED, PROCESSING, PENDING_REVIEW, VALIDATED, COMPLETED, DOC_FAILED, QUARANTINED]"

definition all_step :: "pipeline_step list" where
  "all_step = [STORE, DECOMPOSE, OCR, EXTRACT, EMBED, REVIEW]"

definition all_step_status :: "step_status list" where
  "all_step_status = [PENDING, RUNNING, SUCCEEDED, FAILED, SKIPPED]"

definition all_document_source :: "document_source list" where
  "all_document_source = [UI, API]"

definition all_extraction_source :: "extraction_source list" where
  "all_extraction_source = [MODEL, HUMAN]"

definition all_validation_decision :: "validation_decision list" where
  "all_validation_decision = [APPROVED, REJECTED, CORRECTED]"

definition all_webhook_delivery_status :: "webhook_delivery_status list" where
  "all_webhook_delivery_status = [DELIVERY_PENDING, DELIVERED, DELIVERY_FAILED]"

section \<open>The classes\<close>

definition orm_users :: "orm_model" where
  "orm_users =
     \<lparr>om_table = ''users'', om_mixins = [UuidPkMixin, TimestampMixin],
      om_columns =
        [unique (mapped ''email'' CCitext),
         mapped ''full_name'' CText,
         mapped ''password_hash'' CText,
         mapped ''role'' (str_enum ''user_role'' (map user_role_value all_user_role)),
         server_default ''true'' (mapped ''is_active'' CBoolean)],
      om_args =
        []\<rparr>"

definition orm_api_keys :: "orm_model" where
  "orm_api_keys =
     \<lparr>om_table = ''api_keys'', om_mixins = [UuidPkMixin],
      om_columns =
        [mapped ''name'' CText,
         unique (mapped ''key_hash'' (CVarchar 64)),
         mapped ''prefix'' (CVarchar 8),
         server_default (quoted ''{}'') (mapped ''scopes'' CTextArray),
         is_nullable (mapped ''last_used_at'' CTimestamptz),
         is_nullable (mapped ''expires_at'' CTimestamptz),
         is_nullable (mapped ''revoked_at'' CTimestamptz),
         server_default ''now()'' (mapped ''created_at'' CTimestamptz)],
      om_args =
        []\<rparr>"

definition orm_tags :: "orm_model" where
  "orm_tags =
     \<lparr>om_table = ''tags'', om_mixins = [UuidPkMixin, TimestampMixin],
      om_columns =
        [unique (mapped ''slug'' CCitext),
         mapped ''name'' CText,
         server_default (quoted []) (mapped ''description'' CText),
         server_default ''1'' (mapped ''version'' CInteger),
         server_default ''true'' (mapped ''is_active'' CBoolean),
         is_nullable (mapped ''auto_approve_threshold'' (CNumeric (Some (4, 3)))),
         is_nullable (mapped ''prompt_template'' CText),
         is_nullable (mapped ''llm_model'' CText),
         is_nullable (mapped ''classification_hints'' CText)],
      om_args =
        [ArgCheck ''auto_approve_threshold_range'' (''auto_approve_threshold IS NULL OR ''
            @ ''(auto_approve_threshold >= 0 AND auto_approve_threshold <= 1)'')]\<rparr>"

definition orm_tag_fields :: "orm_model" where
  "orm_tag_fields =
     \<lparr>om_table = ''tag_fields'', om_mixins = [UuidPkMixin, TimestampMixin],
      om_columns =
        [foreign_key ''tags'' True (mapped ''tag_id'' CUuid),
         mapped ''key'' CText,
         mapped ''label'' CText,
         mapped ''field_type'' (str_enum ''field_type'' (map field_type_value all_field_type)),
         is_nullable (mapped ''description'' CText),
         server_default ''false'' (mapped ''is_required'' CBoolean),
         mapped ''position'' CInteger,
         is_nullable (mapped ''enum_values'' CTextArray),
         is_nullable (mapped ''regex'' CText),
         is_nullable (mapped ''min_value'' (CNumeric None)),
         is_nullable (mapped ''max_value'' (CNumeric None)),
         is_nullable (mapped ''min_length'' CInteger),
         is_nullable (mapped ''max_length'' CInteger),
         is_nullable (mapped ''item_type'' CText),
         is_nullable (mapped ''object_schema'' CJsonb)],
      om_args =
        [ArgUnique ''uq_tag_fields_tag_id_key'' [''tag_id'', ''key''] False,
         ArgUnique ''uq_tag_fields_tag_id_position'' [''tag_id'', ''position''] True]\<rparr>"

definition orm_tag_versions :: "orm_model" where
  "orm_tag_versions =
     \<lparr>om_table = ''tag_versions'', om_mixins = [UuidPkMixin],
      om_columns =
        [foreign_key ''tags'' False (mapped ''tag_id'' CUuid),
         mapped ''version'' CInteger,
         mapped ''snapshot'' CJsonb,
         server_default ''now()'' (mapped ''created_at'' CTimestamptz)],
      om_args =
        [ArgUnique ''uq_tag_versions_tag_id_version'' [''tag_id'', ''version''] False]\<rparr>"

definition orm_documents :: "orm_model" where
  "orm_documents =
     \<lparr>om_table = ''documents'', om_mixins = [UuidPkMixin, TimestampMixin],
      om_columns =
        [unique (mapped ''sha256'' (CChar 64)),
         mapped ''original_filename'' CText,
         mapped ''mime_type'' CText,
         mapped ''size_bytes'' CBigInt,
         mapped ''blob_key'' CText,
         is_nullable (mapped ''page_count'' CInteger),
         is_nullable (foreign_key ''tags'' False (mapped ''tag_id'' CUuid)),
         is_nullable (mapped ''tag_version'' CInteger),
         server_default (quoted ''received'') (mapped ''status'' (str_enum ''document_status'' (map document_status_value all_document_status))),
         is_nullable (mapped ''current_step'' (str_enum ''pipeline_step'' (map step_value all_step))),
         is_nullable (mapped ''document_confidence'' (CNumeric (Some (4, 3)))),
         server_default ''true'' (mapped ''needs_review'' CBoolean),
         is_nullable (mapped ''title'' CText),
         mapped ''source'' (str_enum ''document_source'' (map document_source_value all_document_source)),
         is_nullable (mapped ''uploaded_by'' CText),
         is_nullable (mapped ''trace_id'' CText),
         is_nullable (mapped ''error_code'' CText),
         is_nullable (mapped ''error_detail'' CText),
         server_default (quoted ''{}'' @ ''::jsonb'') (mapped ''metadata'' CJsonb),
         is_nullable (mapped ''completed_at'' CTimestamptz),
         is_nullable (mapped ''deleted_at'' CTimestamptz)],
      om_args =
        [ArgIndex (index_on ''ix_documents_status'' ''documents'' [''status''] False None ''btree'' [] []),
         ArgIndex (index_on ''ix_documents_tag_id'' ''documents'' [''tag_id''] False None ''btree'' [] []),
         ArgIndex (index_on ''ix_documents_created_at'' ''documents'' [''created_at DESC''] False None ''btree'' [] []),
         ArgIndex (index_on ''ix_documents_needs_review'' ''documents'' [''needs_review''] False (Some ''needs_review'') ''btree'' [] []),
         ArgIndex (index_on ''ix_documents_metadata'' ''documents'' [''metadata''] False None ''gin'' [] [])]\<rparr>"

definition orm_document_steps :: "orm_model" where
  "orm_document_steps =
     \<lparr>om_table = ''document_steps'', om_mixins = [UuidPkMixin, TimestampMixin],
      om_columns =
        [foreign_key ''documents'' True (mapped ''document_id'' CUuid),
         mapped ''step'' (str_enum ''pipeline_step'' (map step_value all_step)),
         server_default (quoted ''pending'') (mapped ''status'' (str_enum ''step_status'' (map step_status_value all_step_status))),
         server_default ''0'' (mapped ''attempt'' CInteger),
         server_default ''3'' (mapped ''max_attempts'' CInteger),
         is_nullable (mapped ''started_at'' CTimestamptz),
         is_nullable (mapped ''finished_at'' CTimestamptz),
         is_nullable (mapped ''duration_ms'' CInteger),
         is_nullable (mapped ''error_code'' CText),
         is_nullable (mapped ''error_detail'' CText),
         is_nullable (mapped ''output_ref'' CText),
         server_default (quoted ''{}'' @ ''::jsonb'') (mapped ''metrics'' CJsonb)],
      om_args =
        [ArgUnique ''uq_document_steps_document_id_step'' [''document_id'', ''step''] False,
         ArgIndex (index_on ''ix_document_steps_status_step'' ''document_steps'' [''status'', ''step''] False None ''btree'' [] [])]\<rparr>"

definition orm_document_events :: "orm_model" where
  "orm_document_events =
     \<lparr>om_table = ''document_events'', om_mixins = [CreatedOnlyMixin],
      om_columns =
        [primary_key (auto_id (mapped ''id'' CBigInt)),
         foreign_key ''documents'' False (mapped ''document_id'' CUuid),
         is_nullable (mapped ''step'' (str_enum ''pipeline_step'' (map step_value all_step))),
         mapped ''event_type'' CText,
         is_nullable (mapped ''payload'' CJsonb),
         is_nullable (mapped ''actor'' CText),
         is_nullable (mapped ''trace_id'' CText)],
      om_args =
        [ArgIndex (index_on ''ix_document_events_document_id_created_at'' ''document_events'' [''document_id'', ''created_at''] False None ''btree'' [] [])]\<rparr>"

definition orm_document_pages :: "orm_model" where
  "orm_document_pages =
     \<lparr>om_table = ''document_pages'', om_mixins = [UuidPkMixin, CreatedOnlyMixin],
      om_columns =
        [foreign_key ''documents'' True (mapped ''document_id'' CUuid),
         mapped ''page'' CInteger,
         mapped ''blob_key'' CText,
         is_nullable (mapped ''thumb_key'' CText),
         is_nullable (mapped ''width'' CInteger),
         is_nullable (mapped ''height'' CInteger),
         is_nullable (mapped ''text_source'' CText),
         is_nullable (mapped ''char_count'' CInteger),
         is_nullable (mapped ''ocr_confidence'' (CNumeric (Some (4, 3))))],
      om_args =
        [ArgUnique ''uq_document_pages_document_id_page'' [''document_id'', ''page''] False]\<rparr>"

definition orm_extraction_versions :: "orm_model" where
  "orm_extraction_versions =
     \<lparr>om_table = ''extraction_versions'', om_mixins = [UuidPkMixin, CreatedOnlyMixin],
      om_columns =
        [foreign_key ''documents'' True (mapped ''document_id'' CUuid),
         mapped ''version'' CInteger,
         foreign_key ''tags'' False (mapped ''tag_id'' CUuid),
         mapped ''tag_version'' CInteger,
         mapped ''source'' (str_enum ''extraction_source'' (map extraction_source_value all_extraction_source)),
         is_nullable (mapped ''model'' CText),
         is_nullable (mapped ''prompt_hash'' CText),
         mapped ''document_confidence'' (CNumeric (Some (4, 3))),
         mapped ''mongo_id'' CText,
         server_default ''false'' (mapped ''is_current'' CBoolean),
         is_nullable (mapped ''created_by'' CText)],
      om_args =
        [ArgUnique ''uq_extraction_versions_document_id_version'' [''document_id'', ''version''] False,
         ArgIndex (index_on ''uq_extraction_versions_document_id_current'' ''extraction_versions'' [''document_id''] True (Some ''is_current'') ''btree'' [] [])]\<rparr>"

definition orm_validations :: "orm_model" where
  "orm_validations =
     \<lparr>om_table = ''validations'', om_mixins = [UuidPkMixin, CreatedOnlyMixin],
      om_columns =
        [foreign_key ''documents'' False (mapped ''document_id'' CUuid),
         foreign_key ''extraction_versions'' False (mapped ''extraction_version_id'' CUuid),
         mapped ''decision'' (str_enum ''validation_decision'' (map validation_decision_value all_validation_decision)),
         is_nullable (foreign_key ''users'' False (mapped ''reviewer_id'' CUuid)),
         is_nullable (mapped ''notes'' CText),
         is_nullable (mapped ''corrected_fields'' CJsonb),
         server_default ''false'' (mapped ''auto'' CBoolean)],
      om_args =
        []\<rparr>"

definition orm_chunks :: "int \<Rightarrow> orm_model" where
  "orm_chunks vdim =
     \<lparr>om_table = ''chunks'', om_mixins = [UuidPkMixin, CreatedOnlyMixin],
      om_columns =
        [foreign_key ''documents'' True (mapped ''document_id'' CUuid),
         mapped ''chunk_index'' CInteger,
         mapped ''text'' CText,
         mapped ''embedding'' (CVector vdim),
         mapped ''embed_model'' CText,
         mapped ''embed_dim'' CInteger,
         is_nullable (mapped ''page_from'' CInteger),
         is_nullable (mapped ''page_to'' CInteger),
         is_nullable (mapped ''token_count'' CInteger),
         is_nullable (computed_as (''to_tsvector('' @ quoted ''simple'' @ ''::regconfig, text)'') (mapped ''tsv'' CTsvector)),
         server_default (quoted ''{}'' @ ''::jsonb'') (mapped ''metadata'' CJsonb)],
      om_args =
        [ArgUnique ''uq_chunks_document_id_chunk_index_embed_model'' [''document_id'', ''chunk_index'', ''embed_model''] False,
         ArgIndex (index_on ''ix_chunks_document_id'' ''chunks'' [''document_id''] False None ''btree'' [] []),
         ArgIndex (index_on ''ix_chunks_tsv'' ''chunks'' [''tsv''] False None ''gin'' [] []),
         ArgIndex (index_on ''ix_chunks_embedding_hnsw'' ''chunks'' [''embedding''] False None ''hnsw'' [(''m'', ''16''), (''ef_construction'', ''64'')] [(''embedding'', ''vector_cosine_ops'')])]\<rparr>"

definition orm_webhooks :: "orm_model" where
  "orm_webhooks =
     \<lparr>om_table = ''webhooks'', om_mixins = [TimestampMixin, UuidPkMixin],
      om_columns =
        [mapped ''url'' CText,
         mapped ''secret'' CText,
         server_default (quoted ''{}'') (mapped ''events'' CTextArray),
         server_default ''true'' (mapped ''is_active'' CBoolean)],
      om_args =
        []\<rparr>"

definition orm_webhook_deliveries :: "orm_model" where
  "orm_webhook_deliveries =
     \<lparr>om_table = ''webhook_deliveries'', om_mixins = [CreatedOnlyMixin],
      om_columns =
        [primary_key (auto_id (mapped ''id'' CBigInt)),
         foreign_key ''webhooks'' False (mapped ''webhook_id'' CUuid),
         mapped ''event_type'' CText,
         is_nullable (mapped ''payload'' CJsonb),
         server_default (quoted ''pending'') (mapped ''status'' (str_enum ''webhook_delivery_status'' (map webhook_delivery_status_value all_webhook_delivery_status))),
         server_default ''0'' (mapped ''attempt'' CInteger),
         is_nullable (mapped ''response_status'' CInteger),
         is_nullable (mapped ''error'' CText),
         is_nullable (mapped ''delivered_at'' CTimestamptz)],
      om_args =
        []\<rparr>"

definition orm_schema_config :: "orm_model" where
  "orm_schema_config =
     \<lparr>om_table = ''schema_config'', om_mixins = [TimestampMixin],
      om_columns =
        [primary_key (mapped ''key'' CText),
         mapped ''value'' CJsonb],
      om_args =
        []\<rparr>"

definition orm_idempotency_keys :: "orm_model" where
  "orm_idempotency_keys =
     \<lparr>om_table = ''idempotency_keys'', om_mixins = [CreatedOnlyMixin],
      om_columns =
        [primary_key (mapped ''id'' CUuid),
         unique (mapped ''key'' CText),
         mapped ''endpoint'' CText,
         mapped ''request_hash'' CText,
         is_nullable (mapped ''response_status'' CInteger),
         is_nullable (mapped ''response_body'' CJsonb),
         mapped ''expires_at'' CTimestamptz],
      om_args =
        []\<rparr>"

section \<open>The metadata\<close>

definition model_columns :: "orm_model \<Rightarrow> orm_column list" where
  "model_columns m = concat (map mixin_columns (om_mixins m)) @ om_columns m"

definition metadata_column :: "string \<Rightarrow> orm_column \<Rightarrow> column_def" where
  "metadata_column t c =
     (case oc_fk c of
        None \<Rightarrow> oc_column c
      | Some (target, cascade) \<Rightarrow>
          references
            (name_for ''fk'' [(''table_name'', t), (''column_0_name'', cd_name (oc_column c)),
               (''referred_table_name'', target)])
            target ''id'' cascade (oc_column c))"

fun arg_constraint :: "string \<Rightarrow> table_arg \<Rightarrow> constraint_def list" where
  "arg_constraint t (ArgUnique n cs d) = [Unique n cs d]"
| "arg_constraint t (ArgCheck n e) =
     [Check (name_for ''ck'' [(''table_name'', t), (''constraint_name'', n)]) e]"
| "arg_constraint t (ArgIndex i) = []"

fun arg_index :: "table_arg \<Rightarrow> index_def list" where
  "arg_index (ArgIndex i) = [i]"
| "arg_index _ = []"

definition metadata_table :: "orm_model \<Rightarrow> table_def" where
  "metadata_table m =
     (let t = om_table m; cs = model_columns m
      in \<lparr>td_columns = map (metadata_column t) cs,
          td_constraints =
            PrimaryKey (name_for ''pk'' [(''table_name'', t)])
              (map (\<lambda>c. cd_name (oc_column c)) (filter oc_primary cs))
            # map (\<lambda>c. Unique (name_for ''uq'' [(''table_name'', t), (''column_0_name'', cd_name (oc_column c))])
                          [cd_name (oc_column c)] False) (filter oc_unique cs)
            @ concat (map (arg_constraint t) (om_args m))\<rparr>)"

definition metadata_indexes :: "orm_model \<Rightarrow> index_def list" where
  "metadata_indexes m = concat (map arg_index (om_args m))"

definition orm_models :: "int \<Rightarrow> orm_model list" where
  "orm_models vdim =
     [orm_users,
      orm_api_keys,
      orm_tags,
      orm_tag_fields,
      orm_tag_versions,
      orm_documents,
      orm_document_steps,
      orm_document_events,
      orm_document_pages,
      orm_extraction_versions,
      orm_validations,
      orm_chunks vdim,
      orm_webhooks,
      orm_webhook_deliveries,
      orm_schema_config,
      orm_idempotency_keys]"

end
