(* ===== verification/Schema.thy ===== *)
theory Schema
  imports Migration Orm Config
begin

text \<open>
  The deployed schema: that the initial migration builds the tables the ORM models declare and its
  downgrade removes them all, for which embedding dimensions it succeeds, and that the startup check
  of \<open>src/ipa/db/verify.py\<close> accepts exactly the dimension the migration recorded. Also models
  \<open>src/migrations/env.py\<close>: how the connection URL reaches Alembic, and the transaction around a run.
\<close>

section \<open>Comparing a database with the metadata\<close>

definition same_items :: "'a list \<Rightarrow> 'a list \<Rightarrow> bool" where
  "same_items xs ys \<longleftrightarrow>
     length xs = length ys \<and> list_all (List.member ys) xs \<and> list_all (List.member xs) ys"

definition same_table :: "table_def \<Rightarrow> table_def \<Rightarrow> bool" where
  "same_table t u \<longleftrightarrow>
     same_items (td_columns t) (td_columns u) \<and> same_items (td_constraints t) (td_constraints u)"

definition schema_matches :: "database \<Rightarrow> orm_model list \<Rightarrow> bool" where
  "schema_matches db ms \<longleftrightarrow>
     same_items (map fst (db_tables db)) (map om_table ms)
     \<and> list_all (\<lambda>m. case map_of (db_tables db) (om_table m) of
          None \<Rightarrow> False | Some t \<Rightarrow> same_table t (metadata_table m)) ms
     \<and> same_items (db_indexes db) (concat (map metadata_indexes ms))
     \<and> same_items (db_types db)
          (remdups (concat (map (\<lambda>m. enums_of (td_columns (metadata_table m))) ms)))"

section \<open>The startup check\<close>

definition VECTOR_CONFIG_KEY :: string where
  "VECTOR_CONFIG_KEY = ''vector''"

text \<open>\<open>_recorded_dim\<close>: absent, null or not a number is \<open>None\<close>.\<close>

definition recorded_dim :: "json_dict \<Rightarrow> int option" where
  "recorded_dim value =
     (case map_of value ''embed_dim'' of
        None \<Rightarrow> None
      | Some JNull \<Rightarrow> None
      | Some raw \<Rightarrow> int_of_json raw)"

definition str_opt_int :: "int option \<Rightarrow> string" where
  "str_opt_int x = (case x of None \<Rightarrow> ''None'' | Some n \<Rightarrow> str_int n)"

definition verify_schema_config :: "int \<Rightarrow> database \<Rightarrow> py_exn + unit" where
  "verify_schema_config EMBED_DIM db =
     (if \<not> has_table ''schema_config'' db then Inl (ddl_error ''relation does not exist: '' ''schema_config'')
      else
        case map_of (db_config db) VECTOR_CONFIG_KEY of
          None \<Rightarrow> Inl (IpaExn (raise_error ConfigurationError
                    ''schema_config is missing the vector dimension row; run `make migrate`.''))
        | Some value \<Rightarrow>
            (let recorded = recorded_dim value
             in if recorded \<noteq> Some EMBED_DIM then
                  Inl (IpaExn (raise_error ConfigurationError
                    (''NVIDIA_EMBED_DIM='' @ str_int EMBED_DIM @ '' but the database vector column was ''
                     @ ''built with dimension '' @ str_opt_int recorded @ ''. Revert the setting or migrate ''
                     @ ''the chunks table to the new dimension.'')))
                else Inr ()))"

section \<open>The migration environment\<close>

text \<open>
  \<open>config.set_main_option\<close> and reading the option back: the value goes through \<open>ConfigParser\<close>, where
  \<open>%%\<close> stands for a percent sign, \<open>%(name)s\<close> for another option (there is none of use in a URL, so it
  is an error here), and any other percent sign is refused.
\<close>

fun interpolate :: "string \<Rightarrow> py_exn + string" where
  "interpolate [] = Inr []"
| "interpolate (c # s) =
     (if c \<noteq> CHR ''%'' then (case interpolate s of Inl e \<Rightarrow> Inl e | Inr t \<Rightarrow> Inr (c # t))
      else case s of
        [] \<Rightarrow> Inl (ValueError ''invalid interpolation syntax'')
      | d # s' \<Rightarrow>
          if d = CHR ''%'' then (case interpolate s' of Inl e \<Rightarrow> Inl e | Inr t \<Rightarrow> Inr (c # t))
          else Inl (ValueError ''invalid interpolation syntax''))"

definition migration_url :: "settings \<Rightarrow> py_exn + string" where
  "migration_url st = interpolate (pg_dsn (postgres st))"

text \<open>
  The online run: the URL, a connection and a transaction; the migration functions are the
  statements \<open>cs\<close>. The offline run emits the statements instead.
\<close>

definition run_migrations_online ::
  "(string \<Rightarrow> py_exn + unit) \<Rightarrow> vector_limits \<Rightarrow> settings \<Rightarrow> ddl list \<Rightarrow> database \<Rightarrow> (py_exn + unit) \<times> database"
where
  "run_migrations_online connect lims st cs db =
     (case migration_url st of
        Inl e \<Rightarrow> (Inl e, db)
      | Inr url \<Rightarrow>
          (case connect url of Inl e \<Rightarrow> (Inl e, db) | Inr _ \<Rightarrow> run_migration lims cs db))"

definition run_migrations_offline :: "settings \<Rightarrow> ddl list \<Rightarrow> py_exn + ddl list" where
  "run_migrations_offline st cs = (case migration_url st of Inl e \<Rightarrow> Inl e | Inr _ \<Rightarrow> Inr cs)"

section \<open>The upgraded database\<close>

text \<open>The types, by name, as the migration lists their values.\<close>

definition enum_rows :: "string list \<Rightarrow> (string \<times> string list) list" where
  "enum_rows ns = map (\<lambda>n. (n, case map_of ENUMS n of None \<Rightarrow> [] | Some vs \<Rightarrow> vs)) ns"

definition after_first :: database where
  "after_first =
     \<lparr>db_extensions = [''citext'', ''vector''],
      db_types = enum_rows [''validation_decision'', ''extraction_source'', ''step_status'', ''document_source'', ''pipeline_step'', ''document_status'', ''field_type'', ''user_role''],
      db_tables =
        [(''validations'', m_validations),
         (''extraction_versions'', m_extraction_versions),
         (''document_pages'', m_document_pages),
         (''document_events'', m_document_events),
         (''document_steps'', m_document_steps),
         (''documents'', m_documents),
         (''tag_versions'', m_tag_versions),
         (''tag_fields'', m_tag_fields),
         (''tags'', m_tags),
         (''api_keys'', m_api_keys),
         (''users'', m_users)],
      db_indexes =
        [index_on ''uq_extraction_versions_document_id_current'' ''extraction_versions'' [''document_id''] True (Some ''is_current'') ''btree'' [] [],
         index_on ''ix_document_events_document_id_created_at'' ''document_events'' [''document_id'', ''created_at''] False None ''btree'' [] [],
         index_on ''ix_document_steps_status_step'' ''document_steps'' [''status'', ''step''] False None ''btree'' [] [],
         index_on ''ix_documents_metadata'' ''documents'' [''metadata''] False None ''gin'' [] [],
         index_on ''ix_documents_needs_review'' ''documents'' [''needs_review''] False (Some ''needs_review'') ''btree'' [] [],
         index_on ''ix_documents_created_at'' ''documents'' [''created_at DESC''] False None ''btree'' [] [],
         index_on ''ix_documents_tag_id'' ''documents'' [''tag_id''] False None ''btree'' [] [],
         index_on ''ix_documents_status'' ''documents'' [''status''] False None ''btree'' [] []],
      db_config = [], db_memo = [''validation_decision'', ''extraction_source'', ''step_status'', ''document_source'', ''pipeline_step'', ''document_status'', ''field_type'', ''user_role'']\<rparr>"

definition migrated :: "int \<Rightarrow> database" where
  "migrated vdim =
     \<lparr>db_extensions = [''citext'', ''vector''],
      db_types = enum_rows [''webhook_delivery_status'', ''validation_decision'', ''extraction_source'', ''step_status'', ''document_source'', ''pipeline_step'', ''document_status'', ''field_type'', ''user_role''],
      db_tables =
        [(''schema_config'', m_schema_config),
         (''idempotency_keys'', m_idempotency_keys),
         (''webhook_deliveries'', m_webhook_deliveries),
         (''webhooks'', m_webhooks),
         (''chunks'', (m_chunks vdim)),
         (''validations'', m_validations),
         (''extraction_versions'', m_extraction_versions),
         (''document_pages'', m_document_pages),
         (''document_events'', m_document_events),
         (''document_steps'', m_document_steps),
         (''documents'', m_documents),
         (''tag_versions'', m_tag_versions),
         (''tag_fields'', m_tag_fields),
         (''tags'', m_tags),
         (''api_keys'', m_api_keys),
         (''users'', m_users)],
      db_indexes =
        [index_on ''ix_chunks_embedding_hnsw'' ''chunks'' [''embedding''] False None ''hnsw'' [(''m'', ''16''), (''ef_construction'', ''64'')] [(''embedding'', ''vector_cosine_ops'')],
         index_on ''ix_chunks_tsv'' ''chunks'' [''tsv''] False None ''gin'' [] [],
         index_on ''ix_chunks_document_id'' ''chunks'' [''document_id''] False None ''btree'' [] [],
         index_on ''uq_extraction_versions_document_id_current'' ''extraction_versions'' [''document_id''] True (Some ''is_current'') ''btree'' [] [],
         index_on ''ix_document_events_document_id_created_at'' ''document_events'' [''document_id'', ''created_at''] False None ''btree'' [] [],
         index_on ''ix_document_steps_status_step'' ''document_steps'' [''status'', ''step''] False None ''btree'' [] [],
         index_on ''ix_documents_metadata'' ''documents'' [''metadata''] False None ''gin'' [] [],
         index_on ''ix_documents_needs_review'' ''documents'' [''needs_review''] False (Some ''needs_review'') ''btree'' [] [],
         index_on ''ix_documents_created_at'' ''documents'' [''created_at DESC''] False None ''btree'' [] [],
         index_on ''ix_documents_tag_id'' ''documents'' [''tag_id''] False None ''btree'' [] [],
         index_on ''ix_documents_status'' ''documents'' [''status''] False None ''btree'' [] []],
      db_config = [(''vector'', [(''embed_dim'', JInt vdim)])], db_memo = []\<rparr>"

definition after_chunks :: "int \<Rightarrow> database" where
  "after_chunks vdim = after_first\<lparr>db_tables := (''chunks'', m_chunks vdim) # db_tables after_first\<rparr>"

definition chunk_indexes :: "index_def list" where
  "chunk_indexes =
     [index_on ''ix_chunks_document_id'' ''chunks'' [''document_id''] False None ''btree'' [] [],
      index_on ''ix_chunks_tsv'' ''chunks'' [''tsv''] False None ''gin'' [] []]"

definition hnsw_index :: index_def where
  "hnsw_index =
     index_on ''ix_chunks_embedding_hnsw'' ''chunks'' [''embedding''] False None ''hnsw''
       [(''m'', ''16''), (''ef_construction'', ''64'')] [(''embedding'', ''vector_cosine_ops'')]"

definition last_statements :: "int \<Rightarrow> ddl list" where
  "last_statements vdim =
     [CreateTable ''webhooks'' m_webhooks, CreateTable ''webhook_deliveries'' m_webhook_deliveries,
      CreateTable ''idempotency_keys'' m_idempotency_keys, CreateTable ''schema_config'' m_schema_config,
      InsertConfig ''vector'' [(''embed_dim'', JInt vdim)]]"

lemma upgrade_second_split:
  "upgrade_second vdim =
     CreateTable ''chunks'' (m_chunks vdim) # map CreateIndex chunk_indexes @ CreateIndex hnsw_index # last_statements vdim"
  by (simp add: upgrade_second_def chunk_indexes_def hnsw_index_def last_statements_def)

text \<open>Statement by statement, the parts of the upgrade that do not depend on the dimension.\<close>

lemma exec_first: "exec_all lims upgrade_first empty_database = Inr after_first"
  by code_simp

lemma chunks_checks:
  "\<not> has_table ''chunks'' after_first"
  "create_types (enums_of (td_columns (m_chunks vdim))) after_first = Inr after_first"
  "table_ok after_first (m_chunks vdim)"
  by code_simp+

lemma chunks_dimension:
  "list_all (\<lambda>c. dimension_ok lims (cd_type c)) (td_columns (m_chunks vdim)) \<longleftrightarrow>
     1 \<le> vdim \<and> vdim \<le> max_column_dim lims"
  by (simp add: m_chunks_def col_def ts_def optional_def with_default_def references_def computed_def)

definition after_indexes :: "int \<Rightarrow> database" where
  "after_indexes vdim =
     (after_chunks vdim)\<lparr>db_indexes := rev chunk_indexes @ db_indexes after_first\<rparr>"

lemma exec_indexes:
  "exec_all lims (map CreateIndex chunk_indexes) (after_chunks vdim) = Inr (after_indexes vdim)"
  by code_simp

lemma hnsw_checks:
  "index_ok (after_indexes vdim) hnsw_index" "indexed_types (after_indexes vdim) hnsw_index = [CVector vdim]"
  by code_simp+

lemma hnsw_dimension: "hnsw_ok lims (after_indexes vdim) hnsw_index \<longleftrightarrow> vdim \<le> max_hnsw_dim lims"
  unfolding hnsw_ok_def hnsw_checks by (simp add: hnsw_index_def index_on_def)

definition after_hnsw :: "int \<Rightarrow> database" where
  "after_hnsw vdim =
     (after_indexes vdim)\<lparr>db_indexes := hnsw_index # rev chunk_indexes @ db_indexes after_first\<rparr>"

lemma exec_last:
  "exec_all lims (last_statements vdim) (after_hnsw vdim) =
     Inr ((migrated vdim)\<lparr>db_memo := map fst (db_types (migrated vdim))\<rparr>)"
  by code_simp

lemma exec_downgrade: "exec_all lims downgrade (migrated vdim) = Inr empty_database"
  by code_simp


section \<open>The outcome of the upgrade\<close>

lemma upgrade_up_to_indexes:
  "exec_all lims (upgrade vdim) empty_database =
     exec_all lims (CreateTable ''chunks'' (m_chunks vdim) # map CreateIndex chunk_indexes
                      @ CreateIndex hnsw_index # last_statements vdim) after_first"
  by (simp add: upgrade_def exec_all_append exec_first upgrade_second_split)

lemma exec_chunks:
  "exec_ddl lims (CreateTable ''chunks'' (m_chunks vdim)) after_first =
     (if 1 \<le> vdim \<and> vdim \<le> max_column_dim lims then Inr (after_chunks vdim)
      else Inl (ddl_error ''dimensions out of range: '' ''chunks''))"
  by (simp add: chunks_checks chunks_dimension after_chunks_def del: One_nat_def)

lemma exec_hnsw:
  "exec_ddl lims (CreateIndex hnsw_index) (after_indexes vdim) =
     (if vdim \<le> max_hnsw_dim lims then Inr (after_hnsw vdim)
      else Inl (ddl_error ''too many dimensions for hnsw index '' ''ix_chunks_embedding_hnsw''))"
proof -
  have "id_name hnsw_index = ''ix_chunks_embedding_hnsw''"
    by (simp add: hnsw_index_def index_on_def)
  moreover have "(after_indexes vdim)\<lparr>db_indexes := hnsw_index # db_indexes (after_indexes vdim)\<rparr> = after_hnsw vdim"
    by (simp add: after_hnsw_def after_indexes_def)
  ultimately show ?thesis
    by (simp add: hnsw_checks(1) hnsw_dimension)
qed

definition upgrade_outcome :: "vector_limits \<Rightarrow> int \<Rightarrow> py_exn + database" where
  "upgrade_outcome lims vdim =
     (if \<not> (1 \<le> vdim \<and> vdim \<le> max_column_dim lims) then
        Inl (ddl_error ''dimensions out of range: '' ''chunks'')
      else if \<not> vdim \<le> max_hnsw_dim lims then
        Inl (ddl_error ''too many dimensions for hnsw index '' ''ix_chunks_embedding_hnsw'')
      else Inr ((migrated vdim)\<lparr>db_memo := map fst (db_types (migrated vdim))\<rparr>))"

lemma exec_upgrade: "exec_all lims (upgrade vdim) empty_database = upgrade_outcome lims vdim"
  unfolding upgrade_up_to_indexes upgrade_outcome_def
  by (simp add: exec_chunks exec_all_append exec_indexes exec_hnsw exec_last
           del: exec_ddl.simps)

lemma empty_database_memo [simp]: "empty_database\<lparr>db_memo := []\<rparr> = empty_database"
  by (simp add: empty_database_def)

lemma migrated_memo [simp]: "(migrated vdim)\<lparr>db_memo := []\<rparr> = migrated vdim"
  by (simp add: migrated_def)

lemma run_upgrade:
  "run_migration lims (upgrade vdim) empty_database =
     (case upgrade_outcome lims vdim of Inl e \<Rightarrow> (Inl e, empty_database) | Inr _ \<Rightarrow> (Inr (), migrated vdim))"
  by (simp add: run_migration_def exec_upgrade upgrade_outcome_def)

section \<open>The schema is the one the models declare\<close>

lemma same_tables:
  "same_table m_users (metadata_table orm_users)"
  "same_table m_api_keys (metadata_table orm_api_keys)"
  "same_table m_tags (metadata_table orm_tags)"
  "same_table m_tag_fields (metadata_table orm_tag_fields)"
  "same_table m_tag_versions (metadata_table orm_tag_versions)"
  "same_table m_documents (metadata_table orm_documents)"
  "same_table m_document_steps (metadata_table orm_document_steps)"
  "same_table m_document_events (metadata_table orm_document_events)"
  "same_table m_document_pages (metadata_table orm_document_pages)"
  "same_table m_extraction_versions (metadata_table orm_extraction_versions)"
  "same_table m_validations (metadata_table orm_validations)"
  "same_table m_webhooks (metadata_table orm_webhooks)"
  "same_table m_webhook_deliveries (metadata_table orm_webhook_deliveries)"
  "same_table m_schema_config (metadata_table orm_schema_config)"
  "same_table m_idempotency_keys (metadata_table orm_idempotency_keys)"
  by code_simp+

lemma same_chunks: "same_table (m_chunks vdim) (metadata_table (orm_chunks vdim))"
  by code_simp

lemma same_names:
  "same_items (map fst (db_tables (migrated vdim))) (map om_table (orm_models vdim))"
  by code_simp

lemma same_indexes:
  "same_items (db_indexes (migrated vdim)) (concat (map metadata_indexes (orm_models vdim)))"
  by code_simp

lemma same_types:
  "same_items (db_types (migrated vdim))
     (remdups (concat (map (\<lambda>m. enums_of (td_columns (metadata_table m))) (orm_models vdim))))"
  by code_simp


lemma same_all_tables:
  "list_all (\<lambda>m. case map_of (db_tables (migrated vdim)) (om_table m) of
      None \<Rightarrow> False | Some t \<Rightarrow> same_table t (metadata_table m)) (orm_models vdim)"
proof -
  have names: "map om_table (orm_models vdim) =
    [''users'', ''api_keys'', ''tags'', ''tag_fields'', ''tag_versions'', ''documents'', ''document_steps'',
     ''document_events'', ''document_pages'', ''extraction_versions'', ''validations'', ''chunks'',
     ''webhooks'', ''webhook_deliveries'', ''schema_config'', ''idempotency_keys'']"
    by code_simp
  show ?thesis
    using names by (simp add: orm_models_def migrated_def same_tables same_chunks)
qed

lemma migrated_matches: "schema_matches (migrated vdim) (orm_models vdim)"
  unfolding schema_matches_def using same_names same_all_tables same_indexes same_types by blast

section \<open>Percent signs in the connection URL\<close>

lemma interpolate_plain: "CHR ''%'' \<notin> set s \<Longrightarrow> interpolate s = Inr s"
  by (induction s rule: interpolate.induct) (auto split: list.splits)

lemma interpolate_fault:
  "CHR ''%'' \<notin> set s \<Longrightarrow> d \<noteq> CHR ''%'' \<Longrightarrow>
     interpolate (s @ CHR ''%'' # d # t) = Inl (ValueError ''invalid interpolation syntax'')"
  by (induction s) auto

section \<open>Properties\<close>

text \<open>
  C11. Within the dimensions pgvector accepts, the initial migration succeeds on an empty database and
  leaves exactly the schema the ORM models declare: the same tables with the same columns (type,
  nullability, default, reference and cascade), the same keys, unique and check constraints under the
  names of the naming convention, the same indexes and the same enumeration types with the same
  values; the dimension is recorded in \<open>schema_config\<close>.
\<close>

theorem migration_matches_models:
  assumes "1 \<le> vdim" and "vdim \<le> max_column_dim lims" and "vdim \<le> max_hnsw_dim lims"
  shows "\<exists>db. run_migration lims (upgrade vdim) empty_database = (Inr (), db)
           \<and> schema_matches db (orm_models vdim)
           \<and> map_of (db_config db) VECTOR_CONFIG_KEY = Some [(''embed_dim'', JInt vdim)]"
proof -
  have "run_migration lims (upgrade vdim) empty_database = (Inr (), migrated vdim)"
    using assms by (simp add: run_upgrade upgrade_outcome_def)
  moreover have "map_of (db_config (migrated vdim)) VECTOR_CONFIG_KEY = Some [(''embed_dim'', JInt vdim)]"
    by (simp add: migrated_def VECTOR_CONFIG_KEY_def)
  ultimately show ?thesis using migrated_matches by blast
qed

theorem migration_matches_models_witness:
  "\<exists>db. run_migration \<lparr>max_column_dim = 16000, max_hnsw_dim = 2000\<rparr> (upgrade 1024) empty_database = (Inr (), db)
      \<and> schema_matches db (orm_models 1024)
      \<and> map_of (db_config db) VECTOR_CONFIG_KEY = Some [(''embed_dim'', JInt 1024)]"
  by (rule migration_matches_models) simp_all

text \<open>
  C30. The downgrade undoes the upgrade: run after it, it succeeds and leaves an empty database, with no
  table, index, type or extension behind, so that the upgrade can be run again.
\<close>

theorem migration_roundtrip:
  assumes "run_migration lims (upgrade vdim) empty_database = (Inr (), db)"
  shows "run_migration lims downgrade db = (Inr (), empty_database)"
proof -
  have "db = migrated vdim"
    using assms by (simp add: run_upgrade split: sum.splits)
  then show ?thesis by (simp add: run_migration_def exec_downgrade)
qed

theorem migration_roundtrip_witness:
  "run_migration \<lparr>max_column_dim = 16000, max_hnsw_dim = 2000\<rparr> downgrade (migrated 1024) = (Inr (), empty_database)"
  by (rule migration_roundtrip [where vdim = 1024]) (simp add: run_upgrade upgrade_outcome_def)

text \<open>
  C38. For the dimension of settings within their declared bounds the migration of an empty database
  succeeds exactly when pgvector can hold and index vectors of it; otherwise it fails and changes
  nothing, the tables created before the failing statement being rolled back with it. The settings
  bound \<open>NVIDIA_EMBED_DIM\<close> only from below, so they do not rule the failure out.
\<close>

theorem migration_needs_indexable_dimension:
  assumes "settings_in_bounds st"
  shows "run_migration lims (upgrade (nv_embed_dim (nvidia st))) empty_database =
    (if nv_embed_dim (nvidia st) \<le> max_column_dim lims \<and> nv_embed_dim (nvidia st) \<le> max_hnsw_dim lims
     then (Inr (), migrated (nv_embed_dim (nvidia st)))
     else (Inl (if nv_embed_dim (nvidia st) \<le> max_column_dim lims
                then ddl_error ''too many dimensions for hnsw index '' ''ix_chunks_embedding_hnsw''
                else ddl_error ''dimensions out of range: '' ''chunks''), empty_database))"
proof -
  have "1 \<le> nv_embed_dim (nvidia st)" using assms by (simp add: settings_in_bounds_def)
  then show ?thesis by (simp add: run_upgrade upgrade_outcome_def)
qed

theorem migration_needs_indexable_dimension_witness:
  "run_migration \<lparr>max_column_dim = 16000, max_hnsw_dim = 2000\<rparr>
     (upgrade (nv_embed_dim (nvidia (default_settings\<lparr>nvidia := default_nvidia\<lparr>nv_embed_dim := 4096\<rparr>\<rparr>)))) empty_database =
   (Inl (ddl_error ''too many dimensions for hnsw index '' ''ix_chunks_embedding_hnsw''), empty_database)"
  using migration_needs_indexable_dimension
    [of "default_settings\<lparr>nvidia := default_nvidia\<lparr>nv_embed_dim := 4096\<rparr>\<rparr>" "\<lparr>max_column_dim = 16000, max_hnsw_dim = 2000\<rparr>"]
  by (simp add: settings_in_bounds_def default_settings_def default_nvidia_def default_postgres_def
      default_mongo_def default_redis_def default_s3_def default_ocr_def default_pipeline_def)

text \<open>
  After the migration for a dimension, the startup check accepts exactly that dimension: a process
  configured with any other is refused with a \<open>ConfigurationError\<close> that names both, and so is every
  process once the row of the vector configuration is gone.
\<close>

theorem startup_check_accepts_recorded_dimension:
  assumes "run_migration lims (upgrade vdim) empty_database = (Inr (), db)"
  shows "verify_schema_config EMBED_DIM db =
      (if EMBED_DIM = vdim then Inr ()
       else Inl (IpaExn (raise_error ConfigurationError
              (''NVIDIA_EMBED_DIM='' @ str_int EMBED_DIM @ '' but the database vector column was ''
               @ ''built with dimension '' @ str_int vdim @ ''. Revert the setting or migrate ''
               @ ''the chunks table to the new dimension.''))))
    \<and> verify_schema_config EMBED_DIM (db\<lparr>db_config := []\<rparr>) =
        Inl (IpaExn (raise_error ConfigurationError
          ''schema_config is missing the vector dimension row; run `make migrate`.''))"
proof -
  have db: "db = migrated vdim"
    using assms by (simp add: run_upgrade split: sum.splits)
  then have "has_table ''schema_config'' db" "map_of (db_config db) VECTOR_CONFIG_KEY = Some [(''embed_dim'', JInt vdim)]"
    by (simp_all add: migrated_def has_table_def VECTOR_CONFIG_KEY_def)
  moreover from this have "has_table ''schema_config'' (db\<lparr>db_config := []\<rparr>)" by (simp add: has_table_def)
  ultimately show ?thesis
    by (simp add: verify_schema_config_def recorded_dim_def str_opt_int_def)
qed

theorem startup_check_accepts_recorded_dimension_witness:
  "verify_schema_config 1024 (migrated 1024) = Inr () \<and> verify_schema_config 768 (migrated 1024) \<noteq> Inr ()"
proof -
  have "run_migration \<lparr>max_column_dim = 16000, max_hnsw_dim = 2000\<rparr> (upgrade 1024) empty_database = (Inr (), migrated 1024)"
    by (simp add: run_upgrade upgrade_outcome_def)
  from startup_check_accepts_recorded_dimension [OF this, of 1024]
       startup_check_accepts_recorded_dimension [OF this, of 768]
  show ?thesis by simp
qed

text \<open>
  A connection URL with a lone percent sign, as a percent-encoded password has it, stops every
  migration run, online or offline, before anything is connected or emitted: the value passes through
  the interpolation of the configuration file.
\<close>

theorem percent_in_dsn_stops_migrations:
  assumes "pg_dsn (postgres st) = pre @ CHR ''%'' # d # rest"
    and "CHR ''%'' \<notin> set pre" and "d \<noteq> CHR ''%''"
  shows "run_migrations_online connect lims st cs db = (Inl (ValueError ''invalid interpolation syntax''), db)
    \<and> run_migrations_offline st cs = Inl (ValueError ''invalid interpolation syntax'')"
  using interpolate_fault [OF assms(2,3)] assms(1)
  by (simp add: run_migrations_online_def run_migrations_offline_def migration_url_def)

theorem percent_in_dsn_stops_migrations_witness:
  "run_migrations_offline
     (default_settings\<lparr>postgres := default_postgres\<lparr>pg_dsn := ''postgresql+asyncpg://ipa:a%40b@db/ipa''\<rparr>\<rparr>) downgrade =
   Inl (ValueError ''invalid interpolation syntax'')"
  by (rule conjunct2 [OF percent_in_dsn_stops_migrations
        [where pre = "''postgresql+asyncpg://ipa:a''" and d = "CHR ''4''" and rest = "''0b@db/ipa''"]]) simp_all

end
