(* ===== verification/Mermaid.thy ===== *)
theory Mermaid
  imports Prelude "HOL-Library.Sublist"
begin

text \<open>
  Models \<open>src/scripts/validate_mermaid.py\<close>: which Markdown files are looked at, the blocks the regular
  expression finds in them, and the report over all blocks with its exit code. The files below the
  root, each with its path and text, are an argument, and so is the mermaid command line tool, which
  may fail to start.
\<close>

section \<open>The files\<close>

definition SKIP_DIRS :: "string list" where
  "SKIP_DIRS = [''node_modules'', ''.venv'', ''.git'', ''dist'', ''build'', ''.next'']"

text \<open>A file below the root: the parts of its path from the root, and its text.\<close>

record md_file =
  md_parts :: "string list"
  md_text :: string

text \<open>\<open>path.parts\<close> is the whole path, so the parts of the root are tested too.\<close>

definition iter_markdown :: "string list \<Rightarrow> md_file list \<Rightarrow> md_file list" where
  "iter_markdown dir files =
     filter (\<lambda>f. \<not> list_ex (List.member SKIP_DIRS) (dir @ md_parts f)) files"

section \<open>The blocks\<close>

definition fence :: string where
  "fence = ''```''"

definition open_mark :: string where
  "open_mark = ''```mermaid'' @ [CHR 0x0A]"

text \<open>The lazy group and the closing fence: what comes before the first fence, and what follows it.\<close>

fun close_block :: "string \<Rightarrow> (string \<times> string) option" where
  "close_block [] = None"
| "close_block (c # s) =
     (if startswith (c # s) fence then Some ([], drop (length fence) (c # s))
      else map_option (\<lambda>(b, r). (c # b, r)) (close_block s))"

lemma close_block_append: "close_block s = Some (b, r) \<Longrightarrow> s = b @ fence @ r"
  by (induction s arbitrary: b) (auto simp: startswith_iff split: if_splits)

text \<open>\<open>MERMAID_BLOCK.findall\<close>: the leftmost match, then on behind it.\<close>

function find_blocks :: "string \<Rightarrow> string list" where
  "find_blocks [] = []"
| "find_blocks (c # s) =
     (if startswith (c # s) open_mark then
        (case close_block (drop (length open_mark) (c # s)) of
           Some (b, r) \<Rightarrow> b # find_blocks r
         | None \<Rightarrow> find_blocks s)
      else find_blocks s)"
  by pat_completeness auto
termination
proof (relation "measure length")
  fix c :: char and s b r :: string and p :: "string \<times> string"
  assume "close_block (drop (length open_mark) (c # s)) = Some p" and "(b, r) = p"
  then have "drop (length open_mark) (c # s) = b @ fence @ r" by (auto dest: close_block_append)
  then have "length (b @ fence @ r) = length (c # s) - length open_mark" by (metis length_drop)
  then show "(r, c # s) \<in> measure length" by (simp add: open_mark_def fence_def)
qed simp_all

section \<open>The report\<close>

text \<open>The command: its exit code and what it wrote to the error stream.\<close>

type_synonym 'e mmdc = "string \<Rightarrow> 'e + int \<times> string"

definition validate_block :: "'e mmdc \<Rightarrow> string \<Rightarrow> 'e + bool \<times> string" where
  "validate_block mmdc block =
     (case mmdc block of
        Inl e \<Rightarrow> Inl e
      | Inr (returncode, stderr) \<Rightarrow> Inr (returncode = 0, strip stderr))"

definition failure_line :: "md_file \<Rightarrow> nat \<Rightarrow> string \<Rightarrow> string" where
  "failure_line f index error =
     join ''/'' (md_parts f) @ '' (block '' @ str_nat (index + 1) @ ''): '' @ take 400 error"

fun check_blocks :: "'e mmdc \<Rightarrow> md_file \<Rightarrow> nat \<Rightarrow> string list \<Rightarrow> nat \<times> string list \<Rightarrow> 'e + nat \<times> string list" where
  "check_blocks mmdc f index [] st = Inr st"
| "check_blocks mmdc f index (b # bs) (checked, failures) =
     (case validate_block mmdc b of
        Inl e \<Rightarrow> Inl e
      | Inr (ok, error) \<Rightarrow>
          check_blocks mmdc f (index + 1) bs
            (checked + 1, if ok then failures else failures @ [failure_line f index error]))"

fun check_files :: "'e mmdc \<Rightarrow> md_file list \<Rightarrow> nat \<times> string list \<Rightarrow> 'e + nat \<times> string list" where
  "check_files mmdc [] st = Inr st"
| "check_files mmdc (f # fs) st =
     (case check_blocks mmdc f 0 (find_blocks (md_text f)) st of
        Inl e \<Rightarrow> Inl e
      | Inr st1 \<Rightarrow> check_files mmdc fs st1)"

text \<open>The exit code and what \<open>main\<close> writes to standard output.\<close>

definition newline :: string where
  "newline = [CHR 0x0A]"

definition main :: "'e mmdc \<Rightarrow> string list \<Rightarrow> md_file list \<Rightarrow> 'e + int \<times> string" where
  "main mmdc dir files =
     (case check_files mmdc (iter_markdown dir files) (0, []) of
        Inl e \<Rightarrow> Inl e
      | Inr (checked, failures) \<Rightarrow>
          if failures \<noteq> [] then
            Inr (1, str_nat (length failures) @ '' of '' @ str_nat checked
                      @ '' mermaid block(s) failed to parse:'' @ newline @ newline
                      @ join (newline @ newline) failures @ newline)
          else Inr (0, ''all '' @ str_nat checked @ '' mermaid block(s) parse'' @ newline))"

section \<open>The blocks found are the blocks written\<close>

text \<open>A document: prose, then blocks, each followed by more prose.\<close>

fun document :: "string \<Rightarrow> (string \<times> string) list \<Rightarrow> string" where
  "document prose [] = prose"
| "document prose ((b, p) # bs) = prose @ open_mark @ b @ fence @ document p bs"

lemma startswith_no_tick:
  "CHR ''`'' \<noteq> c \<Longrightarrow> \<not> startswith (c # s) fence" "CHR ''`'' \<noteq> c \<Longrightarrow> \<not> startswith (c # s) open_mark"
  by (auto simp: fence_def open_mark_def)

lemma close_block_body: "CHR ''`'' \<notin> set b \<Longrightarrow> close_block (b @ fence @ r) = Some (b, r)"
proof (induction b)
  case Nil
  then show ?case by (simp add: fence_def)
next
  case (Cons c b)
  then show ?case by (simp add: startswith_no_tick)
qed

lemma find_blocks_prose: "CHR ''`'' \<notin> set p \<Longrightarrow> find_blocks (p @ s) = find_blocks s"
  by (induction p) (simp_all add: startswith_no_tick)

lemma find_blocks_block:
  assumes "CHR ''`'' \<notin> set b"
  shows "find_blocks (open_mark @ b @ fence @ r) = b # find_blocks r"
proof -
  obtain c s where cs: "open_mark @ b @ fence @ r = c # s" by (simp add: open_mark_def)
  moreover from cs have "startswith (c # s) open_mark" by (metis startswith_append)
  moreover from cs have "drop (length open_mark) (c # s) = b @ fence @ r" by (metis append_eq_conv_conj)
  ultimately show ?thesis using close_block_body [OF assms, of r] by simp
qed

text \<open>
  Whatever the text, a block found stands in it between an opening and a fence, and holds no fence
  itself: the match is the shortest.
\<close>

lemma startswith_prefix: "startswith s p \<longleftrightarrow> prefix p s"
  by (auto simp: startswith_iff prefix_def)

lemma close_block_shortest: "close_block s = Some (b, r) \<Longrightarrow> \<not> sublist fence b"
proof (induction s arbitrary: b)
  case (Cons c s)
  show ?case
  proof (cases "startswith (c # s) fence")
    case True
    with Cons.prems have "b = []" by simp
    then show ?thesis by (simp add: fence_def)
  next
    case False
    with Cons.prems obtain b' where b': "close_block s = Some (b', r)" "b = c # b'" by auto
    have "prefix (c # b') (c # s)" using close_block_append [OF b'(1)] by simp
    then have "\<not> prefix fence (c # b')"
      using False by (metis prefix_order.trans startswith_prefix)
    then show ?thesis using Cons.IH [OF b'(1)] b'(2) by (simp add: sublist_Cons_right)
  qed
qed simp

lemma find_blocks_sound:
  "b \<in> set (find_blocks s) \<Longrightarrow> (\<exists>before after. s = before @ open_mark @ b @ fence @ after) \<and> \<not> sublist fence b"
proof (induction s rule: find_blocks.induct)
  case (2 c s)
  have later: "?case" if "(\<exists>before after. u = before @ open_mark @ b @ fence @ after) \<and> \<not> sublist fence b"
    and "c # s = front @ u" for front u
    using that by (metis append.assoc)
  show ?case
  proof (cases "startswith (c # s) open_mark")
    case False
    with 2 show ?thesis by (intro later [of s "[c]"]) simp_all
  next
    case True
    then obtain t where t: "c # s = open_mark @ t" by (auto simp: startswith_iff)
    then have d: "drop (length open_mark) (c # s) = t" by (metis append_eq_conv_conj)
    show ?thesis
    proof (cases "close_block t")
      case None
      with 2 True d show ?thesis by (intro later [of s "[c]"]) simp_all
    next
      case (Some p)
      obtain b' r where p: "p = (b', r)" by (cases p)
      have app: "t = b' @ fence @ r" and short: "\<not> sublist fence b'"
        using close_block_append close_block_shortest Some p by blast+
      from 2(4) True d Some p consider "b = b'" | "b \<in> set (find_blocks r)" by auto
      then show ?thesis
      proof cases
        case 1
        with t app short show ?thesis by (metis append_Nil)
      next
        case rest: 2
        have "close_block (drop (length open_mark) (c # s)) = Some p" by (simp only: d Some)
        then have "(\<exists>before after. r = before @ open_mark @ b @ fence @ after) \<and> \<not> sublist fence b"
          by (rule "2.IH"(2) [OF True _ p [symmetric] rest])
        then show ?thesis by (rule later [of r "open_mark @ b' @ fence"]) (simp add: t app)
      qed
    qed
  qed
qed simp

section \<open>The report lists every failure\<close>

definition all_blocks :: "md_file list \<Rightarrow> (md_file \<times> nat \<times> string) list" where
  "all_blocks files = concat (map (\<lambda>f. map (Pair f) (enumerate 0 (find_blocks (md_text f)))) files)"

text \<open>The lines of the blocks the tool rejects, for a tool that always runs.\<close>

definition rejected :: "(string \<Rightarrow> int \<times> string) \<Rightarrow> (md_file \<times> nat \<times> string) list \<Rightarrow> string list" where
  "rejected tool xs =
     map (\<lambda>(f, i, b). failure_line f i (strip (snd (tool b)))) (filter (\<lambda>(f, i, b). fst (tool b) \<noteq> 0) xs)"

lemma rejected_append [simp]: "rejected tool (xs @ ys) = rejected tool xs @ rejected tool ys"
  by (simp add: rejected_def)

lemma check_blocks_rejected:
  "check_blocks (\<lambda>b. Inr (tool b)) f i bs (n, fs) =
     Inr (n + length bs, fs @ rejected tool (map (Pair f) (enumerate i bs)))"
  by (induction bs arbitrary: i n fs)
     (auto simp: validate_block_def rejected_def case_prod_beta)

lemma check_files_rejected:
  "check_files (\<lambda>b. Inr (tool b)) files (n, fs) =
     Inr (n + length (all_blocks files), fs @ rejected tool (all_blocks files))"
proof (induction files arbitrary: n fs)
  case Nil
  then show ?case by (simp add: all_blocks_def rejected_def)
next
  case (Cons f files)
  then show ?case by (simp add: all_blocks_def check_blocks_rejected)
qed

lemma rejected_Nil_iff: "rejected tool xs = [] \<longleftrightarrow> (\<forall>(f, i, b) \<in> set xs. fst (tool b) = 0)"
  by (auto simp: rejected_def filter_empty_conv)

lemma iter_markdown_skipped:
  "list_ex (List.member SKIP_DIRS) dir \<Longrightarrow> iter_markdown dir files = []"
  by (simp add: iter_markdown_def)

section \<open>Properties\<close>

text \<open>
  Extraction finds what was written: in a document of prose and mermaid blocks, none of which
  contains a backtick, the blocks found are the blocks written, in order.
\<close>

theorem written_blocks_are_found:
  assumes "CHR ''`'' \<notin> set prose" and "\<forall>x \<in> set bs. CHR ''`'' \<notin> set (fst x) \<and> CHR ''`'' \<notin> set (snd x)"
  shows "find_blocks (document prose bs) = map fst bs"
  using assms
proof (induction prose bs rule: document.induct)
  case (1 prose)
  then show ?case using find_blocks_prose [of prose "[]"] by simp
next
  case (2 prose b p bs)
  then show ?case by (simp add: find_blocks_prose find_blocks_block del: find_blocks.simps)
qed


theorem written_blocks_are_found_witness:
  "find_blocks (document ''a '' [(''graph TD'', '' b ''), (''pie'', [])]) = [''graph TD'', ''pie'']"
  using written_blocks_are_found [of "''a ''" "[(''graph TD'', '' b ''), (''pie'', [])]"] by simp

text \<open>
  With a tool that runs, the script always returns: exit code 0 exactly when the tool accepts every
  block of every file considered, and otherwise 1 with one line for each rejected block, none dropped
  after the first, in the order of the files and of the blocks in them.
\<close>

theorem report_lists_every_failure:
  fixes tool :: "string \<Rightarrow> int \<times> string" and dir :: "string list" and files :: "md_file list"
  defines "xs \<equiv> all_blocks (iter_markdown dir files)"
  shows "main (\<lambda>b. Inr (tool b) :: 'e + int \<times> string) dir files =
    Inr (if \<forall>(f, i, b) \<in> set xs. fst (tool b) = 0
         then (0, ''all '' @ str_nat (length xs) @ '' mermaid block(s) parse'' @ newline)
         else (1, str_nat (length (rejected tool xs)) @ '' of '' @ str_nat (length xs)
                    @ '' mermaid block(s) failed to parse:'' @ newline @ newline
                    @ join (newline @ newline) (rejected tool xs) @ newline))"
  unfolding main_def check_files_rejected xs_def [symmetric] rejected_Nil_iff [symmetric] by simp

theorem report_lists_every_failure_witness:
  "main (\<lambda>b. Inr (if b = ''pie'' then (0, []) else (1, ''bad'')) :: string + int \<times> string) [''/'', ''repo'']
     [\<lparr>md_parts = [''a.md''], md_text = ''```mermaid'' @ newline @ ''pie```''\<rparr>] =
   Inr (0, ''all 1 mermaid block(s) parse'' @ newline)"
  by (subst report_lists_every_failure) code_simp

text \<open>
  A checkout below a directory with one of the skipped names, such as \<open>/home/ci/build/repo\<close>,
  validates nothing and reports success: the test looks at every part of the absolute path.
\<close>

theorem checkout_below_skipped_directory:
  assumes "list_ex (List.member SKIP_DIRS) dir"
  shows "main mmdc dir files = Inr (0, ''all 0 mermaid block(s) parse'' @ newline)"
proof -
  have "str_nat 0 = ''0''" by code_simp
  then show ?thesis using assms by (simp add: main_def iter_markdown_skipped)
qed

theorem checkout_below_skipped_directory_witness:
  "main (\<lambda>b. Inl ()) [''/'', ''home'', ''ci'', ''build'', ''repo'']
     [\<lparr>md_parts = [''a.md''], md_text = ''```mermaid'' @ newline @ ''broken```''\<rparr>] =
   Inr (0, ''all 0 mermaid block(s) parse'' @ newline)"
  by (rule checkout_below_skipped_directory) code_simp

end
