(* ===== verification/Dtos.thy ===== *)
theory Dtos
  imports Orm
begin

text \<open>
  Models the DTOs of \<open>src/ipa/db/dtos.py\<close> that repositories return: each class as the list of its
  fields, the reading of an ORM object by \<open>model_validate\<close> with \<open>from_attributes\<close>, and the check that
  makes it total. Which value pydantic makes of an input is its own code and an argument here;
  \<open>documented_conversions\<close> states the rows of its conversion table that the DTOs rely on.
\<close>

section \<open>Fields\<close>

datatype py_type =
    TUuid
  | TStr
  | TInt
  | TFloat
  | TBool
  | TDatetime
  | TDict
  | TStrList
  | TEnum "string list"
  | TOptional py_type

record field_decl =
  fd_name :: string
  fd_alias :: "string option"
  fd_type :: py_type

definition field :: "string \<Rightarrow> py_type \<Rightarrow> field_decl" where
  "field n ty = \<lparr>fd_name = n, fd_alias = None, fd_type = ty\<rparr>"

definition aliased :: "string \<Rightarrow> field_decl \<Rightarrow> field_decl" where
  "aliased a f = f\<lparr>fd_alias := Some a\<rparr>"

section \<open>The classes\<close>

definition user_dto :: "field_decl list" where
  "user_dto =
     [field ''id'' TUuid,
      field ''email'' TStr,
      field ''full_name'' TStr,
      field ''password_hash'' TStr,
      field ''role'' (TEnum (map user_role_value all_user_role)),
      field ''is_active'' TBool,
      field ''created_at'' TDatetime,
      field ''updated_at'' TDatetime]"

definition api_key_dto :: "field_decl list" where
  "api_key_dto =
     [field ''id'' TUuid,
      field ''name'' TStr,
      field ''key_hash'' TStr,
      field ''prefix'' TStr,
      field ''scopes'' TStrList,
      field ''last_used_at'' (TOptional TDatetime),
      field ''expires_at'' (TOptional TDatetime),
      field ''revoked_at'' (TOptional TDatetime),
      field ''created_at'' TDatetime]"

definition tag_dto :: "field_decl list" where
  "tag_dto =
     [field ''id'' TUuid,
      field ''slug'' TStr,
      field ''name'' TStr,
      field ''description'' TStr,
      field ''version'' TInt,
      field ''is_active'' TBool,
      field ''auto_approve_threshold'' (TOptional TFloat),
      field ''prompt_template'' (TOptional TStr),
      field ''llm_model'' (TOptional TStr),
      field ''classification_hints'' (TOptional TStr),
      field ''created_at'' TDatetime,
      field ''updated_at'' TDatetime]"

definition tag_field_dto :: "field_decl list" where
  "tag_field_dto =
     [field ''id'' TUuid,
      field ''tag_id'' TUuid,
      field ''key'' TStr,
      field ''label'' TStr,
      field ''field_type'' (TEnum (map field_type_value all_field_type)),
      field ''description'' (TOptional TStr),
      field ''is_required'' TBool,
      field ''position'' TInt,
      field ''enum_values'' (TOptional TStrList),
      field ''regex'' (TOptional TStr),
      field ''min_value'' (TOptional TFloat),
      field ''max_value'' (TOptional TFloat),
      field ''min_length'' (TOptional TInt),
      field ''max_length'' (TOptional TInt),
      field ''item_type'' (TOptional TStr),
      field ''object_schema'' (TOptional TDict),
      field ''created_at'' TDatetime,
      field ''updated_at'' TDatetime]"

definition tag_version_dto :: "field_decl list" where
  "tag_version_dto =
     [field ''id'' TUuid,
      field ''tag_id'' TUuid,
      field ''version'' TInt,
      field ''snapshot'' TDict,
      field ''created_at'' TDatetime]"

definition document_dto :: "field_decl list" where
  "document_dto =
     [field ''id'' TUuid,
      field ''sha256'' TStr,
      field ''original_filename'' TStr,
      field ''mime_type'' TStr,
      field ''size_bytes'' TInt,
      field ''blob_key'' TStr,
      field ''page_count'' (TOptional TInt),
      field ''tag_id'' (TOptional TUuid),
      field ''tag_version'' (TOptional TInt),
      field ''status'' (TEnum (map document_status_value all_document_status)),
      field ''current_step'' (TOptional (TEnum (map step_value all_step))),
      field ''document_confidence'' (TOptional TFloat),
      field ''needs_review'' TBool,
      field ''title'' (TOptional TStr),
      field ''source'' (TEnum (map document_source_value all_document_source)),
      field ''uploaded_by'' (TOptional TStr),
      field ''trace_id'' (TOptional TStr),
      field ''error_code'' (TOptional TStr),
      field ''error_detail'' (TOptional TStr),
      aliased ''meta'' (field ''metadata'' TDict),
      field ''created_at'' TDatetime,
      field ''updated_at'' TDatetime,
      field ''completed_at'' (TOptional TDatetime),
      field ''deleted_at'' (TOptional TDatetime)]"

definition document_step_dto :: "field_decl list" where
  "document_step_dto =
     [field ''id'' TUuid,
      field ''document_id'' TUuid,
      field ''step'' (TEnum (map step_value all_step)),
      field ''status'' (TEnum (map step_status_value all_step_status)),
      field ''attempt'' TInt,
      field ''max_attempts'' TInt,
      field ''started_at'' (TOptional TDatetime),
      field ''finished_at'' (TOptional TDatetime),
      field ''duration_ms'' (TOptional TInt),
      field ''error_code'' (TOptional TStr),
      field ''error_detail'' (TOptional TStr),
      field ''output_ref'' (TOptional TStr),
      field ''metrics'' TDict,
      field ''created_at'' TDatetime,
      field ''updated_at'' TDatetime]"

definition document_event_dto :: "field_decl list" where
  "document_event_dto =
     [field ''id'' TInt,
      field ''document_id'' TUuid,
      field ''step'' (TOptional (TEnum (map step_value all_step))),
      field ''event_type'' TStr,
      field ''payload'' (TOptional TDict),
      field ''actor'' (TOptional TStr),
      field ''trace_id'' (TOptional TStr),
      field ''created_at'' TDatetime]"

definition document_page_dto :: "field_decl list" where
  "document_page_dto =
     [field ''id'' TUuid,
      field ''document_id'' TUuid,
      field ''page'' TInt,
      field ''blob_key'' TStr,
      field ''thumb_key'' (TOptional TStr),
      field ''width'' (TOptional TInt),
      field ''height'' (TOptional TInt),
      field ''text_source'' (TOptional TStr),
      field ''char_count'' (TOptional TInt),
      field ''ocr_confidence'' (TOptional TFloat),
      field ''created_at'' TDatetime]"

definition extraction_version_dto :: "field_decl list" where
  "extraction_version_dto =
     [field ''id'' TUuid,
      field ''document_id'' TUuid,
      field ''version'' TInt,
      field ''tag_id'' TUuid,
      field ''tag_version'' TInt,
      field ''source'' (TEnum (map extraction_source_value all_extraction_source)),
      field ''model'' (TOptional TStr),
      field ''prompt_hash'' (TOptional TStr),
      field ''document_confidence'' TFloat,
      field ''mongo_id'' TStr,
      field ''is_current'' TBool,
      field ''created_by'' (TOptional TStr),
      field ''created_at'' TDatetime]"

definition validation_dto :: "field_decl list" where
  "validation_dto =
     [field ''id'' TUuid,
      field ''document_id'' TUuid,
      field ''extraction_version_id'' TUuid,
      field ''decision'' (TEnum (map validation_decision_value all_validation_decision)),
      field ''reviewer_id'' (TOptional TUuid),
      field ''notes'' (TOptional TStr),
      field ''corrected_fields'' (TOptional TDict),
      field ''auto'' TBool,
      field ''created_at'' TDatetime]"

definition webhook_dto :: "field_decl list" where
  "webhook_dto =
     [field ''id'' TUuid,
      field ''url'' TStr,
      field ''secret'' TStr,
      field ''events'' TStrList,
      field ''is_active'' TBool,
      field ''created_at'' TDatetime,
      field ''updated_at'' TDatetime]"

definition webhook_delivery_dto :: "field_decl list" where
  "webhook_delivery_dto =
     [field ''id'' TInt,
      field ''webhook_id'' TUuid,
      field ''event_type'' TStr,
      field ''payload'' (TOptional TDict),
      field ''status'' (TEnum (map webhook_delivery_status_value all_webhook_delivery_status)),
      field ''attempt'' TInt,
      field ''response_status'' (TOptional TInt),
      field ''error'' (TOptional TStr),
      field ''created_at'' TDatetime,
      field ''delivered_at'' (TOptional TDatetime)]"

definition idempotency_key_dto :: "field_decl list" where
  "idempotency_key_dto =
     [field ''id'' TUuid,
      field ''key'' TStr,
      field ''endpoint'' TStr,
      field ''request_hash'' TStr,
      field ''response_status'' (TOptional TInt),
      field ''response_body'' (TOptional TDict),
      field ''created_at'' TDatetime,
      field ''expires_at'' TDatetime]"

definition chunk_dto :: "field_decl list" where
  "chunk_dto =
     [field ''id'' TUuid,
      field ''document_id'' TUuid,
      field ''chunk_index'' TInt,
      field ''text'' TStr,
      field ''embed_model'' TStr,
      field ''embed_dim'' TInt,
      field ''page_from'' (TOptional TInt),
      field ''page_to'' (TOptional TInt),
      field ''token_count'' (TOptional TInt),
      aliased ''meta'' (field ''metadata'' TDict),
      field ''created_at'' TDatetime]"


section \<open>Attributes of an ORM object\<close>

text \<open>The values attributes hold; a member of an enumeration is known by its value.\<close>

datatype py_value =
    VNone
  | VUuid uuid
  | VStr string
  | VInt int
  | VFloat rat
  | VDecimal rat
  | VBool bool
  | VDatetime timestamp
  | VDict json_dict
  | VStrList "string list"
  | VMember string
  | VVector "rat list"
  | VMetaData

text \<open>What SQLAlchemy makes of a value of the column's type; the JSON columns hold objects.\<close>

fun loads :: "col_type \<Rightarrow> py_value \<Rightarrow> bool" where
  "loads CUuid v \<longleftrightarrow> (\<exists>u. v = VUuid u)"
| "loads CText v \<longleftrightarrow> (\<exists>s. v = VStr s)"
| "loads CCitext v \<longleftrightarrow> (\<exists>s. v = VStr s)"
| "loads (CVarchar n) v \<longleftrightarrow> (\<exists>s. v = VStr s)"
| "loads (CChar n) v \<longleftrightarrow> (\<exists>s. v = VStr s)"
| "loads CInteger v \<longleftrightarrow> (\<exists>i. v = VInt i)"
| "loads CBigInt v \<longleftrightarrow> (\<exists>i. v = VInt i)"
| "loads CBoolean v \<longleftrightarrow> (\<exists>b. v = VBool b)"
| "loads (CNumeric p) v \<longleftrightarrow> (\<exists>r. v = VDecimal r)"
| "loads CTimestamptz v \<longleftrightarrow> (\<exists>t. v = VDatetime t)"
| "loads CJsonb v \<longleftrightarrow> (\<exists>d. v = VDict d)"
| "loads CTextArray v \<longleftrightarrow> (\<exists>xs. v = VStrList xs)"
| "loads CTsvector v \<longleftrightarrow> (\<exists>s. v = VStr s)"
| "loads (CVector n) v \<longleftrightarrow> (\<exists>x. v = VVector x)"
| "loads (CEnum n vs) v \<longleftrightarrow> (\<exists>x \<in> set vs. v = VMember x)"

definition column_loads :: "column_def \<Rightarrow> py_value \<Rightarrow> bool" where
  "column_loads c v \<longleftrightarrow> v = VNone \<and> cd_nullable c \<or> loads (cd_type c) v"

text \<open>A row by column name, with values its columns can hold.\<close>

type_synonym row_values = "string \<Rightarrow> py_value"

definition row_loads :: "orm_model \<Rightarrow> row_values \<Rightarrow> bool" where
  "row_loads m row \<longleftrightarrow> (\<forall>c \<in> set (td_columns (metadata_table m)). column_loads c (row (cd_name c)))"

text \<open>
  \<open>metadata\<close> is taken on every declarative class by the table registry, so the classes map the column
  of that name to the attribute \<open>meta\<close>.
\<close>

definition attribute_name :: "column_def \<Rightarrow> string" where
  "attribute_name c = (if cd_name c = ''metadata'' then ''meta'' else cd_name c)"

definition column_of :: "orm_model \<Rightarrow> string \<Rightarrow> column_def option" where
  "column_of m a = find (\<lambda>c. attribute_name c = a) (td_columns (metadata_table m))"

definition getattr :: "orm_model \<Rightarrow> row_values \<Rightarrow> string \<Rightarrow> py_value option" where
  "getattr m row a =
     (if a = ''metadata'' then Some VMetaData else map_option (\<lambda>c. row (cd_name c)) (column_of m a))"

section \<open>Reading an object\<close>

type_synonym conversion = "py_type \<Rightarrow> py_value \<Rightarrow> py_value option"

text \<open>The alias is tried first, then, with \<open>populate_by_name\<close>, the name.\<close>

definition field_input :: "(string \<Rightarrow> py_value option) \<Rightarrow> field_decl \<Rightarrow> py_value option" where
  "field_input attrs f =
     (case fd_alias f of
        None \<Rightarrow> attrs (fd_name f)
      | Some a \<Rightarrow> (case attrs a of None \<Rightarrow> attrs (fd_name f) | Some v \<Rightarrow> Some v))"

definition validation_error :: "string \<Rightarrow> py_exn" where
  "validation_error n = OtherException ''ValidationError'' n"

fun model_validate ::
  "conversion \<Rightarrow> field_decl list \<Rightarrow> (string \<Rightarrow> py_value option) \<Rightarrow> py_exn + (string \<times> py_value) list" where
  "model_validate lax [] attrs = Inr []"
| "model_validate lax (f # fs) attrs =
     (case Option.bind (field_input attrs f) (lax (fd_type f)) of
        None \<Rightarrow> Inl (validation_error (fd_name f))
      | Some v \<Rightarrow>
          (case model_validate lax fs attrs of
             Inl e \<Rightarrow> Inl e
           | Inr vs \<Rightarrow> Inr ((fd_name f, v) # vs)))"

text \<open>
  From pydantic's conversion table: a value of the field's own type is kept, a \<open>Decimal\<close> becomes a
  \<open>float\<close>, and an optional field takes \<open>None\<close> and otherwise what its type takes.
\<close>

definition documented_conversions :: "conversion \<Rightarrow> (rat \<Rightarrow> rat) \<Rightarrow> bool" where
  "documented_conversions lax to_float \<longleftrightarrow>
     (\<forall>u. lax TUuid (VUuid u) = Some (VUuid u)) \<and> (\<forall>s. lax TStr (VStr s) = Some (VStr s))
     \<and> (\<forall>i. lax TInt (VInt i) = Some (VInt i)) \<and> (\<forall>b. lax TBool (VBool b) = Some (VBool b))
     \<and> (\<forall>r. lax TFloat (VDecimal r) = Some (VFloat (to_float r)))
     \<and> (\<forall>t. lax TDatetime (VDatetime t) = Some (VDatetime t)) \<and> (\<forall>d. lax TDict (VDict d) = Some (VDict d))
     \<and> (\<forall>xs. lax TStrList (VStrList xs) = Some (VStrList xs))
     \<and> (\<forall>vs. \<forall>x \<in> set vs. lax (TEnum vs) (VMember x) = Some (VMember x))
     \<and> (\<forall>ty. lax (TOptional ty) VNone = Some VNone)
     \<and> (\<forall>ty v. v \<noteq> VNone \<longrightarrow> lax (TOptional ty) v = lax ty v)"

fun converted :: "(rat \<Rightarrow> rat) \<Rightarrow> py_value \<Rightarrow> py_value" where
  "converted to_float (VDecimal r) = VFloat (to_float r)"
| "converted to_float v = v"

section \<open>The static check\<close>

text \<open>A field can be read from a column of every value the column holds.\<close>

fun reads_type :: "py_type \<Rightarrow> col_type \<Rightarrow> bool" where
  "reads_type TUuid c \<longleftrightarrow> c = CUuid"
| "reads_type TStr c \<longleftrightarrow> (case c of CText \<Rightarrow> True | CCitext \<Rightarrow> True | CVarchar n \<Rightarrow> True | CChar n \<Rightarrow> True | _ \<Rightarrow> False)"
| "reads_type TInt c \<longleftrightarrow> c = CInteger \<or> c = CBigInt"
| "reads_type TFloat c \<longleftrightarrow> (case c of CNumeric p \<Rightarrow> True | _ \<Rightarrow> False)"
| "reads_type TBool c \<longleftrightarrow> c = CBoolean"
| "reads_type TDatetime c \<longleftrightarrow> c = CTimestamptz"
| "reads_type TDict c \<longleftrightarrow> c = CJsonb"
| "reads_type TStrList c \<longleftrightarrow> c = CTextArray"
| "reads_type (TEnum vs) c \<longleftrightarrow> (case c of CEnum n ws \<Rightarrow> list_all (List.member vs) ws | _ \<Rightarrow> False)"
| "reads_type (TOptional ty) c \<longleftrightarrow> reads_type ty c"

fun is_optional :: "py_type \<Rightarrow> bool" where
  "is_optional (TOptional ty) \<longleftrightarrow> True"
| "is_optional _ \<longleftrightarrow> False"

definition field_reads :: "orm_model \<Rightarrow> field_decl \<Rightarrow> bool" where
  "field_reads m f \<longleftrightarrow>
     (let a = (case fd_alias f of None \<Rightarrow> fd_name f | Some a \<Rightarrow> a)
      in a \<noteq> ''metadata''
         \<and> (case column_of m a of
              None \<Rightarrow> False
            | Some c \<Rightarrow> cd_name c = fd_name f \<and> reads_type (fd_type f) (cd_type c)
                \<and> (cd_nullable c \<longrightarrow> is_optional (fd_type f))))"

lemma lax_loads:
  assumes "documented_conversions lax to_float" and "reads_type ty ct" and "loads ct v"
  shows "lax ty v = Some (converted to_float v)"
  using assms(2,3)
proof (induction ty)
  case (TOptional ty)
  moreover from TOptional.prems have "v \<noteq> VNone" by (cases ct) auto
  ultimately show ?case using assms(1) by (simp add: documented_conversions_def)
next
  case (TEnum vs)
  then show ?case using assms(1)
    by (auto simp: documented_conversions_def list_all_iff split: col_type.splits)
qed (use assms(1) in \<open>auto simp: documented_conversions_def split: col_type.splits\<close>)

lemma field_read:
  assumes "documented_conversions lax to_float" and "row_loads m row" and "field_reads m f"
  shows "Option.bind (field_input (getattr m row) f) (lax (fd_type f)) = Some (converted to_float (row (fd_name f)))"
proof -
  obtain a c where a: "a = (case fd_alias f of None \<Rightarrow> fd_name f | Some a \<Rightarrow> a)" "a \<noteq> ''metadata''"
    and c: "column_of m a = Some c" "cd_name c = fd_name f" "reads_type (fd_type f) (cd_type c)"
      "cd_nullable c \<longrightarrow> is_optional (fd_type f)"
    using assms(3) by (auto simp: field_reads_def Let_def split: option.splits)
  have get: "getattr m row a = Some (row (fd_name f))" using a(2) c(1,2) by (simp add: getattr_def)
  have "c \<in> set (td_columns (metadata_table m))"
    using c(1) by (auto simp: column_of_def find_Some_iff)
  then have "column_loads c (row (fd_name f))"
    using assms(2) c(2) by (auto simp: row_loads_def)
  then have "lax (fd_type f) (row (fd_name f)) = Some (converted to_float (row (fd_name f)))"
    using lax_loads [OF assms(1) c(3)] c(4) assms(1)
    by (cases "fd_type f") (auto simp: column_loads_def documented_conversions_def)
  then show ?thesis using get a(1) by (cases "fd_alias f") (simp_all add: field_input_def)
qed

lemma model_validate_total:
  assumes "documented_conversions lax to_float" and "row_loads m row" and "list_all (field_reads m) fs"
  shows "model_validate lax fs (getattr m row) = Inr (map (\<lambda>f. (fd_name f, converted to_float (row (fd_name f)))) fs)"
  using assms(3) by (induction fs) (simp_all add: field_read [OF assms(1,2)])

section \<open>Every class reads its rows\<close>

text \<open>The class each repository validates the objects of a model into.\<close>

definition repository_dtos :: "int \<Rightarrow> (field_decl list \<times> orm_model) list" where
  "repository_dtos vdim =
     [(user_dto, orm_users), (api_key_dto, orm_api_keys), (tag_dto, orm_tags), (tag_field_dto, orm_tag_fields),
      (tag_version_dto, orm_tag_versions), (document_dto, orm_documents), (document_step_dto, orm_document_steps),
      (document_event_dto, orm_document_events), (document_page_dto, orm_document_pages),
      (extraction_version_dto, orm_extraction_versions), (validation_dto, orm_validations),
      (webhook_dto, orm_webhooks), (webhook_delivery_dto, orm_webhook_deliveries),
      (idempotency_key_dto, orm_idempotency_keys), (chunk_dto, orm_chunks vdim)]"

lemma dtos_read: "list_all (\<lambda>(d, m). list_all (field_reads m) d) (repository_dtos vdim)"
  by code_simp

text \<open>The columns a DTO leaves out.\<close>

definition hidden_columns :: "field_decl list \<Rightarrow> orm_model \<Rightarrow> string list" where
  "hidden_columns d m = filter (\<lambda>n. \<not> List.member (map fd_name d) n) (map cd_name (td_columns (metadata_table m)))"

lemma dtos_hide:
  "list_all (\<lambda>(d, m). hidden_columns d m = (if om_table m = ''chunks'' then [''embedding'', ''tsv''] else []))
     (repository_dtos vdim)"
  by code_simp

text \<open>
  C19. Converting an ORM object never fails: for every DTO class and the model it is built from, and
  every row with values that the model's columns can hold, nulls included, \<open>model_validate\<close> returns
  the DTO whose fields hold the values of the columns of the same names, decimals as floats.
  The field \<open>metadata\<close> is read through its alias, not from the registry of that name that every
  object has. No DTO leaves out a column, but for the vector and the text index of a chunk.
\<close>

theorem repository_dtos_accept_every_row:
  assumes "documented_conversions lax to_float" and "(d, m) \<in> set (repository_dtos vdim)" and "row_loads m row"
  shows "model_validate lax d (getattr m row) = Inr (map (\<lambda>f. (fd_name f, converted to_float (row (fd_name f)))) d)
    \<and> hidden_columns d m = (if om_table m = ''chunks'' then [''embedding'', ''tsv''] else [])"
proof -
  have "list_all (field_reads m) d" using assms(2) dtos_read [of vdim] by (fastforce simp: list_all_iff)
  then have "model_validate lax d (getattr m row) =
      Inr (map (\<lambda>f. (fd_name f, converted to_float (row (fd_name f)))) d)"
    by (rule model_validate_total [OF assms(1,3)])
  then show ?thesis using assms(2) dtos_hide [of vdim] by (fastforce simp: list_all_iff)
qed

text \<open>A conversion that keeps to the table, and a row of every type.\<close>

primrec strict_conversion :: "py_type \<Rightarrow> py_value \<Rightarrow> py_value option" where
  "strict_conversion TUuid v = (case v of VUuid u \<Rightarrow> Some v | _ \<Rightarrow> None)"
| "strict_conversion TStr v = (case v of VStr s \<Rightarrow> Some v | _ \<Rightarrow> None)"
| "strict_conversion TInt v = (case v of VInt i \<Rightarrow> Some v | _ \<Rightarrow> None)"
| "strict_conversion TBool v = (case v of VBool b \<Rightarrow> Some v | _ \<Rightarrow> None)"
| "strict_conversion TDatetime v = (case v of VDatetime t \<Rightarrow> Some v | _ \<Rightarrow> None)"
| "strict_conversion TDict v = (case v of VDict d \<Rightarrow> Some v | _ \<Rightarrow> None)"
| "strict_conversion TStrList v = (case v of VStrList xs \<Rightarrow> Some v | _ \<Rightarrow> None)"
| "strict_conversion TFloat v = (case v of VDecimal r \<Rightarrow> Some (VFloat r) | _ \<Rightarrow> None)"
| "strict_conversion (TEnum vs) v =
     (case v of VMember x \<Rightarrow> if List.member vs x then Some v else None | _ \<Rightarrow> None)"
| "strict_conversion (TOptional ty) v = (case v of VNone \<Rightarrow> Some v | _ \<Rightarrow> strict_conversion ty v)"

lemma strict_documented: "documented_conversions strict_conversion id"
  unfolding documented_conversions_def
proof (intro conjI allI ballI impI)
  fix ty v
  assume "v \<noteq> VNone"
  then show "strict_conversion (TOptional ty) v = strict_conversion ty v" by (cases v) simp_all
qed simp_all

definition sample_webhook_row :: row_values where
  "sample_webhook_row n =
     (if n = ''id'' then VUuid 7 else if n = ''events'' then VStrList [''document.completed'']
      else if n = ''is_active'' then VBool True else if n = ''created_at'' \<or> n = ''updated_at'' then VDatetime 0
      else VStr n)"

theorem repository_dtos_accept_every_row_witness:
  "model_validate strict_conversion webhook_dto (getattr orm_webhooks sample_webhook_row) =
     Inr [(''id'', VUuid 7), (''url'', VStr ''url''), (''secret'', VStr ''secret''),
          (''events'', VStrList [''document.completed'']), (''is_active'', VBool True),
          (''created_at'', VDatetime 0), (''updated_at'', VDatetime 0)]"
proof -
  have "row_loads orm_webhooks sample_webhook_row"
    by (simp add: row_loads_def metadata_table_def model_columns_def orm_webhooks_def metadata_column_def
        uuid_pk_columns_def timestamp_columns_def primary_key_def server_default_def mapped_def with_default_def
        col_def column_loads_def sample_webhook_row_def Let_def ex_bool_eq)
  moreover have "(webhook_dto, orm_webhooks) \<in> set (repository_dtos 1024)"
    by (simp add: repository_dtos_def)
  ultimately show ?thesis
    using repository_dtos_accept_every_row [OF strict_documented, of webhook_dto orm_webhooks 1024 sample_webhook_row]
    by (simp add: webhook_dto_def field_def sample_webhook_row_def)
qed

end
