(* ===== verification/Contracts.thy ===== *)
theory Contracts
  imports Dtos Steps
begin

text \<open>
  Models the shared DTOs of \<open>src/ipa/contracts/models.py\<close> that no other theory needs, those of the step
  handlers and the providers: each class as its fields with their defaults and bounds, and the
  construction of an \<open>IpaModel\<close> from keyword arguments, which collects every error. Which value pydantic
  makes of an argument for an annotation is an argument here.
\<close>

section \<open>Models\<close>

record model_field =
  mf_name :: string
  mf_annotation :: string
  mf_default :: "py_value option"
  mf_ge :: "rat option"
  mf_le :: "rat option"

definition required :: "string \<Rightarrow> string \<Rightarrow> model_field" where
  "required n ty = \<lparr>mf_name = n, mf_annotation = ty, mf_default = None, mf_ge = None, mf_le = None\<rparr>"

definition defaulted :: "py_value \<Rightarrow> model_field \<Rightarrow> model_field" where
  "defaulted v f = f\<lparr>mf_default := Some v\<rparr>"

definition at_least :: "rat \<Rightarrow> model_field \<Rightarrow> model_field" where
  "at_least b f = f\<lparr>mf_ge := Some b\<rparr>"

definition at_most :: "rat \<Rightarrow> model_field \<Rightarrow> model_field" where
  "at_most b f = f\<lparr>mf_le := Some b\<rparr>"

definition image_ref :: "model_field list" where
  "image_ref =
     [at_least 1 (required ''page'' ''int''), required ''blob_key'' ''str'', required ''mime'' ''str'']"

definition ocr_result :: "model_field list" where
  "ocr_result =
     [required ''text'' ''str'',
      defaulted VNone (at_least 0 (at_most 1 (required ''confidence'' ''float | None''))),
      required ''source'' ''Literal[vlm, tesseract]'']"

definition llm_json_result :: "model_field list" where
  "llm_json_result =
     [required ''data'' ''dict[str, Any]'', required ''raw_text'' ''str'', required ''model'' ''str'',
      defaulted VNone (at_least 0 (required ''prompt_tokens'' ''int | None'')),
      defaulted VNone (at_least 0 (required ''completion_tokens'' ''int | None'')),
      at_least 0 (required ''latency_ms'' ''int''),
      defaulted (VBool False) (required ''repaired'' ''bool'')]"

definition step_context :: "model_field list" where
  "step_context =
     [required ''document_id'' ''UUID'', required ''step'' ''PipelineStep'',
      at_least 1 (required ''attempt'' ''int''),
      defaulted VNone (required ''trace_id'' ''str | None'')]"

definition step_result :: "model_field list" where
  "step_result =
     [required ''status'' ''StepStatus'', defaulted VNone (required ''detail'' ''str | None''),
      defaulted (VDict []) (required ''metrics'' ''dict[str, float]''),
      defaulted VNone (required ''next_step_override'' ''PipelineStep | None'')]"

section \<open>Construction\<close>

type_synonym annotation_conversion = "string \<Rightarrow> py_value \<Rightarrow> py_value option"

datatype model_error = Missing | Invalid | TooSmall | TooLarge | Extra

text \<open>The number a bound is compared with; \<open>None\<close>, where the field allows it, is not bounded.\<close>

fun number_of :: "py_value \<Rightarrow> rat option" where
  "number_of (VInt i) = Some (of_int i)"
| "number_of (VFloat r) = Some r"
| "number_of _ = None"

definition in_bounds :: "model_field \<Rightarrow> py_value \<Rightarrow> model_error option" where
  "in_bounds f v =
     (case number_of v of
        None \<Rightarrow> None
      | Some x \<Rightarrow>
          if (case mf_ge f of None \<Rightarrow> False | Some b \<Rightarrow> x < b) then Some TooSmall
          else if (case mf_le f of None \<Rightarrow> False | Some b \<Rightarrow> b < x) then Some TooLarge
          else None)"

text \<open>A default is taken as it is.\<close>

definition field_value ::
  "annotation_conversion \<Rightarrow> (string \<times> py_value) list \<Rightarrow> model_field \<Rightarrow> model_error + py_value" where
  "field_value conv kwargs f =
     (case map_of kwargs (mf_name f) of
        None \<Rightarrow> (case mf_default f of None \<Rightarrow> Inl Missing | Some d \<Rightarrow> Inr d)
      | Some v \<Rightarrow>
          (case conv (mf_annotation f) v of
             None \<Rightarrow> Inl Invalid
           | Some w \<Rightarrow> (case in_bounds f w of Some e \<Rightarrow> Inl e | None \<Rightarrow> Inr w)))"

text \<open>\<open>IpaModel\<close>: \<open>extra="forbid"\<close>; all errors are reported together.\<close>

definition field_errors ::
  "annotation_conversion \<Rightarrow> model_field list \<Rightarrow> (string \<times> py_value) list \<Rightarrow> (string \<times> model_error) list" where
  "field_errors conv fs kwargs =
     concat (map (\<lambda>f. case field_value conv kwargs f of Inl e \<Rightarrow> [(mf_name f, e)] | Inr _ \<Rightarrow> []) fs)
     @ map (\<lambda>k. (k, Extra)) (filter (\<lambda>k. \<not> List.member (map mf_name fs) k) (map fst kwargs))"

definition construct ::
  "annotation_conversion \<Rightarrow> model_field list \<Rightarrow> (string \<times> py_value) list
     \<Rightarrow> (string \<times> model_error) list + (string \<times> py_value) list" where
  "construct conv fs kwargs =
     (let errors = field_errors conv fs kwargs
      in if errors \<noteq> [] then Inl errors
         else Inr (map (\<lambda>f. (mf_name f, case field_value conv kwargs f of Inl _ \<Rightarrow> VNone | Inr v \<Rightarrow> v)) fs))"

section \<open>What a constructed model satisfies\<close>

lemma field_errors_Nil_iff:
  "field_errors conv fs kwargs = [] \<longleftrightarrow>
     (\<forall>f \<in> set fs. \<exists>v. field_value conv kwargs f = Inr v) \<and> (\<forall>k \<in> fst ` set kwargs. k \<in> mf_name ` set fs)"
proof -
  have "(case r of Inl e \<Rightarrow> [(n, e)] | Inr _ \<Rightarrow> []) = [] \<longleftrightarrow> (\<exists>v. r = Inr v)"
    for r :: "model_error + py_value" and n :: string
    by (cases r) simp_all
  then show ?thesis
    by (auto simp: field_errors_def filter_empty_conv)
qed

lemma construct_Inr:
  assumes "construct conv fs kwargs = Inr m"
  shows "map fst m = map mf_name fs"
    and "f \<in> set fs \<Longrightarrow> distinct (map mf_name fs) \<Longrightarrow> \<exists>v. map_of m (mf_name f) = Some v \<and> field_value conv kwargs f = Inr v"
proof -
  have ok: "field_errors conv fs kwargs = []"
    and m: "m = map (\<lambda>f. (mf_name f, case field_value conv kwargs f of Inl _ \<Rightarrow> VNone | Inr v \<Rightarrow> v)) fs"
    using assms by (auto simp: construct_def Let_def split: if_splits)
  show "map fst m = map mf_name fs" by (simp add: m comp_def)
  show "\<exists>v. map_of m (mf_name f) = Some v \<and> field_value conv kwargs f = Inr v"
    if mem: "f \<in> set fs" and dist: "distinct (map mf_name fs)"
  proof -
    obtain v where v: "field_value conv kwargs f = Inr v"
      using ok mem unfolding field_errors_Nil_iff by blast
    then have "(mf_name f, v) \<in> set m" using mem by (force simp: m)
    moreover have "distinct (map fst m)" using dist by (simp add: m comp_def)
    ultimately show ?thesis using v by simp
  qed
qed

text \<open>An argument that is no field is refused, whatever else is given.\<close>

lemma unknown_field_refused:
  assumes "k \<in> fst ` set kwargs" and "k \<notin> mf_name ` set fs"
  shows "\<exists>errors. construct conv fs kwargs = Inl errors \<and> (k, Extra) \<in> set errors"
proof -
  have "(k, Extra) \<in> set (field_errors conv fs kwargs)"
    using assms by (auto simp: field_errors_def)
  moreover from this have "field_errors conv fs kwargs \<noteq> []" by auto
  ultimately show ?thesis by (simp add: construct_def Let_def)
qed

text \<open>
  A model survives being dumped and constructed again, when converting a converted value keeps it and
  the defaults are values of their fields.
\<close>

definition defaults_valid :: "annotation_conversion \<Rightarrow> model_field list \<Rightarrow> bool" where
  "defaults_valid conv fs \<longleftrightarrow>
     list_all (\<lambda>f. case mf_default f of None \<Rightarrow> True
       | Some d \<Rightarrow> conv (mf_annotation f) d = Some d \<and> in_bounds f d = None) fs"

definition keeps_converted :: "annotation_conversion \<Rightarrow> bool" where
  "keeps_converted conv \<longleftrightarrow> (\<forall>ty v w. conv ty v = Some w \<longrightarrow> conv ty w = Some w)"

lemma field_value_again:
  assumes "keeps_converted conv" and "defaults_valid conv fs" and "f \<in> set fs"
    and "field_value conv kwargs f = Inr v" and "map_of m (mf_name f) = Some v"
  shows "field_value conv m f = Inr v"
  using assms(2-5) assms(1)
  by (auto simp: field_value_def defaults_valid_def keeps_converted_def list_all_iff split: option.splits)

lemma construct_dump:
  assumes "keeps_converted conv" and "defaults_valid conv fs"
    and "distinct (map mf_name fs)" and "construct conv fs kwargs = Inr m"
  shows "construct conv fs m = Inr m"
proof -
  have again: "\<exists>v. field_value conv kwargs f = Inr v \<and> field_value conv m f = Inr v" if mem: "f \<in> set fs" for f
  proof -
    obtain v where "map_of m (mf_name f) = Some v" "field_value conv kwargs f = Inr v"
      using construct_Inr(2) [OF assms(4) mem assms(3)] by blast
    with field_value_again [OF assms(1,2) mem this(2,1)] show ?thesis by blast
  qed
  have "fst ` set m = mf_name ` set fs"
    using construct_Inr(1) [OF assms(4)] by (metis set_map)
  with again have "field_errors conv fs m = []"
    unfolding field_errors_Nil_iff by blast
  then have "construct conv fs m = Inr (map (\<lambda>f. (mf_name f, case field_value conv m f of Inl _ \<Rightarrow> VNone | Inr v \<Rightarrow> v)) fs)"
    by (simp add: construct_def)
  also have "map (\<lambda>f. (mf_name f, case field_value conv m f of Inl _ \<Rightarrow> VNone | Inr v \<Rightarrow> v)) fs
    = map (\<lambda>f. (mf_name f, case field_value conv kwargs f of Inl _ \<Rightarrow> VNone | Inr v \<Rightarrow> v)) fs"
  proof (rule map_cong [OF refl])
    fix f assume "f \<in> set fs"
    from again [OF this] show "(mf_name f, case field_value conv m f of Inl _ \<Rightarrow> VNone | Inr v \<Rightarrow> v)
      = (mf_name f, case field_value conv kwargs f of Inl _ \<Rightarrow> VNone | Inr v \<Rightarrow> v)" by auto
  qed
  also have "\<dots> = m"
    using assms(4) by (auto simp: construct_def Let_def split: if_splits)
  finally show ?thesis by simp
qed

section \<open>The context of a claimed step\<close>

text \<open>The arguments of a \<open>StepContext\<close> with the columns of a claimed row.\<close>

definition context_of :: "string option \<Rightarrow> step_row \<Rightarrow> (string \<times> py_value) list" where
  "context_of trace r =
     [(''document_id'', VUuid (ds_document_id r)), (''step'', VMember (step_value (ds_step r))),
      (''attempt'', VInt (ds_attempt r))]
     @ (case trace of None \<Rightarrow> [] | Some s \<Rightarrow> [(''trace_id'', VStr s)])"

definition keeps_exact :: "annotation_conversion \<Rightarrow> bool" where
  "keeps_exact conv \<longleftrightarrow>
     (\<forall>u. conv ''UUID'' (VUuid u) = Some (VUuid u)) \<and> (\<forall>i. conv ''int'' (VInt i) = Some (VInt i))
     \<and> (\<forall>s. conv ''PipelineStep'' (VMember (step_value s)) = Some (VMember (step_value s)))
     \<and> (\<forall>s. conv ''str | None'' (VStr s) = Some (VStr s))"

text \<open>
  Every row a claim returns, from any table that the repository's operations can reach, makes a valid
  \<open>StepContext\<close>: its attempt satisfies the declared bound, so that the handler can be started.
\<close>

lemma claimed_step_makes_valid_context:
  assumes "sql_engine ex step_fits (steps_ok docs)" and "steps_reach ex t"
    and "claim ex now d s t = (Inr (Some r), t')" and "keeps_exact conv"
  shows "construct conv step_context (context_of trace r) =
    Inr [(''document_id'', VUuid d), (''step'', VMember (step_value s)), (''attempt'', VInt 1),
         (''trace_id'', case trace of None \<Rightarrow> VNone | Some x \<Rightarrow> VStr x)]"
proof -
  have inv: "steps_inv docs t" by (rule steps_reach_inv [OF assms(1,2)])
  obtain r0 where r0: "steps_map t (d, s) = Some r0" "pending r0" "r = claimed now r0"
    by (rule claim_exec [OF assms(1) inv, of now d s])
       (use assms(3) in \<open>auto simp: cas_def split: option.splits if_splits\<close>)
  then have "r0 \<in> set t" "ds_document_id r0 = d" "ds_step r0 = s"
    using steps_map_Some [OF inv] by auto
  moreover from this have "ds_attempt r0 = 0"
    using inv r0(2) by (auto simp: steps_inv_def list_all_iff row_lifecycle_def pending_def)
  ultimately have "ds_document_id r = d" "ds_step r = s" "ds_attempt r = 1"
    by (simp_all add: r0(3) claimed_def)
  then show ?thesis
    using assms(4)
    by (cases trace) (simp_all add: construct_def Let_def field_errors_def step_context_def context_of_def
        field_value_def required_def defaulted_def at_least_def in_bounds_def keeps_exact_def)
qed

end
