(* ===== verification/ChunkTypes.thy ===== *)
theory ChunkTypes
  imports Vectors
begin

text \<open>
  The bounds that \<open>ChunkVector\<close> and \<open>ChunkHit\<close> of \<open>src/ipa/contracts/models.py\<close> declare on their
  fields, and the invariant that connects them: whatever sequence of operations of the vector store
  built the table, from vectors that were validated, a search never fails to build its hits.
\<close>

section \<open>Declared bounds\<close>

text \<open>\<open>page_from\<close> and \<open>page_to\<close>: absent, or a page number from 1.\<close>

definition page_valid :: "int option \<Rightarrow> bool" where
  "page_valid p \<longleftrightarrow> (case p of None \<Rightarrow> True | Some n \<Rightarrow> 1 \<le> n)"

definition chunk_vector_valid :: "chunk_vector \<Rightarrow> bool" where
  "chunk_vector_valid c \<longleftrightarrow> - 1 \<le> cv_chunk_index c \<and> page_valid (cv_page_from c) \<and> page_valid (cv_page_to c)"

definition chunk_hit_valid :: "'f chunk_hit \<Rightarrow> bool" where
  "chunk_hit_valid h \<longleftrightarrow> - 1 \<le> hit_chunk_index h \<and> page_valid (hit_page_from h) \<and> page_valid (hit_page_to h)"

section \<open>The operations that write\<close>

datatype chunk_op =
    UpsertChunks "uuid list" timestamp "chunk_vector list"
  | DeleteChunks uuid
  | RefreshChunks "document_row list" "tag_row list" uuid

fun run_chunk_op :: "chunk_row engine \<Rightarrow> chunk_op \<Rightarrow> chunk_row list \<Rightarrow> (py_exn + unit) \<times> chunk_row list" where
  "run_chunk_op ex (UpsertChunks ids now chunks) = store_upsert ex ids now chunks"
| "run_chunk_op ex (DeleteChunks document_id) = store_delete_document ex document_id"
| "run_chunk_op ex (RefreshChunks docs tags document_id) = refresh_metadata ex docs tags document_id"

text \<open>A \<open>ChunkVector\<close> that exists has passed its validation.\<close>

fun validated :: "chunk_op \<Rightarrow> bool" where
  "validated (UpsertChunks ids now chunks) \<longleftrightarrow> list_all chunk_vector_valid chunks"
| "validated _ \<longleftrightarrow> True"

inductive chunks_reach :: "chunk_row engine \<Rightarrow> chunk_row list \<Rightarrow> bool" for ex where
  reach_empty: "chunks_reach ex []"
| reach_op: "chunks_reach ex t \<Longrightarrow> validated op \<Longrightarrow> run_chunk_op ex op t = (res, t') \<Longrightarrow> chunks_reach ex t'"

section \<open>The invariant\<close>

definition row_shape :: "chunk_row \<Rightarrow> bool" where
  "row_shape r \<longleftrightarrow>
     - 1 \<le> ck_chunk_index r \<and> page_valid (ck_page_from r) \<and> page_valid (ck_page_to r)
     \<and> ck_embed_dim r = int (length (ck_embedding r))"

definition row_valid :: "nat \<Rightarrow> chunk_row \<Rightarrow> bool" where
  "row_valid vec_dim r \<longleftrightarrow> row_shape r \<and> length (ck_embedding r) = vec_dim"

lemma row_shape_new_chunk: "chunk_vector_valid c \<Longrightarrow> row_shape (new_chunk i now c)"
  by (simp add: row_shape_def chunk_vector_valid_def new_chunk_def embed_dim_def)

lemma row_shape_overwrite: "row_shape r \<Longrightarrow> row_shape n \<Longrightarrow> row_shape (overwrite r n)"
  by (simp add: row_shape_def overwrite_def)

lemma row_valid_meta [simp]: "row_valid vec_dim (r\<lparr>ck_meta := m\<rparr>) \<longleftrightarrow> row_valid vec_dim r"
  by (simp add: row_valid_def row_shape_def)

lemma make_hit_valid: "row_valid vec_dim r \<Longrightarrow> chunk_hit_valid (make_hit r score)"
  by (simp add: row_valid_def row_shape_def chunk_hit_valid_def make_hit_def)

definition chunks_inv :: "nat \<Rightarrow> uuid set \<Rightarrow> chunk_row list \<Rightarrow> bool" where
  "chunks_inv vec_dim docs t \<longleftrightarrow> chunks_ok docs t \<and> list_all (row_valid vec_dim) t"

lemma chunks_inv_perm: "mset t' = mset t \<Longrightarrow> chunks_inv vec_dim docs t \<Longrightarrow> chunks_inv vec_dim docs t'"
  unfolding chunks_inv_def using chunks_ok_perm by (metis list_all_iff mset_eq_setD)

text \<open>A session changes the table only when its body returns.\<close>

lemma in_session_inv:
  assumes "in_session m t = (res, t')" and "P t" and "\<And>a s. m t = (Inr a, s) \<Longrightarrow> P s"
  shows "P t'"
  using assms by (auto simp: in_session_def split: prod.splits sum.splits)

lemma seq_unit_Inr: "seqE m (\<lambda>_. retE ()) t = (Inr a, s) \<Longrightarrow> \<exists>x. m t = (Inr x, s)"
  by (auto simp: seqE_def split: prod.splits sum.splits)

lemma upsert_outcome:
  assumes "sql_engine ex fits ok" and "ok t" and "ex (Upsert new conf f) t = (Inr x, s)"
  shows "mset s = mset (upsert_rows conf f new t) \<and> list_all fits (upsert_rows conf f new t)
    \<and> ok (upsert_rows conf f new t)"
proof -
  have nb: "\<not> batch_conflict conf new"
    using sql_engine.upsert_batch [OF assms(1,2), of conf new f] assms(3) by auto
  moreover have "list_all fits (upsert_rows conf f new t) \<and> ok (upsert_rows conf f new t)"
    using sql_engine.upsert_fails [OF assms(1,2) nb, of f] assms(3) by force
  ultimately show ?thesis
    using sql_engine.upsert [OF assms(1,2), of conf f new] assms(3) by force
qed

lemma upsert_inv:
  assumes engine: "sql_engine ex (chunk_fits vec_dim) (chunks_ok docs)"
    and inv: "chunks_inv vec_dim docs t" and valid: "list_all chunk_vector_valid chunks"
    and run: "store_upsert ex ids now chunks t = (res, t')"
  shows "chunks_inv vec_dim docs t'"
proof (rule in_session_inv [where P = "chunks_inv vec_dim docs", OF run [unfolded store_upsert_def] inv])
  fix a s
  let ?new = "chunk_rows ids now chunks"
  let ?u = "upsert_rows same_chunk overwrite ?new t"
  assume up: "upsert ex ids now chunks t = (Inr a, s)"
  show "chunks_inv vec_dim docs s"
  proof (cases "chunks = []")
    case True
    with up inv show ?thesis by (simp add: upsert_def)
  next
    case False
    then obtain x where "ex (Upsert ?new same_chunk overwrite) t = (Inr x, s)"
      using up by (auto simp: upsert_def dest: seq_unit_Inr)
    then have s: "mset s = mset ?u" and fits: "list_all (chunk_fits vec_dim) ?u" and ok: "chunks_ok docs ?u"
      using upsert_outcome [OF engine] inv by (auto simp: chunks_inv_def)
    have new: "row_shape n" if "n \<in> set ?new" for n
      using that valid by (auto simp: list_all_iff dest!: set_zip_rightD intro: row_shape_new_chunk)
    have "row_shape r" if "r \<in> set ?u" for r
      using that by (rule upsert_rows_row)
        (use inv new in \<open>auto simp: chunks_inv_def list_all_iff row_valid_def intro: row_shape_overwrite\<close>)
    then have "chunks_inv vec_dim docs ?u"
      using fits ok by (auto simp: chunks_inv_def row_valid_def list_all_iff chunk_fits_def)
    then show ?thesis by (rule chunks_inv_perm [OF s])
  qed
qed

lemma delete_inv:
  assumes engine: "sql_engine ex (chunk_fits vec_dim) (chunks_ok docs)"
    and inv: "chunks_inv vec_dim docs t" and run: "store_delete_document ex document_id t = (res, t')"
  shows "chunks_inv vec_dim docs t'"
proof (rule in_session_inv [where P = "chunks_inv vec_dim docs", OF run [unfolded store_delete_document_def] inv])
  fix a s
  let ?keep = "filter (\<lambda>r. ck_document_id r \<noteq> document_id) t"
  assume "delete_document ex document_id t = (Inr a, s)"
  then obtain x where ex: "ex (Delete (\<lambda>r. ck_document_id r = document_id)) t = (Inr x, s)"
    by (auto simp: delete_document_def dest: seq_unit_Inr)
  have ok: "chunks_ok docs t" using inv by (simp add: chunks_inv_def)
  have "mset s = mset ?keep"
    using sql_engine.delete [OF engine ok, of "\<lambda>r. ck_document_id r = document_id"] ex
    by (auto simp: chunks_ok_filter [OF ok])
  moreover have "chunks_inv vec_dim docs ?keep"
    using inv by (auto simp: chunks_inv_def chunks_ok_filter list_all_iff)
  ultimately show "chunks_inv vec_dim docs s" by (rule chunks_inv_perm)
qed

lemma refresh_inv:
  assumes engine: "sql_engine ex (chunk_fits vec_dim) (chunks_ok docs)"
    and inv: "chunks_inv vec_dim docs t" and run: "refresh_metadata ex dt tags document_id t = (res, t')"
  shows "chunks_inv vec_dim docs t'"
proof (rule in_session_inv [where P = "chunks_inv vec_dim docs", OF run [unfolded refresh_metadata_def] inv])
  fix a s
  assume body: "(case document_join dt tags document_id of None \<Rightarrow> retE ()
     | Some document \<Rightarrow> seqE (ex (Update (\<lambda>r. ck_document_id r = document_id)
                   (\<lambda>r. r\<lparr>ck_meta := dict_update (ck_meta r) (denormalised document)\<rparr>)))
              (\<lambda>_. retE ())) t = (Inr a, s)"
  show "chunks_inv vec_dim docs s"
  proof (cases "document_join dt tags document_id")
    case None
    with body inv show ?thesis by simp
  next
    case (Some document)
    let ?p = "\<lambda>r. ck_document_id r = document_id"
    let ?f = "\<lambda>r :: chunk_row. r\<lparr>ck_meta := dict_update (ck_meta r) (denormalised document)\<rparr>"
    have ok: "chunks_ok docs t" using inv by (simp add: chunks_inv_def)
    obtain x where ex: "ex (Update ?p ?f) t = (Inr x, s)"
      using body Some by (auto dest: seq_unit_Inr)
    have "list_all (chunk_fits vec_dim) (map ?f (filter ?p t)) \<and> chunks_ok docs (apply_update ?p ?f t)"
      using sql_engine.update_range [OF engine ok, of ?f ?p] sql_engine.update_violation [OF engine ok, of ?f ?p] ex
      by force
    then have "mset s = mset (apply_update ?p ?f t)" and ok': "chunks_ok docs (apply_update ?p ?f t)"
      using sql_engine.update [OF engine ok, of ?f ?p] ex by force+
    moreover have "chunks_inv vec_dim docs (apply_update ?p ?f t)"
      using inv ok' by (auto simp: chunks_inv_def list_all_iff apply_update_def)
    ultimately show ?thesis by (blast intro: chunks_inv_perm)
  qed
qed

lemma chunks_reach_inv:
  assumes "sql_engine ex (chunk_fits vec_dim) (chunks_ok docs)" and "chunks_reach ex t"
  shows "chunks_inv vec_dim docs t"
  using assms(2)
proof induction
  case reach_empty
  show ?case by (simp add: chunks_inv_def chunks_ok_def)
next
  case (reach_op t op res t')
  show ?case
  proof (cases op)
    case (UpsertChunks ids now chunks)
    with reach_op show ?thesis by (auto intro: upsert_inv [OF assms(1)])
  next
    case (DeleteChunks document_id)
    with reach_op show ?thesis by (auto intro: delete_inv [OF assms(1)])
  next
    case (RefreshChunks dt tags document_id)
    with reach_op show ?thesis by (auto intro: refresh_inv [OF assms(1)])
  qed
qed

text \<open>
  C18. Types are kept across the store: in every table that the store's operations build from validated
  vectors, in any order and with any failures between them, each row records the dimension of the
  column as the one of its embedding, and every hit that a search constructs from such a table
  satisfies the bounds that \<open>ChunkHit\<close> declares, so that the search never raises a validation error.
\<close>

theorem stored_vectors_make_valid_hits:
  assumes "sql_engine ex (chunk_fits vec_dim) (chunks_ok docs)" and "nn_index be vec_dim"
    and "search_arith add recip sub_one" and "length q = vec_dim" and "0 \<le> top_k"
    and "chunks_reach ex t"
  shows "list_all (\<lambda>r. ck_embed_dim r = int vec_dim \<and> length (ck_embedding r) = vec_dim) t
    \<and> (\<exists>hits. search be ex add zero recip sub_one q query_text top_k filters t = (Inr hits, t)
          \<and> list_all chunk_hit_valid hits)"
proof -
  have rows: "list_all (row_valid vec_dim) t"
    using chunks_reach_inv [OF assms(1,6)] by (simp add: chunks_inv_def)
  obtain hits where run: "search be ex add zero recip sub_one q query_text top_k filters t = (Inr hits, t)"
    and hits: "\<forall>h \<in> set hits. \<exists>r \<in> {r \<in> set t. passes filters r}. h = make_hit r (hit_score h)"
    using search_hits_exec [OF assms(1-5)] by blast
  have "chunk_hit_valid h" if "h \<in> set hits" for h
    using hits that rows make_hit_valid by (metis (mono_tags, lifting) list_all_iff mem_Collect_eq)
  then show ?thesis using run rows by (auto simp: list_all_iff row_valid_def row_shape_def)
qed

text \<open>Two chunks stored and refreshed, then searched.\<close>

theorem stored_vectors_make_valid_hits_witness:
  "\<exists>t hits. t \<noteq> [] \<and> search (exact_backend 2 (\<lambda>a b. if a = b then 0 else 1 :: rat) (\<lambda>q r. True) (\<lambda>q r. 1))
      (pg_execute (chunk_fits 2) (chunks_ok {1})) (+) 0 (\<lambda>n. 1 / of_int n) (\<lambda>d. 1 - d)
      [1, 0] (Some ''invoice'') 3 None t = (Inr hits, t) \<and> list_all chunk_hit_valid hits"
proof -
  let ?ex = "pg_execute (chunk_fits 2) (chunks_ok {1})"
  let ?chunk = "sample_chunk 0 ''amended''"
  have ok: "chunks_ok {1} []" by (simp add: chunks_ok_def)
  have "batch_ok 2 {1} [11] 5 [?chunk] []"
    by (simp add: batch_ok_def sample_chunk_fits text_ok_def) (simp add: sample_chunk_def)
  then obtain t where run: "store_upsert ?ex [11] 5 [?chunk] [] = (Inr (), t)"
    and m: "\<And>k. table_map ck_key t k =
       (case table_map ck_key (chunk_rows [11] 5 [?chunk]) k of
          None \<Rightarrow> table_map ck_key [] k
        | Some n \<Rightarrow> Some (case table_map ck_key [] k of None \<Rightarrow> n | Some r \<Rightarrow> overwrite r n))"
    using store_upsert_exec [OF chunk_engine.sql_engine_axioms ok] by blast
  have "t \<noteq> []" using m [of "ck_key (new_chunk 11 5 ?chunk)"] by (auto simp: table_map_def)
  moreover have "chunks_reach ?ex t"
    by (rule reach_op [OF reach_empty, where op = "UpsertChunks [11] 5 [?chunk]"])
       (simp_all add: run, simp add: chunk_vector_valid_def sample_chunk_def page_valid_def)
  moreover from stored_vectors_make_valid_hits [OF chunk_engine.sql_engine_axioms exact_index.nn_index_axioms
      rat_search.search_arith_axioms _ _ this, of "[1, 0]" 3 "\<lambda>a b. if a = b then 0 else 1" "\<lambda>q r. True"
      "\<lambda>q r. 1" 0 "Some ''invoice''" None]
  have "\<exists>hits. search (exact_backend 2 (\<lambda>a b. if a = b then 0 else 1 :: rat) (\<lambda>q r. True) (\<lambda>q r. 1))
      ?ex (+) 0 (\<lambda>n. 1 / of_int n) (\<lambda>d. 1 - d) [1, 0] (Some ''invoice'') 3 None t = (Inr hits, t)
      \<and> list_all chunk_hit_valid hits"
    by simp
  ultimately show ?thesis by blast
qed

section \<open>Models side by side\<close>

text \<open>
  The key of the fusion leaves out the model, so that a chunk that is stored under two models and found
  twice by one ranking is counted twice in it, and overtakes the best chunk of a single model.
\<close>

lemma two_models_count_twice:
  assumes "hit_key a = hit_key b" and "hit_key c \<noteq> hit_key a"
  shows "rrf_fuse (+) (0 :: rat) (\<lambda>n. 1 / of_int n) hit_key [[c, a, b]] 2 = [(b, 1 / 62 + 1 / 63), (c, 1 / 61)]"
  using assms by (simp add: rrf_fuse_def fuse_all_def fuse_row_def RRF_K_def sort_key_desc_def)

end
