(* ===== verification/Protocols.thy ===== *)
theory Protocols
  imports Prelude
begin

text \<open>
  Models the interfaces of \<open>src/ipa/contracts/protocols.py\<close> and how the adapters satisfy them: the
  signature of every method of every protocol and of the public methods of the four adapters, Python's
  binding of the arguments of a call to the parameters of a method, and the structural check of a
  method against the one a protocol declares. What the methods do is in the theories of the adapters.
\<close>

section \<open>Signatures\<close>

text \<open>An annotation is the list of the alternatives of its union, each as the source spells it.\<close>

type_synonym annotation = "string list"

text \<open>
  A plain method and an asynchronous generator return what they are annotated with when they are
  called; the call of a coroutine returns an awaitable of it; an attribute is not called.
\<close>

datatype method_kind = Coroutine | AsyncGenerator | Plain | Attribute

record param_decl =
  pd_name :: string
  pd_keyword_only :: bool
  pd_type :: annotation
  pd_default :: "string option"

record method_sig =
  ms_kind :: method_kind
  ms_name :: string
  ms_params :: "param_decl list"
  ms_result :: annotation

definition param :: "string \<Rightarrow> annotation \<Rightarrow> param_decl" where
  "param n ty = \<lparr>pd_name = n, pd_keyword_only = False, pd_type = ty, pd_default = None\<rparr>"

definition kw_param :: "string \<Rightarrow> annotation \<Rightarrow> param_decl" where
  "kw_param n ty = \<lparr>pd_name = n, pd_keyword_only = True, pd_type = ty, pd_default = None\<rparr>"

definition defaults :: "string \<Rightarrow> param_decl \<Rightarrow> param_decl" where
  "defaults e p = p\<lparr>pd_default := Some e\<rparr>"

definition signature :: "method_kind \<Rightarrow> string \<Rightarrow> param_decl list \<Rightarrow> annotation \<Rightarrow> method_sig" where
  "signature k n ps ty = \<lparr>ms_kind = k, ms_name = n, ms_params = ps, ms_result = ty\<rparr>"

section \<open>The protocols\<close>

definition blob_store :: "method_sig list" where
  "blob_store =
     [signature Coroutine ''put''
        [param ''key'' [''str''],
         param ''data'' [''bytes''],
         param ''content_type'' [''str'']] [''str''],
      signature Coroutine ''put_stream''
        [param ''key'' [''str''],
         param ''reader'' [''AsyncIterator[bytes]''],
         param ''content_type'' [''str''],
         defaults ''None'' (param ''size'' [''int'', ''None''])] [''str''],
      signature Plain ''get_stream''
        [param ''key'' [''str''],
         defaults ''1024 * 1024'' (param ''chunk_size'' [''int''])] [''AsyncIterator[bytes]''],
      signature Coroutine ''get''
        [param ''key'' [''str'']] [''bytes''],
      signature Coroutine ''exists''
        [param ''key'' [''str'']] [''bool''],
      signature Coroutine ''presigned_url''
        [param ''key'' [''str''],
         defaults ''900'' (param ''expires_s'' [''int''])] [''str''],
      signature Coroutine ''delete''
        [param ''key'' [''str'']] [''None'']]"

definition content_store :: "method_sig list" where
  "content_store =
     [signature Coroutine ''put_pages''
        [param ''document_id'' [''UUID''],
         param ''pages'' [''list[PageText]'']] [''None''],
      signature Coroutine ''get_pages''
        [param ''document_id'' [''UUID'']] [''list[PageText]''],
      signature Coroutine ''put_extraction''
        [param ''record'' [''ExtractionRecord'']] [''str''],
      signature Coroutine ''get_extraction''
        [param ''document_id'' [''UUID''],
         defaults ''None'' (param ''version'' [''int'', ''None''])] [''ExtractionRecord'', ''None''],
      signature Coroutine ''list_extractions''
        [param ''document_id'' [''UUID'']] [''list[ExtractionRecord]''],
      signature Coroutine ''put_raw_response''
        [param ''document_id'' [''UUID''],
         param ''step'' [''str''],
         param ''model'' [''str''],
         param ''response_text'' [''str''],
         defaults ''None'' (param ''request_summary'' [''str'', ''None''])] [''None''],
      signature Coroutine ''delete_document''
        [param ''document_id'' [''UUID'']] [''None'']]"

definition cache_store :: "method_sig list" where
  "cache_store =
     [signature Coroutine ''get_json''
        [param ''key'' [''str'']] [''dict[str, Any]'', ''None''],
      signature Coroutine ''set_json''
        [param ''key'' [''str''],
         param ''value'' [''dict[str, Any]''],
         param ''ttl_s'' [''int'']] [''None''],
      signature Coroutine ''delete''
        [param ''key'' [''str'']] [''None''],
      signature Coroutine ''claim_idempotency''
        [param ''key'' [''str''],
         param ''ttl_s'' [''int'']] [''bool''],
      signature Coroutine ''lock''
        [param ''key'' [''str''],
         param ''ttl_s'' [''int'']] [''AbstractAsyncContextManager[bool]'']]"

definition llm_provider :: "method_sig list" where
  "llm_provider =
     [signature Coroutine ''complete_json''
        [kw_param ''system'' [''str''],
         kw_param ''user'' [''str''],
         kw_param ''json_schema'' [''dict[str, Any]''],
         defaults ''None'' (kw_param ''images'' [''list[ImageRef]'', ''None'']),
         defaults ''None'' (kw_param ''model'' [''str'', ''None''])] [''LlmJsonResult'']]"

definition ocr_provider :: "method_sig list" where
  "ocr_provider =
     [signature Coroutine ''ocr_image''
        [param ''image'' [''bytes''],
         param ''mime'' [''str'']] [''OcrResult'']]"

definition embedding_provider :: "method_sig list" where
  "embedding_provider =
     [signature Attribute ''model''
        [] [''str''],
      signature Attribute ''dimension''
        [] [''int''],
      signature Coroutine ''embed''
        [param ''texts'' [''list[str]''],
         kw_param ''kind'' [''Literal[query, passage]'']] [''list[list[float]]'']]"

definition vector_store :: "method_sig list" where
  "vector_store =
     [signature Coroutine ''upsert''
        [param ''chunks'' [''list[ChunkVector]'']] [''None''],
      signature Coroutine ''delete_document''
        [param ''document_id'' [''UUID'']] [''None''],
      signature Coroutine ''refresh_metadata''
        [param ''document_id'' [''UUID'']] [''None''],
      signature Coroutine ''search''
        [param ''embedding'' [''list[float]''],
         kw_param ''query_text'' [''str'', ''None''],
         kw_param ''top_k'' [''int''],
         kw_param ''filters'' [''SearchFilters'', ''None'']] [''list[ChunkHit]'']]"

section \<open>The adapters\<close>

definition minio_blob_store_methods :: "method_sig list" where
  "minio_blob_store_methods =
     [signature Attribute ''bucket_name''
        [] [''str''],
      signature Coroutine ''ensure_bucket''
        [] [''None''],
      signature Coroutine ''bucket_exists''
        [] [''bool''],
      signature Coroutine ''put''
        [param ''key'' [''str''],
         param ''data'' [''bytes''],
         param ''content_type'' [''str'']] [''str''],
      signature Coroutine ''put_stream''
        [param ''key'' [''str''],
         param ''reader'' [''AsyncIterator[bytes]''],
         param ''content_type'' [''str''],
         defaults ''None'' (param ''size'' [''int'', ''None''])] [''str''],
      signature AsyncGenerator ''get_stream''
        [param ''key'' [''str''],
         defaults ''1024 * 1024'' (param ''chunk_size'' [''int''])] [''AsyncIterator[bytes]''],
      signature Coroutine ''get''
        [param ''key'' [''str'']] [''bytes''],
      signature Coroutine ''exists''
        [param ''key'' [''str'']] [''bool''],
      signature Coroutine ''presigned_url''
        [param ''key'' [''str''],
         defaults ''900'' (param ''expires_s'' [''int''])] [''str''],
      signature Coroutine ''delete''
        [param ''key'' [''str'']] [''None'']]"

definition mongo_content_store_methods :: "method_sig list" where
  "mongo_content_store_methods =
     [signature Plain ''close''
        [] [''None''],
      signature Coroutine ''ping''
        [] [''None''],
      signature Coroutine ''ensure_indexes''
        [] [''None''],
      signature Coroutine ''put_pages''
        [param ''document_id'' [''UUID''],
         param ''pages'' [''list[PageText]'']] [''None''],
      signature Coroutine ''get_pages''
        [param ''document_id'' [''UUID'']] [''list[PageText]''],
      signature Coroutine ''put_extraction''
        [param ''record'' [''ExtractionRecord'']] [''str''],
      signature Coroutine ''get_extraction''
        [param ''document_id'' [''UUID''],
         defaults ''None'' (param ''version'' [''int'', ''None''])] [''ExtractionRecord'', ''None''],
      signature Coroutine ''list_extractions''
        [param ''document_id'' [''UUID'']] [''list[ExtractionRecord]''],
      signature Coroutine ''put_raw_response''
        [param ''document_id'' [''UUID''],
         param ''step'' [''str''],
         param ''model'' [''str''],
         param ''response_text'' [''str''],
         defaults ''None'' (param ''request_summary'' [''str'', ''None''])] [''None''],
      signature Coroutine ''delete_document''
        [param ''document_id'' [''UUID'']] [''None'']]"

definition redis_cache_store_methods :: "method_sig list" where
  "redis_cache_store_methods =
     [signature Plain ''key''
        [param ''kind'' [''str''],
         param ''identifier'' [''str'']] [''str''],
      signature Coroutine ''get_json''
        [param ''key'' [''str'']] [''dict[str, Any]'', ''None''],
      signature Coroutine ''set_json''
        [param ''key'' [''str''],
         param ''value'' [''dict[str, Any]''],
         param ''ttl_s'' [''int'']] [''None''],
      signature Coroutine ''delete''
        [param ''key'' [''str'']] [''None''],
      signature Coroutine ''claim_idempotency''
        [param ''key'' [''str''],
         param ''ttl_s'' [''int'']] [''bool''],
      signature Coroutine ''lock''
        [param ''key'' [''str''],
         param ''ttl_s'' [''int'']] [''AbstractAsyncContextManager[bool]''],
      signature Coroutine ''ping''
        [] [''None''],
      signature Coroutine ''aclose''
        [] [''None'']]"

definition pg_vector_store_methods :: "method_sig list" where
  "pg_vector_store_methods =
     [signature Coroutine ''upsert''
        [param ''chunks'' [''list[ChunkVector]'']] [''None''],
      signature Coroutine ''delete_document''
        [param ''document_id'' [''UUID'']] [''None''],
      signature Coroutine ''refresh_metadata''
        [param ''document_id'' [''UUID'']] [''None''],
      signature Coroutine ''search''
        [param ''embedding'' [''list[float]''],
         kw_param ''query_text'' [''str'', ''None''],
         kw_param ''top_k'' [''int''],
         kw_param ''filters'' [''SearchFilters'', ''None'']] [''list[ChunkHit]'']]"

section \<open>Calls\<close>

text \<open>Whether a value of the second annotation is one of the first.\<close>

definition admits :: "annotation \<Rightarrow> annotation \<Rightarrow> bool" where
  "admits a b \<longleftrightarrow> List.member a ''Any'' \<or> list_all (List.member a) b"

lemma admits_refl [simp]: "admits a a"
  by (simp add: admits_def list_all_iff)

lemma admits_trans: "admits a b \<Longrightarrow> admits b c \<Longrightarrow> admits a c"
  by (auto simp: admits_def list_all_iff)

text \<open>A call: the annotations of its positional arguments, and of its keyword arguments.\<close>

record call_shape =
  cs_positional :: "annotation list"
  cs_keywords :: "(string \<times> annotation) list"

definition positional :: "method_sig \<Rightarrow> param_decl list" where
  "positional m = filter (\<lambda>p. \<not> pd_keyword_only p) (ms_params m)"

definition keyword_only :: "method_sig \<Rightarrow> param_decl list" where
  "keyword_only m = filter pd_keyword_only (ms_params m)"

text \<open>The parameters that \<open>k\<close> positional arguments leave to the keywords.\<close>

definition remaining :: "nat \<Rightarrow> method_sig \<Rightarrow> param_decl list" where
  "remaining k m = drop k (positional m) @ keyword_only m"

text \<open>
  Python binds positional arguments in order and keywords by name, to a parameter that is not bound
  yet; a parameter without a default must be bound.
\<close>

definition binds :: "method_sig \<Rightarrow> call_shape \<Rightarrow> bool" where
  "binds m c \<longleftrightarrow>
     ms_kind m \<noteq> Attribute
     \<and> length (cs_positional c) \<le> length (positional m)
     \<and> list_all (\<lambda>(p, ty). admits (pd_type p) ty) (zip (positional m) (cs_positional c))
     \<and> distinct (map fst (cs_keywords c))
     \<and> list_all (\<lambda>(n, ty). list_ex (\<lambda>p. pd_name p = n \<and> admits (pd_type p) ty) (remaining (length (cs_positional c)) m))
         (cs_keywords c)
     \<and> list_all (\<lambda>p. pd_default p \<noteq> None \<or> List.member (map fst (cs_keywords c)) (pd_name p))
         (remaining (length (cs_positional c)) m)"

section \<open>Conformance\<close>

text \<open>A parameter that takes at least what another of the same name takes.\<close>

definition covers_param :: "param_decl \<Rightarrow> param_decl \<Rightarrow> bool" where
  "covers_param p q \<longleftrightarrow>
     pd_name p = pd_name q \<and> admits (pd_type p) (pd_type q) \<and> (pd_default q \<noteq> None \<longrightarrow> pd_default p \<noteq> None)"

definition awaited :: "method_sig \<Rightarrow> bool" where
  "awaited m \<longleftrightarrow> ms_kind m = Coroutine"

definition conforms :: "method_sig \<Rightarrow> method_sig \<Rightarrow> bool" where
  "conforms m p \<longleftrightarrow>
     ms_name m = ms_name p \<and> awaited m = awaited p \<and> (ms_kind m = Attribute \<longleftrightarrow> ms_kind p = Attribute)
     \<and> admits (ms_result p) (ms_result m)
     \<and> length (positional p) \<le> length (positional m)
     \<and> list_all (\<lambda>(x, y). covers_param x y) (zip (positional m) (positional p))
     \<and> list_all (\<lambda>y. list_ex (\<lambda>x. covers_param x y) (keyword_only m)) (keyword_only p)
     \<and> list_all (\<lambda>x. pd_default x \<noteq> None) (drop (length (positional p)) (positional m))
     \<and> list_all (\<lambda>x. pd_default x \<noteq> None \<or> list_ex (\<lambda>y. pd_name x = pd_name y \<and> covers_param x y) (keyword_only p)) (keyword_only m)"

definition implements :: "method_sig list \<Rightarrow> method_sig list \<Rightarrow> bool" where
  "implements a p \<longleftrightarrow> list_all (\<lambda>y. list_ex (\<lambda>x. conforms x y) a) p"

lemma conforms_nth:
  assumes "conforms m p" and "i < length (positional p)"
  shows "covers_param (positional m ! i) (positional p ! i)" and "length (positional p) \<le> length (positional m)"
proof -
  have all: "list_all (\<lambda>(x, y). covers_param x y) (zip (positional m) (positional p))"
    and len: "length (positional p) \<le> length (positional m)"
    using assms(1) by (simp_all add: conforms_def)
  show "length (positional p) \<le> length (positional m)" by (rule len)
  show "covers_param (positional m ! i) (positional p ! i)"
    using all assms(2) len by (simp add: list_all_length)
qed

text \<open>Each parameter left to the keywords is covered by one of the conforming method, and conversely.\<close>

lemma remaining_covered:
  assumes "conforms m p" and "y \<in> set (remaining k p)"
  obtains x where "x \<in> set (remaining k m)" "covers_param x y"
proof -
  have kw: "\<forall>y \<in> set (keyword_only p). \<exists>x \<in> set (keyword_only m). covers_param x y"
    using assms(1) by (simp add: conforms_def list_all_iff list_ex_iff)
  consider "y \<in> set (drop k (positional p))" | "y \<in> set (keyword_only p)"
    using assms(2) by (auto simp: remaining_def)
  then show thesis
  proof cases
    case 1
    then obtain j where "j < length (drop k (positional p))" "drop k (positional p) ! j = y"
      by (auto simp: in_set_conv_nth)
    then have j: "k + j < length (positional p)" "y = positional p ! (k + j)" by auto
    note cov = conforms_nth [OF assms(1) j(1)]
    then have "drop k (positional m) ! j = positional m ! (k + j)" "j < length (drop k (positional m))"
      using j(1) by simp_all
    then have "positional m ! (k + j) \<in> set (drop k (positional m))" by (metis nth_mem)
    then show thesis using that cov(1) j(2) by (auto simp: remaining_def)
  next
    case 2
    then show thesis using that kw by (auto simp: remaining_def)
  qed
qed

lemma remaining_needed:
  assumes "conforms m p" and "x \<in> set (remaining k m)" and "pd_default x = None"
  obtains y where "y \<in> set (remaining k p)" "covers_param x y"
proof -
  have kw: "\<forall>x \<in> set (keyword_only m). pd_default x \<noteq> None \<or> (\<exists>y \<in> set (keyword_only p). covers_param x y)"
    and extra: "\<forall>x \<in> set (drop (length (positional p)) (positional m)). pd_default x \<noteq> None"
    using assms(1) by (auto simp: conforms_def list_all_iff list_ex_iff)
  consider "x \<in> set (drop k (positional m))" | "x \<in> set (keyword_only m)"
    using assms(2) by (auto simp: remaining_def)
  then show thesis
  proof cases
    case 1
    then obtain j where "j < length (drop k (positional m))" "drop k (positional m) ! j = x"
      by (auto simp: in_set_conv_nth)
    then have j: "k + j < length (positional m)" "x = positional m ! (k + j)" by auto
    have "k + j < length (positional p)"
    proof (rule ccontr)
      let ?n = "length (positional p)"
      assume "\<not> k + j < ?n"
      then have "drop ?n (positional m) ! (k + j - ?n) = x" "k + j - ?n < length (drop ?n (positional m))"
        using j by simp_all
      then have "x \<in> set (drop ?n (positional m))" by (metis nth_mem)
      with extra assms(3) show False by blast
    qed
    moreover from this have "drop k (positional p) ! j = positional p ! (k + j)" "j < length (drop k (positional p))"
      by simp_all
    then have "positional p ! (k + j) \<in> set (drop k (positional p))" by (metis nth_mem)
    ultimately show thesis using that conforms_nth(1) [OF assms(1)] j(2) by (auto simp: remaining_def)
  next
    case 2
    with kw assms(3) obtain y where "y \<in> set (keyword_only p)" "covers_param x y" by blast
    then show thesis by (intro that [of y]) (simp_all add: remaining_def)
  qed
qed

text \<open>Substitution: a method that conforms accepts every call that the declared one accepts.\<close>

lemma conforming_binds:
  assumes "conforms m p" and "binds p c"
  shows "binds m c"
proof -
  let ?k = "length (cs_positional c)" and ?names = "map fst (cs_keywords c)"
  have k: "?k \<le> length (positional p)"
    and pos: "list_all (\<lambda>(p, ty). admits (pd_type p) ty) (zip (positional p) (cs_positional c))"
    and kws: "\<forall>(n, ty) \<in> set (cs_keywords c). \<exists>y \<in> set (remaining ?k p). pd_name y = n \<and> admits (pd_type y) ty"
    and need: "\<forall>y \<in> set (remaining ?k p). pd_default y \<noteq> None \<or> pd_name y \<in> set ?names"
    and rest: "distinct ?names" "ms_kind p \<noteq> Attribute"
    using assms(2) by (simp_all add: binds_def list_all_iff list_ex_iff)
  have len: "?k \<le> length (positional m)" "ms_kind m \<noteq> Attribute"
    using assms(1) k rest(2) by (auto simp: conforms_def)
  have "admits (pd_type (positional m ! i)) (cs_positional c ! i)" if "i < ?k" for i
  proof -
    have "admits (pd_type (positional p ! i)) (cs_positional c ! i)"
      using that pos k by (simp add: list_all_length)
    moreover have "admits (pd_type (positional m ! i)) (pd_type (positional p ! i))"
      using that k conforms_nth(1) [OF assms(1), of i] by (simp add: covers_param_def)
    ultimately show ?thesis by (rule admits_trans [rotated])
  qed
  then have "list_all (\<lambda>(p, ty). admits (pd_type p) ty) (zip (positional m) (cs_positional c))"
    by (simp add: list_all_length)
  moreover have "list_ex (\<lambda>x. pd_name x = n \<and> admits (pd_type x) ty) (remaining ?k m)"
    if mem: "(n, ty) \<in> set (cs_keywords c)" for n ty
  proof -
    obtain y where y: "y \<in> set (remaining ?k p)" "pd_name y = n" "admits (pd_type y) ty"
      using bspec [OF kws mem] by auto
    obtain x where x: "x \<in> set (remaining ?k m)" "covers_param x y" using remaining_covered [OF assms(1) y(1)] by metis
    then have "pd_name x = n \<and> admits (pd_type x) ty"
      using y(2) admits_trans [OF _ y(3), of "pd_type x"] by (simp add: covers_param_def)
    with x(1) show ?thesis by (auto simp: list_ex_iff)
  qed
  then have "list_all (\<lambda>(n, ty). list_ex (\<lambda>x. pd_name x = n \<and> admits (pd_type x) ty) (remaining ?k m)) (cs_keywords c)"
    by (auto simp: list_all_iff)
  moreover have "pd_default x \<noteq> None \<or> List.member ?names (pd_name x)" if mem: "x \<in> set (remaining ?k m)" for x
  proof (cases "pd_default x = None")
    case True
    obtain y where "y \<in> set (remaining ?k p)" "covers_param x y"
      by (rule remaining_needed [OF assms(1) mem True])
    then show ?thesis using need True by (auto simp: covers_param_def)
  qed simp
  then have "list_all (\<lambda>x. pd_default x \<noteq> None \<or> List.member ?names (pd_name x)) (remaining ?k m)"
    by (auto simp: list_all_iff)
  ultimately show ?thesis
    using len rest(1) unfolding binds_def by blast
qed

text \<open>Each adapter with the protocol it is used as.\<close>

definition adapters :: "(method_sig list \<times> method_sig list) list" where
  "adapters =
     [(minio_blob_store_methods, blob_store), (mongo_content_store_methods, content_store),
      (redis_cache_store_methods, cache_store), (pg_vector_store_methods, vector_store)]"

lemma adapters_implement: "list_all (\<lambda>(a, p). implements a p) adapters"
  by code_simp

definition protocols :: "method_sig list" where
  "protocols =
     blob_store @ content_store @ cache_store @ llm_provider @ ocr_provider @ embedding_provider @ vector_store"

section \<open>Properties\<close>

text \<open>
  C37. The adapters can stand for their protocols: for every method a protocol declares, its adapter has
  one of that name which accepts every call that type-checks against the declaration, positional and
  keyword arguments and omitted defaults included, is awaited in the same way, and whose result is of
  the declared type.
\<close>

theorem adapters_satisfy_protocols:
  assumes "(a, p) \<in> set adapters" and "declared \<in> set p"
  shows "\<exists>m \<in> set a. ms_name m = ms_name declared \<and> (\<forall>c. binds declared c \<longrightarrow> binds m c)
    \<and> awaited m = awaited declared \<and> admits (ms_result declared) (ms_result m)"
proof -
  have "implements a p" using assms(1) adapters_implement by (auto simp: list_all_iff)
  then obtain m where "m \<in> set a" "conforms m declared"
    using assms(2) by (auto simp: implements_def list_all_iff list_ex_iff)
  then show ?thesis using conforming_binds by (auto simp: conforms_def)
qed

theorem adapters_satisfy_protocols_witness:
  "\<exists>m \<in> set pg_vector_store_methods. ms_name m = ''search''
    \<and> binds m \<lparr>cs_positional = [[''list[float]'']],
                cs_keywords = [(''top_k'', [''int'']), (''query_text'', [''None'']), (''filters'', [''None''])]\<rparr>"
proof -
  let ?d = "vector_store ! 3"
  let ?c = "\<lparr>cs_positional = [[''list[float]'']],
                cs_keywords = [(''top_k'', [''int'']), (''query_text'', [''None'']), (''filters'', [''None''])]\<rparr>"
  have "?d \<in> set vector_store" "ms_name ?d = ''search''"
    by (simp_all add: vector_store_def signature_def)
  moreover have "binds ?d ?c" by code_simp
  moreover have "(pg_vector_store_methods, vector_store) \<in> set adapters" by (simp add: adapters_def)
  ultimately show ?thesis
    using adapters_satisfy_protocols [of pg_vector_store_methods vector_store ?d] by fastforce
qed

text \<open>
  The methods that are not coroutines, although the module says that all are.
\<close>

lemma not_all_methods_are_async:
  "map ms_name (filter (\<lambda>m. \<not> awaited m) protocols) = [''get_stream'', ''model'', ''dimension'']"
  by code_simp

end
