(* ===== verification/Pipeline.thy ===== *)
theory Pipeline
  imports Steps Sessions
begin

text \<open>
  What the step repository gives the pipeline that calls it: whatever happened to a document before,
  workers that died in the middle of a step included, there are calls that complete it.
\<close>

section \<open>Working through the steps\<close>

text \<open>A worker that executes a step: it claims it and records its success.\<close>

definition execute_step :: "timestamp \<Rightarrow> uuid \<Rightarrow> pipeline_step \<Rightarrow> step_op list" where
  "execute_step now d s = [Claim now d s, MarkSucceeded now d s None None None]"

text \<open>The schedule of a full run: the rows are created where missing, reset, and executed in order.\<close>

definition full_run :: "(pipeline_step \<Rightarrow> uuid) \<Rightarrow> timestamp \<Rightarrow> uuid \<Rightarrow> int \<Rightarrow> step_op list" where
  "full_run new_id now d n =
     EnsureSteps new_id now d n # ResetFrom now d STORE # concat (map (execute_step now d) STEP_ORDER)"

definition done_row :: "timestamp \<Rightarrow> step_row \<Rightarrow> step_row" where
  "done_row now r = succeeded now None None None (claimed now r)"

lemma run_ops_append:
  "run_ops ex (xs @ ys) t =
     (case run_ops ex xs t of (tr, t1) \<Rightarrow> (case run_ops ex ys t1 of (tr', t2) \<Rightarrow> (tr @ tr', t2)))"
  by (induction xs arbitrary: t) (auto split: prod.splits)

lemma run_ops_reach: "steps_reach ex t \<Longrightarrow> run_ops ex ops t = (tr, t') \<Longrightarrow> steps_reach ex t'"
  by (induction ops arbitrary: t tr) (auto split: prod.splits intro: reach_op)

lemma done_row_fits: "step_fits r \<Longrightarrow> row_lifecycle r \<Longrightarrow> pending r \<Longrightarrow> step_fits (done_row now r)"
  by (simp add: step_fits_def row_lifecycle_def done_row_def succeeded_def claimed_def elapsed_ms_def pending_def)

lemma run_execute_step:
  assumes eng: "sql_engine ex step_fits (steps_ok docs)" and inv: "steps_inv docs t"
    and r: "steps_map t (d, s) = Some r" "pending r"
  obtains tr t' where "run_ops ex (execute_step now d s) t = (tr, t')" "steps_inv docs t'"
    "steps_map t' = (steps_map t)((d, s) \<mapsto> done_row now r)"
proof -
  obtain t1 where c: "claim ex now d s t = (Inr (fst (cas pending (claimed now) (d, s) (steps_map t))), t1)"
    and m1: "steps_map t1 = snd (cas pending (claimed now) (d, s) (steps_map t))" and inv1: "steps_inv docs t1"
    by (rule claim_exec [OF eng inv])
  have m1: "steps_map t1 = (steps_map t)((d, s) \<mapsto> claimed now r)" using r by (simp add: m1 cas_def)
  have run: "running (claimed now r)" by (simp add: running_def claimed_def)
  have "r \<in> set t" using r(1) steps_map_Some [OF inv] by simp
  then have fit: "step_fits (done_row now r)"
    using inv r(2) by (auto simp: steps_inv_def list_all_iff intro: done_row_fits)
  show thesis
  proof (rule mark_succeeded_exec [OF eng inv1, of now d s None None None])
    fix e r' assume "steps_map t1 (d, s) = Some r'" "\<not> step_fits (succeeded now None None None r')"
    with fit show thesis by (simp add: m1 done_row_def)
  next
    fix t2 assume m: "mark_succeeded ex now d s None None None t1 =
        (Inr (fst (cas running (succeeded now None None None) (d, s) (steps_map t1))), t2)"
      and m2: "steps_map t2 = snd (cas running (succeeded now None None None) (d, s) (steps_map t1))"
      and inv2: "steps_inv docs t2"
    have "steps_map t2 = (steps_map t)((d, s) \<mapsto> done_row now r)"
      using run by (simp add: m2 m1 cas_def done_row_def)
    then show thesis using that inv2 c m by (simp add: execute_step_def)
  qed
qed

lemma run_execute_steps:
  assumes eng: "sql_engine ex step_fits (steps_ok docs)"
  shows "steps_inv docs t \<Longrightarrow> distinct ss \<Longrightarrow>
    \<forall>s \<in> set ss. \<exists>r. steps_map t (d, s) = Some r \<and> pending r \<Longrightarrow>
    \<exists>tr t'. run_ops ex (concat (map (execute_step now d) ss)) t = (tr, t') \<and> steps_inv docs t'
      \<and> (\<forall>d' s'. steps_map t' (d', s') =
           (if d' = d \<and> s' \<in> set ss then map_option (done_row now) (steps_map t (d', s'))
            else steps_map t (d', s')))"
proof (induction ss arbitrary: t)
  case Nil
  then show ?case by simp
next
  case (Cons s ss)
  then obtain r where r: "steps_map t (d, s) = Some r" "pending r" by auto
  obtain tr t1 where run: "run_ops ex (execute_step now d s) t = (tr, t1)" and inv1: "steps_inv docs t1"
    and m1: "steps_map t1 = (steps_map t)((d, s) \<mapsto> done_row now r)"
    by (rule run_execute_step [OF eng Cons.prems(1) r])
  have "\<forall>s' \<in> set ss. \<exists>r. steps_map t1 (d, s') = Some r \<and> pending r"
    using Cons.prems(2,3) by (auto simp: m1)
  then obtain tr' t' where rest: "run_ops ex (concat (map (execute_step now d) ss)) t1 = (tr', t')"
    and inv': "steps_inv docs t'"
    and m': "\<forall>d' s'. steps_map t' (d', s') =
           (if d' = d \<and> s' \<in> set ss then map_option (done_row now) (steps_map t1 (d', s'))
            else steps_map t1 (d', s'))"
    using Cons.IH [OF inv1] Cons.prems(2) by auto
  have "run_ops ex (concat (map (execute_step now d) (s # ss))) t = (tr @ tr', t')"
    by (simp add: run_ops_append run rest)
  moreover have "steps_map t' (d', s') =
      (if d' = d \<and> s' \<in> set (s # ss) then map_option (done_row now) (steps_map t (d', s'))
       else steps_map t (d', s'))" for d' s'
    using m' r Cons.prems(2) by (auto simp: m1)
  ultimately show ?case using inv' by blast
qed

text \<open>
  C17. Completion stays possible: from every table that operations of any workers can reach, with rows
  of the document pending, running in a worker that died, failed or missing, the full run brings all
  six steps of the document to success and leaves the rows of every other document as they were.
\<close>

theorem full_run_completes_document:
  assumes "sql_engine ex step_fits (steps_ok docs)" and "steps_reach ex t"
    and "d \<in> docs" and "int4 n" and "inj new_id" and "range new_id \<inter> ds_id ` set t = {}"
  shows "\<exists>tr t'. run_ops ex (full_run new_id now d n) t = (tr, t') \<and> steps_reach ex t'
    \<and> (\<forall>s. \<exists>r. steps_map t' (d, s) = Some r \<and> ds_status r = SUCCEEDED)
    \<and> (\<forall>d' s. d' \<noteq> d \<longrightarrow> steps_map t' (d', s) = steps_map t (d', s))"
proof -
  have inv: "steps_inv docs t" by (rule steps_reach_inv [OF assms(1,2)])
  obtain t1 where ens: "ensure_steps ex new_id now d n t = (Inr (rows_of d t1), t1)"
    and m1: "steps_map t1 = ensure_map new_id now d n (steps_map t)" and inv1: "steps_inv docs t1"
    by (rule ensure_steps_exec [OF assms(1) inv, of new_id now d n])
       (use missing_rows_ok [OF inv assms(3,5,6)] assms(4) in auto)
  obtain t2 where res: "reset_from ex now d STORE t1 = (Inr (rows_of d t2), t2)"
    and m2: "steps_map t2 = reset_map now d STORE (steps_map t1)" and inv2: "steps_inv docs t2"
    by (rule reset_from_exec [OF assms(1) inv1])
  have first: "STORE \<le> s" for s by (cases s) (simp_all add: less_eq_pipeline_step_def)
  have rows: "\<exists>r. steps_map t2 (d, s) = Some r \<and> pending r" for s
    using ensure_map_row [OF inv, of new_id now d n s] first [of s]
    by (auto simp: m2 reset_map_def m1 pending_def reset_def)
  obtain tr t' where run: "run_ops ex (concat (map (execute_step now d) STEP_ORDER)) t2 = (tr, t')"
    and m': "\<forall>d' s'. steps_map t' (d', s') =
           (if d' = d \<and> s' \<in> set STEP_ORDER then map_option (done_row now) (steps_map t2 (d', s'))
            else steps_map t2 (d', s'))"
    using run_execute_steps [OF assms(1) inv2, of STEP_ORDER d now] rows by auto
  have "run_ops ex (full_run new_id now d n) t =
      ((EnsureSteps new_id now d n, Inr (rows_of d t1)) # (ResetFrom now d STORE, Inr (rows_of d t2)) # tr, t')"
    by (simp add: full_run_def ens res run)
  moreover from this have "steps_reach ex t'" by (rule run_ops_reach [OF assms(2)])
  moreover have "\<exists>r. steps_map t' (d, s) = Some r \<and> ds_status r = SUCCEEDED" for s
    using rows [of s] by (auto simp: m' done_row_def succeeded_def)
  moreover have "d' \<noteq> d \<Longrightarrow> steps_map t' (d', s) = steps_map t (d', s)" for d' s
    by (simp add: m' m2 reset_map_def m1 ensure_map_def)
  ultimately show ?thesis by blast
qed

lemma inj_sample_id: "inj sample_id"
proof (rule injI)
  fix a b assume "sample_id a = sample_id b"
  then show "a = b" by (cases a; cases b) (simp_all add: sample_id_def)
qed

lemma full_run_completes_document_witness:
  "\<exists>tr t'. run_ops sample_engine (full_run sample_id 7 1 3) [] = (tr, t')
    \<and> (\<forall>s. \<exists>r. steps_map t' (1, s) = Some r \<and> ds_status r = SUCCEEDED)"
  using full_run_completes_document [OF step_engine.sql_engine_axioms reach_empty, of 1 "{1}" 3 sample_id 7]
    inj_sample_id by auto

section \<open>A document and its steps in one transaction\<close>

type_synonym pipeline_db = "document_row list \<times> step_row list"

definition on_documents ::
  "(document_row list \<Rightarrow> (py_exn + 'a) \<times> document_row list) \<Rightarrow> pipeline_db \<Rightarrow> (py_exn + 'a) \<times> pipeline_db" where
  "on_documents m db = (case m (fst db) of (r, dt) \<Rightarrow> (r, (dt, snd db)))"

text \<open>The references of the step rows are checked against the documents the session sees.\<close>

definition on_steps ::
  "(document_row list \<Rightarrow> step_row engine) \<Rightarrow> (step_row engine \<Rightarrow> step_row list \<Rightarrow> (py_exn + 'a) \<times> step_row list)
     \<Rightarrow> pipeline_db \<Rightarrow> (py_exn + 'a) \<times> pipeline_db" where
  "on_steps exs m db = (case m (exs (fst db)) (snd db) of (r, st) \<Rightarrow> (r, (fst db, st)))"

text \<open>What a caller does with an upload: the document row, then the rows of its steps.\<close>

definition ingest ::
  "document_row engine \<Rightarrow> (document_row list \<Rightarrow> step_row engine) \<Rightarrow> uuid \<Rightarrow> (pipeline_step \<Rightarrow> uuid)
     \<Rightarrow> timestamp \<Rightarrow> document_values \<Rightarrow> int \<Rightarrow> pipeline_db \<Rightarrow> (py_exn + step_row list) \<times> pipeline_db" where
  "ingest exd exs i new_id now v n =
     seqE (on_documents (create_document exd i now v))
       (\<lambda>_. on_steps exs (\<lambda>ex. ensure_steps ex new_id now i n))"

definition ingested ::
  "document_row engine \<Rightarrow> (document_row list \<Rightarrow> step_row engine) \<Rightarrow> document_row \<Rightarrow> pipeline_db \<Rightarrow> bool" where
  "ingested exd exs row db \<longleftrightarrow>
     get_document exd (doc_id row) (fst db) = (Inr (Some row), fst db)
     \<and> (\<exists>rows. list_steps (exs (fst db)) (doc_id row) (snd db) = (Inr rows, snd db)
          \<and> map ds_step rows = STEP_ORDER \<and> list_all pending rows)"

lemma steps_inv_mono: "steps_inv docs t \<Longrightarrow> docs \<subseteq> docs' \<Longrightarrow> steps_inv docs' t"
  by (auto simp: steps_inv_def steps_ok_def)

lemma ingest_outcome:
  assumes exd: "sql_engine exd document_fits (documents_ok tags)"
    and exs: "\<And>docs. sql_engine (exs docs) step_fits (steps_ok (doc_id ` set docs))"
    and ok: "documents_ok tags dt" and inv: "steps_inv (doc_id ` set dt) st"
    and ids: "inj new_id" "range new_id \<inter> ds_id ` set st = {}" and n: "int4 n"
    and run: "ingest exd exs i new_id now v n (dt, st) = (Inr rows, db)"
  shows "ingested exd exs (new_document i now v) db"
proof -
  let ?n = "new_document i now v"
  obtain row dt1 where create: "create_document exd i now v dt = (Inr row, dt1)"
    using run by (auto simp: ingest_def seqE_def on_documents_def split: prod.splits sum.splits)
  have doc: "mset dt1 = mset (dt @ [?n])" "documents_ok tags dt1" "documents_ok tags (dt @ [?n])"
    by (rule create_document_cases [OF exd ok, of i now v]; use create in simp)+
  have set1: "set dt1 = insert ?n (set dt)" using mset_eq_setD [OF doc(1)] by simp
  then have known: "i \<in> doc_id ` set dt1" and inv1: "steps_inv (doc_id ` set dt1) st"
    using steps_inv_mono [OF inv, of "doc_id ` set dt1"] by (auto simp: image_iff)
  have fresh: "steps_map st (i, s) = None" for s
    using inv doc(3) by (auto simp: table_map_None steps_inv_def steps_ok_def documents_ok_def step_key_def)
  obtain st' where ens: "ensure_steps (exs dt1) new_id now i n st = (Inr (rows_of i st'), st')"
    and m: "steps_map st' = ensure_map new_id now i n (steps_map st)" and inv': "steps_inv (doc_id ` set dt1) st'"
    by (rule ensure_steps_exec [OF exs inv1, of new_id now i n])
       (use missing_rows_ok [OF inv1 known ids] n in auto)
  have db: "db = (dt1, st')"
    using run by (simp add: ingest_def seqE_def on_documents_def on_steps_def create ens)
  have row: "steps_map st' (i, s) = Some (new_step_row (new_id s) now i s n)" for s
    by (simp add: m ensure_map_def fresh)
  have "rows_of i st' = map (\<lambda>s. new_step_row (new_id s) now i s n) STEP_ORDER"
    by (simp add: rows_of_def row List.map_filter_def comp_def)
  then have "map ds_step (rows_of i st') = STEP_ORDER" "list_all pending (rows_of i st')"
    by (simp_all add: comp_def list_all_iff pending_def)
  moreover have "?n \<in> set dt1" by (simp add: set1)
  then have "documents_map dt1 i = Some ?n"
    using table_map_SomeI [OF documents_ok_id [OF doc(2)]] by fastforce
  ultimately show ?thesis
    using get_document_exec [OF exd doc(2)] list_steps_exec [OF exs steps_inv_ok [OF inv']]
    by (simp add: ingested_def db)
qed

text \<open>
  C16. A document and its steps appear together or not at all: when a session scope creates the document
  and then its steps, the committed tables afterwards are the ones before, or hold the document and
  its six steps, pending and in pipeline order; they hold them whenever the scope returns. This is so
  whatever fails: an insert, the commit (before or after it takes effect), the rollback or the close.
\<close>

theorem document_and_steps_created_together:
  assumes "sql_engine exd document_fits (documents_ok tags)"
    and "\<And>docs. sql_engine (exs docs) step_fits (steps_ok (doc_id ` set docs))"
    and "documents_ok tags (fst db)" and "steps_inv (doc_id ` set (fst db)) (snd db)"
    and "inj new_id" and "range new_id \<inter> ds_id ` set (snd db) = {}" and "int4 n"
    and "db_session committed working is_open commit rollback close"
    and "working s = db" and "committed s = db"
    and "\<And>r s'. body s = (r, s') \<Longrightarrow>
      committed s' = committed s \<and> ingest exd exs i new_id now v n db = (r, working s')"
    and "session_scope commit rollback close body s = (r, s')"
  shows "(committed s' = db \<or> ingested exd exs (new_document i now v) (committed s'))
    \<and> (\<forall>rows. r = Inr rows \<longrightarrow> ingested exd exs (new_document i now v) (committed s'))
    \<and> \<not> is_open s'"
proof -
  obtain b s1 where b: "body s = (b, s1)" by fastforce
  have body: "committed s1 = db" "ingest exd exs i new_id now v n db = (b, working s1)"
    using assms(10,11) b by auto
  have good: "ingested exd exs (new_document i now v) (working s1)" if "b = Inr rows" for rows
    using ingest_outcome [OF assms(1-7), where i = i and now = now and v = v and rows = rows and db = "working s1"]
      body(2) that by simp
  show ?thesis
    using db_session.scope_outcome [OF assms(8,12) b] good body(1) by auto
qed

text \<open>The upload of a third document, with a commit that is lost.\<close>

lemma document_and_steps_created_together_witness:
  "\<exists>r s'. session_scope pg_commit pg_rollback pg_close
      (on_working (ingest sample_document_engine (\<lambda>docs. pg_execute step_fits (steps_ok (doc_id ` set docs)))
         3 sample_id 9 (sample_values (replicate 64 CHR ''c'')) 3))
      \<lparr>ss_committed = (sample_documents, []), ss_working = (sample_documents, []), ss_open = True,
       ss_plan = [Some (DBAPIError ''connection lost'')]\<rparr> = (r, s')
    \<and> (ss_committed s' = (sample_documents, [])
       \<or> ingested sample_document_engine (\<lambda>docs. pg_execute step_fits (steps_ok (doc_id ` set docs)))
           (new_document 3 9 (sample_values (replicate 64 CHR ''c''))) (ss_committed s'))"
proof -
  let ?exs = "\<lambda>docs. pg_execute step_fits (steps_ok (doc_id ` set docs))" and ?db = "(sample_documents, [] :: step_row list)"
  let ?body = "on_working (ingest sample_document_engine ?exs 3 sample_id 9 (sample_values (replicate 64 CHR ''c'')) 3)"
  let ?s = "\<lparr>ss_committed = ?db, ss_working = ?db, ss_open = True, ss_plan = [Some (DBAPIError ''connection lost'')]\<rparr>"
  obtain r s' where run: "session_scope pg_commit pg_rollback pg_close ?body ?s = (r, s')" by fastforce
  have "documents_ok {} (fst ?db)" "steps_inv (doc_id ` set (fst ?db)) (snd ?db)"
    using sample_documents_ok by (simp_all add: steps_inv_def steps_ok_def)
  moreover have "ss_committed s1 = ss_committed ?s \<and>
      ingest sample_document_engine ?exs 3 sample_id 9 (sample_values (replicate 64 CHR ''c'')) 3 ?db = (r1, ss_working s1)"
    if "?body ?s = (r1, s1)" for r1 s1
    using that by (auto simp: on_working_def split: prod.splits)
  ultimately show ?thesis
    using document_and_steps_created_together [OF document_engine.sql_engine_axioms step_engine.sql_engine_axioms
        _ _ inj_sample_id _ _ pg.db_session_axioms _ _ _ run, of "{}" ?db 3 3 9 "sample_values (replicate 64 CHR ''c'')"]
      run by fastforce
qed

end
