(* ===== verification/Spec2Isabelle.thy ===== *)
theory Spec2Isabelle
  imports Ids Enums Config Steps Documents Extractions Cache Tags Vectors Blob Content
    Accounts AuditLog Webhooks Sessions Stores Api Schema Mermaid
    Dtos Contracts ChunkTypes Protocols Pipeline
begin

text \<open>
  \<^bold>\<open>A verification of the IPA document pipeline's platform layer.\<close>

  The repository is the Python platform of a document pipeline: a document is uploaded to an object
  store, split into pages, read by OCR, extracted into fields, embedded into vectors and reviewed. At
  this commit the platform below the pipeline is there: configuration, errors, identifiers, the
  PostgreSQL schema and its repositories, the object, content, cache and vector stores, telemetry, and
  an API with its probes. Step handlers, providers and services are not. The development models that
  platform, almost all of the Python under \<open>src/src/ipa\<close>, the migration under \<open>src/migrations\<close> and the
  script \<open>src/scripts/validate_mermaid.py\<close>, and proves what its callers may rely on.

  \<^bold>\<open>How the parts interact.\<close> Repositories work in a SQLAlchemy session that a caller opens with
  \<open>session_scope\<close>; the tables of one session are committed or rolled back together. The vector store
  opens sessions of its own and keeps a copy of each document's tag and status in its chunks, which
  \<open>refresh_metadata\<close> brings up to date. The other stores are adapters over client libraries, one per
  process, made and closed by \<open>factory.py\<close>, and satisfy the protocols of \<open>contracts/protocols.py\<close>. Every
  error a caller sees is an \<open>IpaError\<close>, which the API turns into a problem document. The migration
  builds the tables that the ORM classes declare and records the dimension of the vectors, which a check
  at startup compares with the settings.

  \<^bold>\<open>Theories and the code they model\<close> (paths below \<open>src/src/ipa\<close> unless they start with \<open>src/\<close>):
  \<^item> \<open>Prelude\<close>: Python's strings, numbers, dictionaries, sorting and slices, JSON, and the combinators
    \<open>seqE\<close>, \<open>catchE\<close>, \<open>finallyE\<close> of operations that pass a state and may raise.
  \<^item> \<open>Errors\<close> (\<open>core/errors.py\<close>): the error classes, problem documents and exception handlers.
  \<^item> \<open>Enums\<close> (\<open>core/enums.py\<close>, \<open>db/enums.py\<close>): enumerations, their wire values, the order of the steps.
  \<^item> \<open>Ids\<close> (\<open>core/ids.py\<close>, \<open>storage/keys.py\<close>, \<open>storage/cache_keys.py\<close>): blob and cache keys.
  \<^item> \<open>Config\<close> (\<open>core/config.py\<close>): settings, their bounds, derived values, the startup check.
  \<^item> \<open>Sql\<close>: a table is a list of rows; the statements the repositories issue; the locale \<open>sql_engine\<close>
    of what PostgreSQL promises of each, with rows in any order; and a reference engine \<open>pg_execute\<close>.
  \<^item> \<open>Steps\<close>, \<open>Documents\<close>, \<open>Extractions\<close>, \<open>Tags\<close>, \<open>Accounts\<close>, \<open>AuditLog\<close>, \<open>Webhooks\<close>
    (\<open>db/repositories/*.py\<close> with \<open>db/models/*.py\<close>): one record per table, with the ranges of its columns
    (\<open>..._fits\<close>) and its constraints (\<open>..._ok\<close>), and one definition per repository method.
  \<^item> \<open>Vectors\<close> (\<open>db/vector.py\<close>, \<open>db/repositories/chunk.py\<close>, \<open>db/models/chunk.py\<close>): chunks, filters,
    reciprocal rank fusion, search. \<open>ChunkTypes\<close>: the bounds of the DTOs on both sides of the store.
  \<^item> \<open>Sessions\<close> (\<open>db/session.py\<close>): the engine of the process and the scope of a transaction.
  \<^item> \<open>Ddl\<close>, \<open>Migration\<close> (\<open>src/migrations/versions/0001_initial.py\<close>), \<open>Orm\<close> (\<open>db/base.py\<close> and the tables
    of \<open>db/models/\<close>), \<open>Schema\<close> (\<open>db/verify.py\<close>, \<open>src/migrations/env.py\<close>): DDL on a model of the
    catalogue, the migration statement by statement, the declared metadata, and their comparison.
  \<^item> \<open>Dtos\<close> (\<open>db/dtos.py\<close>): the DTO classes and the reading of an ORM object into one.
    \<open>Contracts\<close> (\<open>contracts/models.py\<close>): the shared DTOs that no other theory has, and their construction.
  \<^item> \<open>Blob\<close>, \<open>Content\<close>, \<open>Cache\<close> (\<open>storage/blob.py\<close>, \<open>storage/content.py\<close>, \<open>storage/cache.py\<close>): the
    adapters, over clients that are arguments; a locale states what each server promises, and an
    interpretation on a server that the theory defines, with faults, shows that it can be kept.
  \<^item> \<open>Stores\<close> (\<open>storage/factory.py\<close>, \<open>storage/health.py\<close>): the adapters of the process, health checks.
  \<^item> \<open>Protocols\<close> (\<open>contracts/protocols.py\<close>): signatures, calls and conformance.
  \<^item> \<open>Observability\<close> (\<open>core/logging.py\<close>, \<open>core/otel.py\<close>) and \<open>Api\<close> (\<open>api/main.py\<close>, \<open>api/auth.py\<close>).
  \<^item> \<open>Mermaid\<close> (\<open>src/scripts/validate_mermaid.py\<close>): the check of the diagrams in the documentation.
  \<^item> \<open>Pipeline\<close>: what several of these give together.

  \<^bold>\<open>How state and errors correspond.\<close> A method that changes tables is a function from the table to a
  result and the table; the result is \<open>Inl\<close> of the exception raised or \<open>Inr\<close> of the value returned, so
  that every raise and early return is a branch. Each mutation of a repository is one SQL statement, so
  concurrent workers are sequences of calls in some order; where a method issues several statements and
  another transaction may come between them (\<open>ExtractionRepository.add\<close>), the model has the step in
  between. Module variables are an explicit state. Identifiers from \<open>uuid4\<close>, the clock, digests,
  collations, float arithmetic and the conversions of pydantic are arguments, with what is documented of
  them as hypotheses; every property with a hypothesis has a witness that meets it.

  \<^bold>\<open>What the lemmas show.\<close>
  \<^item> Steps: a step is claimed at most once per reset, by however many workers; every reachable row follows
    the life cycle; claiming, recording an outcome and resetting are compare-and-set on one row; and from
    every reachable table a full run still completes the document (\<open>Pipeline\<close>).
  \<^item> Versions: the versions of a document are contiguous and the last is the current one; a lost race is
    a conflict that changes nothing. Tag snapshots, audit records and delivery attempts are kept.
  \<^item> Transactions: a session scope is all or nothing, whatever fails in it; so a document is created
    together with its steps or not at all (\<open>Pipeline\<close>).
  \<^item> Stores: what is stored is read back; a stream of the wrong length stores nothing; retries converge;
    a lock has one holder and an idempotency key one winner; caching is transparent to the caller.
  \<^item> Search: the fusion ranks by the sums of reciprocal ranks; hits pass the filters; upserts refine a
    map; after a refresh the filters agree with the document; stored vectors make valid hits.
  \<^item> Schema: the migration builds the declared schema, the downgrade removes it, and the dimensions for
    which it works are stated; every DTO accepts every row of its table.
  \<^item> API: readiness reports every dependency, closes what it opens, and authentication fails closed.

  \<^bold>\<open>Loops, bounds and fuel.\<close> Every function is total. The loop of \<open>get_stream\<close> ends because each chunk
  shortens the body, \<open>find_blocks\<close> because each match consumes its text, \<open>expand\<close> and \<open>py_replace\<close>
  because each step shortens the rest; no fuel is used. Integer columns have their ranges (\<open>int4\<close>, \<open>int8\<close>)
  and a value outside them is refused, as are strings with a null character; \<open>NUMERIC(4,3)\<close> rounds.
  The limits of pgvector on dimensions are arguments.

  \<^bold>\<open>Not modelled.\<close> The log calls of the modules, thread offloading and the event loop; client
  construction beyond the options it passes; the identity map of a SQLAlchemy session (a row stands for
  the entity and for the DTO read from it); Alembic's version table and autogenerate; the approximate
  part of the HNSW index, of which only the subset it returns is assumed; the regular expression engine
  (the one pattern is a function) and the content of a diagram. A character is one code point below
  256. Tables without a repository (API keys, idempotency keys, the page index) have their schema and
  DTO only. The value pydantic makes of an argument for an annotation is an argument of the model.
  \<open>src/scripts/seed.py\<close> writes one log line, and the package initialisers only re-export.
\<close>

end
